theory Spec2Isabelle
  imports Main
begin

section \<open>JavaScript strings and the platform's codecs\<close>

text \<open>
  A JavaScript string is a sequence of UTF-16 code units. A code unit is modelled as a
  natural number (below 65536 in every string the runtime can build); \<open>lit\<close> turns
  an ASCII literal of the source into its code units.
\<close>

type_synonym jsstring = "nat list"

definition lit :: "string \<Rightarrow> jsstring" where
  "lit s = map of_char s"

text \<open>
  The worker's two helpers \<open>base64encode\<close> and \<open>base64decode\<close> are compositions
  of six built-ins of the runtime. The built-ins are modelled after their definitions
  in ECMAScript (\<open>encodeURIComponent\<close>, \<open>decodeURIComponent\<close>, \<open>escape\<close>,
  \<open>unescape\<close>) and in the HTML and Infra standards (\<open>btoa\<close>, \<open>atob\<close> with
  forgiving base64 decoding). Every exception of a built-in is a value of \<open>err\<close>.
\<close>

datatype http_method = GET | POST | PUT

datatype err =
    Missing_GITHUB_TOKEN
  | Missing_OPENAI_API_KEY
  | Missing_repo_owner_name
  | No_paths_provided
  | GitHub_failed http_method nat jsstring
  | OpenAI_Error nat jsstring
  | TypeError
  | SyntaxError
  | URIError
  | InvalidCharacterError
  | Network_error jsstring

definition hex_digit :: "nat \<Rightarrow> nat" where
  "hex_digit d = (if d < 10 then 48 + d else 55 + d)"

definition hex_value :: "nat \<Rightarrow> nat option" where
  "hex_value c =
     (if 48 \<le> c \<and> c \<le> 57 then Some (c - 48)
      else if 65 \<le> c \<and> c \<le> 70 then Some (c - 55)
      else if 97 \<le> c \<and> c \<le> 102 then Some (c - 87)
      else None)"

definition percent :: "nat \<Rightarrow> jsstring" where
  "percent b = [37, hex_digit (b div 16), hex_digit (b mod 16)]"

definition ascii_alnum :: "nat \<Rightarrow> bool" where
  "ascii_alnum c = ((65 \<le> c \<and> c \<le> 90) \<or> (97 \<le> c \<and> c \<le> 122) \<or> (48 \<le> c \<and> c \<le> 57))"

text \<open>The characters \<open>encodeURIComponent\<close> leaves alone: letters, digits and \<open>-_.!~*'()\<close>.\<close>

definition uri_unreserved :: "nat \<Rightarrow> bool" where
  "uri_unreserved c = (ascii_alnum c \<or> c \<in> set [45, 95, 46, 33, 126, 42, 39, 40, 41])"

text \<open>The characters \<open>escape\<close> leaves alone: letters, digits and \<open>@*_+-./\<close>.\<close>

definition escape_unreserved :: "nat \<Rightarrow> bool" where
  "escape_unreserved c = (ascii_alnum c \<or> c \<in> set [64, 42, 95, 43, 45, 46, 47])"

definition is_lead :: "nat \<Rightarrow> bool" where
  "is_lead c = (55296 \<le> c \<and> c \<le> 56319)"

definition is_trail :: "nat \<Rightarrow> bool" where
  "is_trail c = (56320 \<le> c \<and> c \<le> 57343)"

definition pair_code_point :: "nat \<Rightarrow> nat \<Rightarrow> nat" where
  "pair_code_point c d = 65536 + (c - 55296) * 1024 + (d - 56320)"

definition utf16_encode_code_point :: "nat \<Rightarrow> jsstring" where
  "utf16_encode_code_point v =
     (if v \<le> 65535 then [v]
      else [55296 + (v - 65536) div 1024, 56320 + (v - 65536) mod 1024])"

definition utf8_octets :: "nat \<Rightarrow> nat list" where
  "utf8_octets v =
     (if v < 128 then [v]
      else if v < 2048 then [192 + v div 64, 128 + v mod 64]
      else if v < 65536 then [224 + v div 4096, 128 + (v div 64) mod 64, 128 + v mod 64]
      else [240 + v div 262144, 128 + (v div 4096) mod 64, 128 + (v div 64) mod 64,
            128 + v mod 64])"

definition percent_octets :: "nat \<Rightarrow> jsstring" where
  "percent_octets v = concat (map percent (utf8_octets v))"

text \<open>
  \<open>encodeURIComponent\<close>: an unreserved code unit is copied; any other code point is
  written as the percent-escapes of its UTF-8 octets; a surrogate without its partner
  raises URIError.
\<close>

fun encodeURIComponent :: "jsstring \<Rightarrow> err + jsstring" where
  "encodeURIComponent [] = Inr []"
| "encodeURIComponent (c # cs) =
     (if uri_unreserved c then
        (case encodeURIComponent cs of Inl e \<Rightarrow> Inl e | Inr r \<Rightarrow> Inr (c # r))
      else if is_lead c then
        (case cs of
           [] \<Rightarrow> Inl URIError
         | d # ds \<Rightarrow>
             if is_trail d then
               (case encodeURIComponent ds of
                  Inl e \<Rightarrow> Inl e
                | Inr r \<Rightarrow> Inr (percent_octets (pair_code_point c d) @ r))
             else Inl URIError)
      else if is_trail c then Inl URIError
      else (case encodeURIComponent cs of
              Inl e \<Rightarrow> Inl e
            | Inr r \<Rightarrow> Inr (percent_octets c @ r)))"

text \<open>
  \<open>unescape\<close>: \<open>%uXXXX\<close> and \<open>%XX\<close> with hexadecimal digits become the code unit
  they name; everything else is copied.
\<close>

definition hex2 :: "nat \<Rightarrow> nat \<Rightarrow> nat option" where
  "hex2 a b =
     (case hex_value a of
        None \<Rightarrow> None
      | Some x \<Rightarrow> (case hex_value b of None \<Rightarrow> None | Some y \<Rightarrow> Some (16 * x + y)))"

definition hex4 :: "nat \<Rightarrow> nat \<Rightarrow> nat \<Rightarrow> nat \<Rightarrow> nat option" where
  "hex4 a b c d =
     (case hex2 a b of
        None \<Rightarrow> None
      | Some x \<Rightarrow> (case hex2 c d of None \<Rightarrow> None | Some y \<Rightarrow> Some (256 * x + y)))"

fun unescape :: "jsstring \<Rightarrow> jsstring" where
  "unescape [] = []"
| "unescape (c # cs) =
     (if c = 37 then
        (case cs of
           u # a # b # c' # d # rest \<Rightarrow>
             (if u = 117 \<and> hex4 a b c' d \<noteq> None then the (hex4 a b c' d) # unescape rest
              else (case hex2 u a of
                      Some v \<Rightarrow> v # unescape (b # c' # d # rest)
                    | None \<Rightarrow> c # unescape cs))
         | a # b # rest \<Rightarrow>
             (case hex2 a b of
                Some v \<Rightarrow> v # unescape rest
              | None \<Rightarrow> c # unescape cs)
         | _ \<Rightarrow> c # unescape cs)
      else c # unescape cs)"

text \<open>\<open>btoa\<close>: base64 of a string of octets; a code unit above 255 raises.\<close>

definition b64_char :: "nat \<Rightarrow> nat" where
  "b64_char i =
     (if i < 26 then 65 + i
      else if i < 52 then 71 + i
      else if i < 62 then i - 4
      else if i = 62 then 43
      else 47)"

fun b64_encode :: "nat list \<Rightarrow> jsstring" where
  "b64_encode (a # b # c # rest) =
     [b64_char (a div 4), b64_char ((a mod 4) * 16 + b div 16),
      b64_char ((b mod 16) * 4 + c div 64), b64_char (c mod 64)] @ b64_encode rest"
| "b64_encode [a, b] =
     [b64_char (a div 4), b64_char ((a mod 4) * 16 + b div 16), b64_char ((b mod 16) * 4), 61]"
| "b64_encode [a] = [b64_char (a div 4), b64_char ((a mod 4) * 16), 61, 61]"
| "b64_encode [] = []"

definition btoa :: "jsstring \<Rightarrow> err + jsstring" where
  "btoa s = (if \<forall>c \<in> set s. c \<le> 255 then Inr (b64_encode s) else Inl InvalidCharacterError)"

text \<open>
  \<open>atob\<close>, forgiving base64 decoding: ASCII whitespace is removed; if the length is
  then a multiple of four, one or two trailing \<open>=\<close> are removed; a length of 1 modulo 4
  or a character outside the alphabet raises; the sextets are read four at a time and
  the bits left over at the end are dropped.
\<close>

definition ascii_whitespace :: "nat \<Rightarrow> bool" where
  "ascii_whitespace c = (c \<in> set [9, 10, 12, 13, 32])"

definition b64_value :: "nat \<Rightarrow> nat option" where
  "b64_value c =
     (if 65 \<le> c \<and> c \<le> 90 then Some (c - 65)
      else if 97 \<le> c \<and> c \<le> 122 then Some (c - 71)
      else if 48 \<le> c \<and> c \<le> 57 then Some (c + 4)
      else if c = 43 then Some 62
      else if c = 47 then Some 63
      else None)"

definition strip_padding :: "jsstring \<Rightarrow> jsstring" where
  "strip_padding s =
     (if length s mod 4 = 0 \<and> s \<noteq> [] then
        (if last s = 61 then
           (if butlast s \<noteq> [] \<and> last (butlast s) = 61 then butlast (butlast s) else butlast s)
         else s)
      else s)"

fun b64_decode :: "nat list \<Rightarrow> nat list" where
  "b64_decode (a # b # c # d # rest) =
     [a * 4 + b div 16, (b mod 16) * 16 + c div 4, (c mod 4) * 64 + d] @ b64_decode rest"
| "b64_decode [a, b, c] = [a * 4 + b div 16, (b mod 16) * 16 + c div 4]"
| "b64_decode [a, b] = [a * 4 + b div 16]"
| "b64_decode [a] = []"
| "b64_decode [] = []"

definition atob :: "jsstring \<Rightarrow> err + jsstring" where
  "atob s =
     (let d = strip_padding (filter (\<lambda>c. \<not> ascii_whitespace c) s) in
      if length d mod 4 = 1 then Inl InvalidCharacterError
      else if \<exists>c \<in> set d. b64_value c = None then Inl InvalidCharacterError
      else Inr (b64_decode (map (\<lambda>c. the (b64_value c)) d)))"

text \<open>
  \<open>escape\<close>: an unreserved code unit is copied, one below 256 becomes \<open>%XX\<close>, any
  other \<open>%uXXXX\<close>.
\<close>

definition escape_unit :: "nat \<Rightarrow> jsstring" where
  "escape_unit c =
     (if escape_unreserved c then [c]
      else if c < 256 then percent c
      else [37, 117, hex_digit (c div 4096), hex_digit ((c div 256) mod 16),
            hex_digit ((c div 16) mod 16), hex_digit (c mod 16)])"

definition escape :: "jsstring \<Rightarrow> jsstring" where
  "escape s = concat (map escape_unit s)"

text \<open>
  \<open>decodeURIComponent\<close>: a code unit other than \<open>%\<close> is copied; \<open>%XX\<close> names an
  octet; an octet with n leading one bits (n from 2 to 4) starts a UTF-8 sequence of n
  escaped octets, which must be the valid (shortest, non-surrogate, at most 0x10FFFF)
  encoding of a code point; every other case raises URIError.
\<close>

fun take_octet :: "jsstring \<Rightarrow> (nat \<times> jsstring) option" where
  "take_octet (p # a # b # rest) =
     (if p = 37 then (case hex2 a b of None \<Rightarrow> None | Some v \<Rightarrow> Some (v, rest)) else None)"
| "take_octet _ = None"

fun take_octets :: "nat \<Rightarrow> jsstring \<Rightarrow> (nat list \<times> jsstring) option" where
  "take_octets 0 s = Some ([], s)"
| "take_octets (Suc n) s =
     (case take_octet s of
        None \<Rightarrow> None
      | Some (v, rest) \<Rightarrow>
          (case take_octets n rest of
             None \<Rightarrow> None
           | Some (vs, rest') \<Rightarrow> Some (v # vs, rest')))"

definition leading_ones :: "nat \<Rightarrow> nat" where
  "leading_ones b =
     (if b < 128 then 0 else if b < 192 then 1 else if b < 224 then 2
      else if b < 240 then 3 else if b < 248 then 4 else 5)"

definition continuation :: "nat \<Rightarrow> bool" where
  "continuation b = (128 \<le> b \<and> b < 192)"

definition scalar_value :: "nat \<Rightarrow> bool" where
  "scalar_value v = (v \<le> 1114111 \<and> \<not> (55296 \<le> v \<and> v \<le> 57343))"

fun utf8_code_point :: "nat list \<Rightarrow> nat option" where
  "utf8_code_point [b1, b2] =
     (let v = (b1 - 192) * 64 + (b2 - 128) in
      if continuation b2 \<and> 128 \<le> v then Some v else None)"
| "utf8_code_point [b1, b2, b3] =
     (let v = (b1 - 224) * 4096 + (b2 - 128) * 64 + (b3 - 128) in
      if continuation b2 \<and> continuation b3 \<and> 2048 \<le> v \<and> scalar_value v then Some v
      else None)"
| "utf8_code_point [b1, b2, b3, b4] =
     (let v = (b1 - 240) * 262144 + (b2 - 128) * 4096 + (b3 - 128) * 64 + (b4 - 128) in
      if continuation b2 \<and> continuation b3 \<and> continuation b4 \<and> 65536 \<le> v \<and> scalar_value v
      then Some v else None)"
| "utf8_code_point _ = None"

lemma take_octet_shorter: "take_octet s = Some (v, r) \<Longrightarrow> length r < length s"
  by (induction s rule: take_octet.induct) (auto split: if_splits option.splits)

lemma take_octets_shorter: "take_octets n s = Some (vs, r) \<Longrightarrow> length r \<le> length s"
proof (induction n arbitrary: s vs r)
  case 0
  then show ?case by simp
next
  case (Suc n)
  then show ?case
    by (fastforce split: option.splits prod.splits dest: take_octet_shorter)
qed

function decodeURIComponent :: "jsstring \<Rightarrow> err + jsstring" where
  "decodeURIComponent [] = Inr []"
| "decodeURIComponent (c # cs) =
     (if c \<noteq> 37 then
        (case decodeURIComponent cs of Inl e \<Rightarrow> Inl e | Inr r \<Rightarrow> Inr (c # r))
      else
        (case take_octet (c # cs) of
           None \<Rightarrow> Inl URIError
         | Some (b, rest) \<Rightarrow>
             if leading_ones b = 0 then
               (case decodeURIComponent rest of Inl e \<Rightarrow> Inl e | Inr r \<Rightarrow> Inr (b # r))
             else if leading_ones b = 1 \<or> leading_ones b > 4 then Inl URIError
             else
               (case take_octets (leading_ones b - 1) rest of
                  None \<Rightarrow> Inl URIError
                | Some (bs, rest') \<Rightarrow>
                    (case utf8_code_point (b # bs) of
                       None \<Rightarrow> Inl URIError
                     | Some v \<Rightarrow>
                         (case decodeURIComponent rest' of
                            Inl e \<Rightarrow> Inl e
                          | Inr r \<Rightarrow> Inr (utf16_encode_code_point v @ r))))))"
  by pat_completeness auto
termination
proof (relation "measure length", goal_cases)
  case 1
  show ?case by simp
next
  case (2 c cs)
  then show ?case by simp
next
  case (3 c cs x2 b rest)
  then show ?case using take_octet_shorter [of "c # cs" b rest] by simp
next
  case (4 c cs x2 b rest x2a bs rest')
  then show ?case
    using take_octet_shorter [of "c # cs" b rest]
      take_octets_shorter [of "leading_ones b - 1" rest bs rest'] by simp
qed


text \<open>The worker's helpers, as the source composes them.\<close>

definition base64encode :: "jsstring \<Rightarrow> err + jsstring" where
  "base64encode str =
     (case encodeURIComponent str of Inl e \<Rightarrow> Inl e | Inr u \<Rightarrow> btoa (unescape u))"

definition base64decode :: "jsstring \<Rightarrow> err + jsstring" where
  "base64decode str =
     (case atob str of Inl e \<Rightarrow> Inl e | Inr b \<Rightarrow> decodeURIComponent (escape b))"

section \<open>JavaScript values read from JSON\<close>

text \<open>
  Every value the worker handles comes out of a JSON document (a request body, a reply
  of the source-control API, the model's reply) or is \<open>undefined\<close>. A value is a
  \<open>json option\<close>, \<open>None\<close> being \<open>undefined\<close>. Numbers are modelled as integers,
  printed in decimal: these are JavaScript's numbers for the integers of magnitude below
  \<open>10^21\<close>; a fraction, or a larger number (which JavaScript prints with an exponent),
  is outside the model. An object is the list of its own properties, each key once.
\<close>

datatype json =
    JNull
  | JBool bool
  | JNum int
  | JStr jsstring
  | JArr "json list"
  | JObj "(jsstring \<times> json) list"

type_synonym jsval = "json option"

text \<open>
  Two built-ins that read a string are parameters of the model: \<open>JSON.parse\<close>
  (\<open>None\<close> when it raises SyntaxError) and the conversion of a string to a number
  (\<open>None\<close> for NaN).
\<close>

record platform =
  JSON_parse :: "jsstring \<Rightarrow> json option"
  StringToNumber :: "jsstring \<Rightarrow> int option"

text \<open>
  Property access \<open>v.k\<close>, for the property names the worker reads (none of them is
  inherited from a prototype): it raises TypeError on \<open>undefined\<close> and \<open>null\<close>.
\<close>

fun get_prop :: "jsval \<Rightarrow> jsstring \<Rightarrow> err + jsval" where
  "get_prop None k = Inl TypeError"
| "get_prop (Some JNull) k = Inl TypeError"
| "get_prop (Some (JObj kvs)) k = Inr (map_of kvs k)"
| "get_prop (Some (JArr xs)) k =
     Inr (if k = lit ''length'' then Some (JNum (int (length xs))) else None)"
| "get_prop (Some (JStr s)) k =
     Inr (if k = lit ''length'' then Some (JNum (int (length s))) else None)"
| "get_prop (Some (JBool b)) k = Inr None"
| "get_prop (Some (JNum n)) k = Inr None"

text \<open>Optional chaining \<open>v?.k\<close>.\<close>

definition optional_prop :: "jsval \<Rightarrow> jsstring \<Rightarrow> err + jsval" where
  "optional_prop v k = (if v = None \<or> v = Some JNull then Inr None else get_prop v k)"

text \<open>The element access \<open>v[0]\<close>.\<close>

fun index0 :: "jsval \<Rightarrow> err + jsval" where
  "index0 None = Inl TypeError"
| "index0 (Some JNull) = Inl TypeError"
| "index0 (Some (JArr xs)) = Inr (case xs of [] \<Rightarrow> None | x # _ \<Rightarrow> Some x)"
| "index0 (Some (JStr s)) = Inr (case s of [] \<Rightarrow> None | c # _ \<Rightarrow> Some (JStr [c]))"
| "index0 (Some (JObj kvs)) = Inr (map_of kvs (lit ''0''))"
| "index0 (Some (JBool b)) = Inr None"
| "index0 (Some (JNum n)) = Inr None"

fun truthy :: "jsval \<Rightarrow> bool" where
  "truthy None = False"
| "truthy (Some JNull) = False"
| "truthy (Some (JBool b)) = b"
| "truthy (Some (JNum n)) = (n \<noteq> 0)"
| "truthy (Some (JStr s)) = (s \<noteq> [])"
| "truthy (Some (JArr xs)) = True"
| "truthy (Some (JObj kvs)) = True"

text \<open>\<open>a || b\<close>.\<close>

definition js_or :: "jsval \<Rightarrow> jsval \<Rightarrow> jsval" where
  "js_or a b = (if truthy a then a else b)"

fun show_nat :: "nat \<Rightarrow> jsstring" where
  "show_nat n = (if n < 10 then [48 + n] else show_nat (n div 10) @ [48 + n mod 10])"

definition show_int :: "int \<Rightarrow> jsstring" where
  "show_int i = (if i < 0 then 45 # show_nat (nat (- i)) else show_nat (nat i))"

fun join :: "jsstring \<Rightarrow> jsstring list \<Rightarrow> jsstring" where
  "join sep [] = []"
| "join sep [x] = x"
| "join sep (x # y # ys) = x @ sep @ join sep (y # ys)"

text \<open>The conversion to a string that a template literal and the codecs apply.\<close>

fun json_to_string :: "json \<Rightarrow> jsstring" where
  "json_to_string JNull = lit ''null''"
| "json_to_string (JBool b) = (if b then lit ''true'' else lit ''false'')"
| "json_to_string (JNum n) = show_int n"
| "json_to_string (JStr s) = s"
| "json_to_string (JArr xs) =
     join (lit '','') (map (\<lambda>x. if x = JNull then [] else json_to_string x) xs)"
| "json_to_string (JObj kvs) = lit ''[object Object]''"

definition to_string :: "jsval \<Rightarrow> jsstring" where
  "to_string v = (case v of None \<Rightarrow> lit ''undefined'' | Some j \<Rightarrow> json_to_string j)"

text \<open>The conversion to a number of the comparison \<open>v > k\<close>; \<open>None\<close> is NaN.\<close>

definition to_number :: "platform \<Rightarrow> jsval \<Rightarrow> int option" where
  "to_number P v =
     (case v of
        None \<Rightarrow> None
      | Some JNull \<Rightarrow> Some 0
      | Some (JBool b) \<Rightarrow> Some (if b then 1 else 0)
      | Some (JNum n) \<Rightarrow> Some n
      | Some (JStr s) \<Rightarrow> StringToNumber P s
      | Some j \<Rightarrow> StringToNumber P (json_to_string j))"

definition js_gt :: "platform \<Rightarrow> jsval \<Rightarrow> int \<Rightarrow> bool" where
  "js_gt P v k = (case to_number P v of None \<Rightarrow> False | Some n \<Rightarrow> n > k)"

text \<open>
  The values a \<open>for ... of\<close> loop visits: the elements of an array, the code points of
  a string; anything else is not iterable.
\<close>

fun code_points :: "jsstring \<Rightarrow> jsstring list" where
  "code_points (c # d # rest) =
     (if is_lead c \<and> is_trail d then [c, d] # code_points rest
      else [c] # code_points (d # rest))"
| "code_points [c] = [[c]]"
| "code_points [] = []"

fun iterate :: "jsval \<Rightarrow> err + json list" where
  "iterate (Some (JArr xs)) = Inr xs"
| "iterate (Some (JStr s)) = Inr (map JStr (code_points s))"
| "iterate _ = Inl TypeError"

text \<open>An object literal; \<open>JSON.stringify\<close> leaves out a property that is \<open>undefined\<close>.\<close>

definition mk_obj :: "(string \<times> jsval) list \<Rightarrow> json" where
  "mk_obj kvs = JObj (List.map_filter (\<lambda>(k, v). map_option (Pair (lit k)) v) kvs)"


section \<open>The remote services and the calls issued to them\<close>

text \<open>
  A call is the method, the endpoint (the URL of the source, by its parts), the bearer
  credential and the JSON body. The remote side is any function from its own state and
  a call to a reply and a new state: it may answer a call differently each time. The
  run carries the remote state and the log of the calls issued so far, each with its
  reply.
\<close>

datatype endpoint =
    Contents jsstring jsstring jsstring "jsstring option"
  | Git_ref jsstring jsstring jsstring
  | Git_refs jsstring jsstring
  | Pulls jsstring jsstring
  | Chat_completions

datatype call =
  Call (call_method: http_method) (target: endpoint) (bearer: jsstring) (payload: "json option")

text \<open>
  A reply: the transport failed (\<open>fetch\<close> rejects), the status is not a success
  (\<open>res.ok\<close> is false; the status and the text of the body), or it is a success whose
  body \<open>res.json()\<close> parses (\<open>Some\<close>) or rejects (\<open>None\<close>).
\<close>

datatype reply =
    Net_failure jsstring
  | Http_error nat jsstring
  | Http_ok "json option"

type_synonym 'w remote = "'w \<Rightarrow> call \<Rightarrow> reply \<times> 'w"

type_synonym 'w net = "'w \<times> (call \<times> reply) list"

text \<open>
  A computation returns a value or raises, and leaves a new state; \<open>None\<close> is a run
  that does not return.
\<close>

type_synonym ('w, 'a) io = "'w net \<Rightarrow> ((err + 'a) \<times> 'w net) option"

definition ret :: "'a \<Rightarrow> ('w, 'a) io" where
  "ret x = (\<lambda>s. Some (Inr x, s))"

definition throw :: "err \<Rightarrow> ('w, 'a) io" where
  "throw e = (\<lambda>s. Some (Inl e, s))"

definition lift :: "err + 'a \<Rightarrow> ('w, 'a) io" where
  "lift v = (\<lambda>s. Some (v, s))"

definition bind :: "('w, 'a) io \<Rightarrow> ('a \<Rightarrow> ('w, 'b) io) \<Rightarrow> ('w, 'b) io" where
  "bind m f =
     (\<lambda>s. case m s of
             None \<Rightarrow> None
           | Some (Inl e, s') \<Rightarrow> Some (Inl e, s')
           | Some (Inr x, s') \<Rightarrow> f x s')"

definition perform :: "'w remote \<Rightarrow> call \<Rightarrow> ('w, reply) io" where
  "perform R c = (\<lambda>(w, tr). case R w c of (r, w') \<Rightarrow> Some (Inr r, (w', tr @ [(c, r)])))"

section \<open>The source-control client\<close>

definition gh_request ::
  "'w remote \<Rightarrow> jsval \<Rightarrow> http_method \<Rightarrow> endpoint \<Rightarrow> json option \<Rightarrow> ('w, json) io" where
  "gh_request R token m url body =
     bind (perform R (Call m url (to_string token) body))
       (\<lambda>res. case res of
                 Net_failure msg \<Rightarrow> throw (Network_error msg)
               | Http_error st t \<Rightarrow> throw (GitHub_failed m st t)
               | Http_ok None \<Rightarrow> throw SyntaxError
               | Http_ok (Some j) \<Rightarrow> ret j)"

definition ghGet :: "'w remote \<Rightarrow> jsval \<Rightarrow> endpoint \<Rightarrow> ('w, json) io" where
  "ghGet R token url = gh_request R token GET url None"

definition ghPost :: "'w remote \<Rightarrow> jsval \<Rightarrow> endpoint \<Rightarrow> json \<Rightarrow> ('w, json) io" where
  "ghPost R token url body = gh_request R token POST url (Some body)"

definition ghPut :: "'w remote \<Rightarrow> jsval \<Rightarrow> endpoint \<Rightarrow> json \<Rightarrow> ('w, json) io" where
  "ghPut R token url body = gh_request R token PUT url (Some body)"

section \<open>Collecting the files\<close>

datatype collected_file = Collected_file (file_path: jsval) (file_content: jsstring)

definition pushFile ::
  "'w remote \<Rightarrow> platform \<Rightarrow> jsval \<Rightarrow> jsval \<Rightarrow> jsval \<Rightarrow> jsval \<Rightarrow> jsval \<Rightarrow>
   collected_file list \<Rightarrow> ('w, collected_file list) io" where
  "pushFile R P owner repo branch path token out =
     bind (lift (encodeURIComponent (to_string path))) (\<lambda>p.
     bind (perform R (Call GET
             (Contents (to_string owner) (to_string repo) p (Some (to_string branch)))
             (to_string token) None)) (\<lambda>res.
       case res of
         Net_failure msg \<Rightarrow> throw (Network_error msg)
       | Http_error st t \<Rightarrow> ret out
       | Http_ok None \<Rightarrow> throw SyntaxError
       | Http_ok (Some meta) \<Rightarrow>
           bind (lift (get_prop (Some meta) (lit ''content''))) (\<lambda>content.
             if \<not> truthy content then ret out
             else
               bind (lift (get_prop (Some meta) (lit ''size''))) (\<lambda>size.
                 if js_gt P size 120000 then ret out
                 else
                   bind (lift (base64decode (to_string content))) (\<lambda>decoded.
                     ret (out @ [Collected_file path (take 7000 decoded)]))))))"

text \<open>
  The walk recurses without a depth limit; the first argument bounds the depth of the
  recursion in the model, and a walk that needs more does not return.
\<close>

fun crawlGitHubDir ::
  "'w remote \<Rightarrow> platform \<Rightarrow> nat \<Rightarrow> jsval \<Rightarrow> jsval \<Rightarrow> jsval \<Rightarrow> jsval \<Rightarrow> jsval \<Rightarrow>
   collected_file list \<Rightarrow> ('w, collected_file list) io"
and crawl_items ::
  "'w remote \<Rightarrow> platform \<Rightarrow> nat \<Rightarrow> jsval \<Rightarrow> jsval \<Rightarrow> jsval \<Rightarrow> jsval \<Rightarrow> json list \<Rightarrow>
   collected_file list \<Rightarrow> ('w, collected_file list) io" where
  "crawlGitHubDir R P 0 owner repo branch path token out = (\<lambda>s. None)"
| "crawlGitHubDir R P (Suc n) owner repo branch path token out =
     bind (lift (encodeURIComponent (to_string path))) (\<lambda>p.
     bind (perform R (Call GET
             (Contents (to_string owner) (to_string repo) p (Some (to_string branch)))
             (to_string token) None)) (\<lambda>res.
       case res of
         Net_failure msg \<Rightarrow> throw (Network_error msg)
       | Http_error st t \<Rightarrow> ret out
       | Http_ok None \<Rightarrow> throw SyntaxError
       | Http_ok (Some data) \<Rightarrow>
           bind (case data of
                   JArr items \<Rightarrow> crawl_items R P n owner repo branch token items out
                 | _ \<Rightarrow> ret out) (\<lambda>out1.
           bind (lift (get_prop (Some data) (lit ''type''))) (\<lambda>t.
             if t = Some (JStr (lit ''file'')) then
               bind (lift (get_prop (Some data) (lit ''path''))) (\<lambda>pth.
                 pushFile R P owner repo branch pth token out1)
             else ret out1))))"
| "crawl_items R P n owner repo branch token [] out = ret out"
| "crawl_items R P n owner repo branch token (item # items) out =
     bind (lift (get_prop (Some item) (lit ''type''))) (\<lambda>t.
       if t = Some (JStr (lit ''dir'')) then
         bind (lift (get_prop (Some item) (lit ''path''))) (\<lambda>pth.
         bind (crawlGitHubDir R P n owner repo branch pth token out) (\<lambda>out1.
           crawl_items R P n owner repo branch token items out1))
       else if t = Some (JStr (lit ''file'')) then
         bind (lift (get_prop (Some item) (lit ''path''))) (\<lambda>pth.
         bind (pushFile R P owner repo branch pth token out) (\<lambda>out1.
           crawl_items R P n owner repo branch token items out1))
       else crawl_items R P n owner repo branch token items out)"

text \<open>The loop of the handler over the given paths, into one accumulator.\<close>

fun crawl_paths ::
  "'w remote \<Rightarrow> platform \<Rightarrow> nat \<Rightarrow> jsval \<Rightarrow> jsval \<Rightarrow> jsval \<Rightarrow> jsval \<Rightarrow> json list \<Rightarrow>
   collected_file list \<Rightarrow> ('w, collected_file list) io" where
  "crawl_paths R P n owner repo branch token [] out = ret out"
| "crawl_paths R P n owner repo branch token (p # ps) out =
     bind (crawlGitHubDir R P n owner repo branch (Some p) token out) (\<lambda>out1.
       crawl_paths R P n owner repo branch token ps out1)"


section \<open>The call to the model service\<close>

definition text_lines :: "jsstring list \<Rightarrow> jsstring" where
  "text_lines ls = concat (map (\<lambda>l. l @ [10]) ls)"

definition quoted :: "string \<Rightarrow> jsstring" where
  "quoted s = 34 # lit s @ [34]"

definition systemPrompt :: jsstring where
  "systemPrompt =
     10 # text_lines
       [lit ''You are ASA HARMONIZER ENGINE.'',
        lit ''Unify, refactor, improve consistency without breaking code intent.'',
        lit ''Return JSON strictly like:'',
        [],
        lit ''{'',
        lit ''  '' @ quoted ''summary'' @ lit '': '' @ quoted ''short summary'' @ lit '','',
        lit ''  '' @ quoted ''files'' @ lit '': ['',
        lit ''    { '' @ quoted ''path'' @ lit '': '' @ quoted ''...'' @ lit '', ''
          @ quoted ''content'' @ lit '': '' @ quoted ''...'' @ lit '', ''
          @ quoted ''rationale'' @ lit '': '' @ quoted ''...'' @ lit '' }'',
        lit ''  ]'',
        lit ''}'']"

definition listText :: "collected_file list \<Rightarrow> jsstring" where
  "listText files =
     join [10, 10]
       (map (\<lambda>f. lit ''--- FILE: '' @ to_string (file_path f) @ [10] @ file_content f) files)"

definition userPrompt :: "jsval \<Rightarrow> jsval \<Rightarrow> jsval \<Rightarrow> jsval \<Rightarrow> collected_file list \<Rightarrow> jsstring" where
  "userPrompt owner repo baseBranch note files =
     10 # text_lines
       [lit ''Repo: '' @ to_string owner @ lit ''/'' @ to_string repo,
        lit ''Branch: '' @ to_string baseBranch,
        lit ''Mission: '' @ to_string note,
        [],
        lit ''Files:'',
        listText files]"

definition chat_body :: "jsval \<Rightarrow> jsval \<Rightarrow> jsval \<Rightarrow> jsval \<Rightarrow> collected_file list \<Rightarrow> json" where
  "chat_body owner repo baseBranch note files =
     mk_obj
       [(''model'', Some (JStr (lit ''gpt-4.1-mini''))),
        (''response_format'', Some (mk_obj [(''type'', Some (JStr (lit ''json_object'')))])),
        (''messages'', Some (JArr
           [mk_obj [(''role'', Some (JStr (lit ''system''))),
                    (''content'', Some (JStr systemPrompt))],
            mk_obj [(''role'', Some (JStr (lit ''user''))),
                    (''content'', Some (JStr (userPrompt owner repo baseBranch note files)))]]))]"

definition callOpenAIHarmonizer ::
  "'w remote \<Rightarrow> platform \<Rightarrow> jsval \<Rightarrow> jsval \<Rightarrow> jsval \<Rightarrow> jsval \<Rightarrow> jsval \<Rightarrow>
   collected_file list \<Rightarrow> ('w, json) io" where
  "callOpenAIHarmonizer R P apiKey owner repo baseBranch note files =
     bind (perform R (Call POST Chat_completions (to_string apiKey)
             (Some (chat_body owner repo baseBranch note files)))) (\<lambda>res.
       case res of
         Net_failure msg \<Rightarrow> throw (Network_error msg)
       | Http_error st t \<Rightarrow> throw (OpenAI_Error st t)
       | Http_ok None \<Rightarrow> throw SyntaxError
       | Http_ok (Some j) \<Rightarrow>
           bind (lift (get_prop (Some j) (lit ''choices''))) (\<lambda>choices.
           bind (lift (index0 choices)) (\<lambda>choice.
           bind (lift (get_prop choice (lit ''message''))) (\<lambda>message.
           bind (lift (get_prop message (lit ''content''))) (\<lambda>content.
             case JSON_parse P (to_string content) of
               None \<Rightarrow> throw SyntaxError
             | Some v \<Rightarrow> ret v)))))"

section \<open>Applying the changes\<close>

text \<open>
  The probe for an existing file: any failure inside the \<open>try\<close> block leaves
  \<open>existingSha\<close> at \<open>null\<close>.
\<close>

definition probe :: "'w remote \<Rightarrow> jsval \<Rightarrow> endpoint \<Rightarrow> ('w, jsval) io" where
  "probe R token url =
     (\<lambda>s. case ghGet R token url s of
             None \<Rightarrow> None
           | Some (Inl e, s') \<Rightarrow> Some (Inr (Some JNull), s')
           | Some (Inr existing, s') \<Rightarrow>
               (case get_prop (Some existing) (lit ''sha'') of
                  Inl e \<Rightarrow> Some (Inr (Some JNull), s')
                | Inr sha \<Rightarrow> Some (Inr sha, s')))"

definition write_payload :: "jsval \<Rightarrow> jsstring \<Rightarrow> jsstring \<Rightarrow> jsval \<Rightarrow> json" where
  "write_payload path encoded newBranch existingSha =
     mk_obj
       ([(''message'', Some (JStr (lit ''ASA Harmonizer Update: '' @ to_string path))),
         (''content'', Some (JStr encoded)),
         (''branch'', Some (JStr newBranch))]
        @ (if truthy existingSha then [(''sha'', existingSha)] else []))"

definition update_result :: "jsval \<Rightarrow> jsval \<Rightarrow> jsval \<Rightarrow> json" where
  "update_result path existingSha commit_sha =
     mk_obj
       [(''path'', path),
        (''status'', Some (JStr (if truthy existingSha then lit ''updated'' else lit ''created''))),
        (''commit'', js_or commit_sha (Some JNull))]"

definition commit_file ::
  "'w remote \<Rightarrow> jsval \<Rightarrow> jsval \<Rightarrow> jsval \<Rightarrow> jsstring \<Rightarrow> json \<Rightarrow> ('w, json) io" where
  "commit_file R token owner repo newBranch file =
     bind (lift (get_prop (Some file) (lit ''content''))) (\<lambda>content.
     bind (lift (base64encode (to_string content))) (\<lambda>encoded.
     bind (lift (get_prop (Some file) (lit ''path''))) (\<lambda>path.
     bind (lift (encodeURIComponent (to_string path))) (\<lambda>p.
     bind (probe R token
             (Contents (to_string owner) (to_string repo) p (Some newBranch))) (\<lambda>existingSha.
     bind (ghPut R token (Contents (to_string owner) (to_string repo) p None)
             (write_payload path encoded newBranch existingSha)) (\<lambda>res.
     bind (lift (get_prop (Some res) (lit ''commit''))) (\<lambda>commit.
     bind (lift (optional_prop commit (lit ''sha''))) (\<lambda>commit_sha.
       ret (update_result path existingSha commit_sha)))))))))"

fun commit_files ::
  "'w remote \<Rightarrow> jsval \<Rightarrow> jsval \<Rightarrow> jsval \<Rightarrow> jsstring \<Rightarrow> json list \<Rightarrow> json list \<Rightarrow>
   ('w, json list) io" where
  "commit_files R token owner repo newBranch [] updateResults = ret updateResults"
| "commit_files R token owner repo newBranch (file # files) updateResults =
     bind (commit_file R token owner repo newBranch file) (\<lambda>u.
       commit_files R token owner repo newBranch files (updateResults @ [u]))"

datatype response = Response nat json | Caught err

text \<open>
  \<open>Caught e\<close> is the reply of the handler's \<open>catch\<close> clause: status 500 and the body
  \<open>{ ok: false, error: <the message of e> }\<close>.
\<close>

definition apply_changes ::
  "'w remote \<Rightarrow> nat \<Rightarrow> jsval \<Rightarrow> jsval \<Rightarrow> jsval \<Rightarrow> jsval \<Rightarrow> jsval \<Rightarrow> json \<Rightarrow>
   ('w, response) io" where
  "apply_changes R now token owner repo baseBranch note harmonizerResult =
     bind (ghGet R token
             (Git_ref (to_string owner) (to_string repo) (to_string baseBranch))) (\<lambda>baseRef.
     bind (lift (get_prop (Some baseRef) (lit ''object''))) (\<lambda>object.
     bind (lift (get_prop object (lit ''sha''))) (\<lambda>baseSha.
     let newBranch = lit ''asa-harmonizer-'' @ show_nat now in
     bind (ghPost R token (Git_refs (to_string owner) (to_string repo))
             (mk_obj [(''ref'', Some (JStr (lit ''refs/heads/'' @ newBranch))),
                      (''sha'', baseSha)])) (\<lambda>created.
     bind (lift (get_prop (Some harmonizerResult) (lit ''files''))) (\<lambda>files.
     bind (lift (iterate files)) (\<lambda>fs.
     bind (commit_files R token owner repo newBranch fs []) (\<lambda>updateResults.
     bind (lift (get_prop (Some harmonizerResult) (lit ''summary''))) (\<lambda>summary.
     bind (ghPost R token (Pulls (to_string owner) (to_string repo))
             (mk_obj [(''title'', Some (JStr (lit ''ASA Harmonizer Automatic PR''))),
                      (''head'', Some (JStr newBranch)),
                      (''base'', baseBranch),
                      (''body'', js_or summary note)])) (\<lambda>pr.
     bind (lift (get_prop (Some pr) (lit ''html_url''))) (\<lambda>html_url.
     bind (lift (get_prop (Some pr) (lit ''number''))) (\<lambda>number.
       ret (Response 200
         (mk_obj [(''ok'', Some (JBool True)),
                  (''mode'', Some (JStr (lit ''apply''))),
                  (''branch'', Some (JStr newBranch)),
                  (''prUrl'', html_url),
                  (''prNumber'', number),
                  (''changedFiles'', Some (JArr updateResults))])))))))))))))"

section \<open>The handler\<close>

record env =
  GITHUB_TOKEN :: jsval
  OPENAI_API_KEY :: jsval
  GITHUB_OWNER :: jsval
  GITHUB_REPO :: jsval
  BASE_BRANCH :: jsval

record request =
  pathname :: jsstring
  verb :: jsstring
  body_json :: "json option"

record params =
  p_paths :: jsval
  p_apply :: jsval
  p_owner :: jsval
  p_repo :: jsval
  p_baseBranch :: jsval
  p_note :: jsval

text \<open>A destructured property with its default, which stands in for \<open>undefined\<close> only.\<close>

definition destructure :: "json \<Rightarrow> string \<Rightarrow> jsval \<Rightarrow> err + jsval" where
  "destructure body k dflt =
     (case get_prop (Some body) (lit k) of
        Inl e \<Rightarrow> Inl e
      | Inr None \<Rightarrow> Inr dflt
      | Inr (Some v) \<Rightarrow> Inr (Some v))"

definition ebind :: "err + 'a \<Rightarrow> ('a \<Rightarrow> err + 'b) \<Rightarrow> err + 'b" where
  "ebind v f = (case v of Inl e \<Rightarrow> Inl e | Inr x \<Rightarrow> f x)"

definition read_body :: "env \<Rightarrow> json \<Rightarrow> err + params" where
  "read_body env body =
     ebind (destructure body ''paths'' (Some (JArr []))) (\<lambda>paths.
     ebind (destructure body ''apply'' (Some (JBool False))) (\<lambda>apply.
     ebind (destructure body ''owner'' (GITHUB_OWNER env)) (\<lambda>owner.
     ebind (destructure body ''repo'' (GITHUB_REPO env)) (\<lambda>repo.
     ebind (destructure body ''baseBranch''
              (js_or (BASE_BRANCH env) (Some (JStr (lit ''main''))))) (\<lambda>baseBranch.
     ebind (destructure body ''note''
              (Some (JStr (lit ''ASA MATRIX harmonizer run'')))) (\<lambda>note.
       Inr \<lparr>p_paths = paths, p_apply = apply, p_owner = owner, p_repo = repo,
            p_baseBranch = baseBranch, p_note = note\<rparr>))))))"

definition validate :: "env \<Rightarrow> params \<Rightarrow> err + unit" where
  "validate env prm =
     (if \<not> truthy (GITHUB_TOKEN env) then Inl Missing_GITHUB_TOKEN
      else if \<not> truthy (OPENAI_API_KEY env) then Inl Missing_OPENAI_API_KEY
      else if \<not> truthy (p_owner prm) \<or> \<not> truthy (p_repo prm) then Inl Missing_repo_owner_name
      else ebind (get_prop (p_paths prm) (lit ''length'')) (\<lambda>len.
             if \<not> truthy len then Inl No_paths_provided else Inr ()))"

definition collect ::
  "'w remote \<Rightarrow> platform \<Rightarrow> nat \<Rightarrow> env \<Rightarrow> params \<Rightarrow> ('w, collected_file list) io" where
  "collect R P fuel env prm =
     bind (lift (iterate (p_paths prm))) (\<lambda>ps.
       crawl_paths R P fuel (p_owner prm) (p_repo prm) (p_baseBranch prm) (GITHUB_TOKEN env) ps [])"

definition no_files_response :: "jsval \<Rightarrow> response" where
  "no_files_response paths =
     Response 400
       (mk_obj [(''ok'', Some (JBool False)),
                (''error'', Some (JStr (lit ''No files found in provided paths''))),
                (''paths'', paths)])"

definition no_rewrite_response :: response where
  "no_rewrite_response =
     Response 500
       (mk_obj [(''ok'', Some (JBool False)),
                (''error'', Some (JStr (lit ''Harmonizer returned no files'')))])"

definition preview_response :: "jsval \<Rightarrow> jsval \<Rightarrow> response" where
  "preview_response summary files =
     Response 200
       (mk_obj [(''ok'', Some (JBool True)),
                (''mode'', Some (JStr (lit ''preview''))),
                (''summary'', js_or summary (Some JNull)),
                (''files'', files)])"

text \<open>The body of the handler's \<open>try\<close> block, after the request body was read.\<close>

definition harmonize ::
  "'w remote \<Rightarrow> platform \<Rightarrow> nat \<Rightarrow> nat \<Rightarrow> env \<Rightarrow> json \<Rightarrow> ('w, response) io" where
  "harmonize R P fuel now env body =
     bind (lift (read_body env body)) (\<lambda>prm.
     bind (lift (validate env prm)) (\<lambda>_.
     bind (collect R P fuel env prm) (\<lambda>collected.
       if collected = [] then ret (no_files_response (p_paths prm))
       else
         bind (callOpenAIHarmonizer R P (OPENAI_API_KEY env) (p_owner prm) (p_repo prm)
                 (p_baseBranch prm) (p_note prm) (take 12 collected)) (\<lambda>harmonizerResult.
         bind (lift (get_prop (Some harmonizerResult) (lit ''files''))) (\<lambda>files.
         bind (lift (optional_prop files (lit ''length''))) (\<lambda>len.
           if \<not> truthy len then ret no_rewrite_response
           else if \<not> truthy (p_apply prm) then
             bind (lift (get_prop (Some harmonizerResult) (lit ''summary''))) (\<lambda>summary.
               ret (preview_response summary files))
           else
             apply_changes R now (GITHUB_TOKEN env) (p_owner prm) (p_repo prm)
               (p_baseBranch prm) (p_note prm) harmonizerResult))))))"

definition fetch ::
  "'w remote \<Rightarrow> platform \<Rightarrow> nat \<Rightarrow> nat \<Rightarrow> env \<Rightarrow> request \<Rightarrow> 'w net \<Rightarrow>
   (response \<times> 'w net) option" where
  "fetch R P fuel now env req s =
     (if pathname req = lit ''/health'' then
        Some (Response 200
                (mk_obj [(''ok'', Some (JBool True)),
                         (''worker'', Some (JStr (lit ''asa-directory-editor''))),
                         (''status'', Some (JStr (lit ''online'')))]), s)
      else if pathname req \<noteq> lit ''/harmonize'' then
        Some (Response 404
                (mk_obj [(''ok'', Some (JBool False)),
                         (''error'', Some (JStr (lit ''Unknown endpoint'')))]), s)
      else if verb req \<noteq> lit ''POST'' then
        Some (Response 405
                (mk_obj [(''ok'', Some (JBool False)),
                         (''error'', Some (JStr (lit ''Only POST allowed'')))]), s)
      else
        (case (case body_json req of
                 None \<Rightarrow> throw SyntaxError s
               | Some body \<Rightarrow> harmonize R P fuel now env body s) of
           None \<Rightarrow> None
         | Some (Inl e, s') \<Rightarrow> Some (Caught e, s')
         | Some (Inr resp, s') \<Rightarrow> Some (resp, s')))"

section \<open>The second worker: a touchpoint pull request\<close>

text \<open>
  \<open>worker.js\<close> serves \<open>/api/harmonize\<close>: it looks up the base reference, creates a
  branch, writes one touchpoint file with the meta information of the run and opens a
  pull request. It calls \<open>fetch\<close> itself and, after each call, answers with status 500
  and the name of the step when the status of the reply is not a success. The two
  readings of the clock and the time stamp of \<open>toISOString\<close> are parameters.
\<close>

definition toBase64 :: "jsstring \<Rightarrow> err + jsstring" where
  "toBase64 str =
     (case encodeURIComponent str of
        Inl e \<Rightarrow> Inl e
      | Inr enc \<Rightarrow> btoa (unescape enc))"

definition missing_env_response :: response where
  "missing_env_response =
     Response 500
       (mk_obj [(''ok'', Some (JBool False)),
                (''error'', Some (JStr (lit
                   ''Missing GITHUB_OWNER / GITHUB_REPO / GITHUB_TOKEN env vars in Cloudflare Worker.'')))])"

definition step_failed :: "string \<Rightarrow> nat \<Rightarrow> jsstring \<Rightarrow> response" where
  "step_failed step st txt =
     Response 500
       (mk_obj [(''ok'', Some (JBool False)),
                (''step'', Some (JStr (lit step))),
                (''status'', Some (JNum (int st))),
                (''body'', Some (JStr txt))])"

text \<open>
  The lines of the target paths:
  \<open>paths.length ? paths.map((p) => `- \`${p}\``) : ["- (none)"]\<close>. Of the values with
  a truthy \<open>length\<close> only an array has a \<open>map\<close> to call.
\<close>

definition target_lines :: "jsval \<Rightarrow> err + jsstring list" where
  "target_lines paths =
     ebind (get_prop paths (lit ''length'')) (\<lambda>len.
       if truthy len then
         (case paths of
            Some (JArr ps) \<Rightarrow> Inr (map (\<lambda>p. lit ''- '' @ [96] @ to_string (Some p) @ [96]) ps)
          | _ \<Rightarrow> Inl TypeError)
       else Inr [lit ''- (none)''])"

definition markdownContent :: "jsstring \<Rightarrow> jsval \<Rightarrow> jsstring list \<Rightarrow> jsval \<Rightarrow> jsstring" where
  "markdownContent isoTime caller targets description =
     join [10]
       ([lit ''# ASA CODE-HARMONIZER'',
         [],
         lit ''Created at: '' @ isoTime,
         lit ''Caller: '' @ to_string caller,
         [],
         lit ''## Target paths'',
         []]
        @ targets
        @ [[],
           lit ''## Notes'',
           [],
           to_string description])"

text \<open>The body of the \<open>try\<close> block of \<open>/api/harmonize\<close>, after the request body was read.\<close>

definition api_harmonize ::
  "'w remote \<Rightarrow> nat \<Rightarrow> nat \<Rightarrow> jsstring \<Rightarrow> env \<Rightarrow> json \<Rightarrow> ('w, response) io" where
  "api_harmonize R now1 now2 isoTime env body =
     bind (lift (get_prop (Some body) (lit ''title''))) (\<lambda>body_title.
     bind (lift (get_prop (Some body) (lit ''description''))) (\<lambda>body_description.
     bind (lift (get_prop (Some body) (lit ''paths''))) (\<lambda>body_paths.
     bind (lift (get_prop (Some body) (lit ''caller''))) (\<lambda>body_caller.
     let title = js_or body_title
           (Some (JStr (lit ''ASA CODE-HARMONIZER '' @ [8211] @ lit '' automatic harmonization'')));
         description = js_or body_description
           (Some (JStr (lit ''PR created by ASA CODE-HARMONIZER worker (B layout).'')));
         paths = js_or body_paths (Some (JArr []));
         caller = js_or body_caller (Some (JStr (lit ''ASA_MATRIX_UI'')));
         owner = GITHUB_OWNER env;
         repo = GITHUB_REPO env;
         baseBranch = js_or (BASE_BRANCH env) (Some (JStr (lit ''main'')));
         token = GITHUB_TOKEN env
     in
     if \<not> truthy owner \<or> \<not> truthy repo \<or> \<not> truthy token then ret missing_env_response
     else
       bind (perform R (Call GET
               (Git_ref (to_string owner) (to_string repo) (to_string baseBranch))
               (to_string token) None)) (\<lambda>baseRefResp.
       case baseRefResp of
         Net_failure msg \<Rightarrow> throw (Network_error msg)
       | Http_error st txt \<Rightarrow> ret (step_failed ''get_base_ref'' st txt)
       | Http_ok None \<Rightarrow> throw SyntaxError
       | Http_ok (Some baseRef) \<Rightarrow>
           bind (lift (get_prop (Some baseRef) (lit ''object''))) (\<lambda>object.
           bind (lift (get_prop object (lit ''sha''))) (\<lambda>baseSha.
           let branchName = lit ''asa-harmonizer-'' @ show_nat now1 in
           bind (perform R (Call POST (Git_refs (to_string owner) (to_string repo))
                   (to_string token)
                   (Some (mk_obj [(''ref'', Some (JStr (lit ''refs/heads/'' @ branchName))),
                                  (''sha'', baseSha)])))) (\<lambda>createRefResp.
           case createRefResp of
             Net_failure msg \<Rightarrow> throw (Network_error msg)
           | Http_error st txt \<Rightarrow> ret (step_failed ''create_ref'' st txt)
           | Http_ok created \<Rightarrow>
               let filePath = lit ''asa_harmonizer/ASA_HARMONIZER_'' @ show_nat now2 @ lit ''.md'' in
               bind (lift (target_lines paths)) (\<lambda>targets.
               bind (lift (toBase64 (markdownContent isoTime caller targets description)))
                 (\<lambda>contentBase64.
               bind (lift (encodeURIComponent filePath)) (\<lambda>p.
               bind (perform R (Call PUT (Contents (to_string owner) (to_string repo) p None)
                       (to_string token)
                       (Some (mk_obj
                          [(''message'', Some (JStr
                              (lit ''ASA CODE-HARMONIZER touchpoint for '' @ branchName))),
                           (''content'', Some (JStr contentBase64)),
                           (''branch'', Some (JStr branchName))])))) (\<lambda>putFileResp.
               case putFileResp of
                 Net_failure msg \<Rightarrow> throw (Network_error msg)
               | Http_error st txt \<Rightarrow> ret (step_failed ''create_file'' st txt)
               | Http_ok written \<Rightarrow>
                   bind (perform R (Call POST (Pulls (to_string owner) (to_string repo))
                           (to_string token)
                           (Some (mk_obj
                              [(''title'', title),
                               (''head'', Some (JStr branchName)),
                               (''base'', baseBranch),
                               (''body'', Some (JStr (to_string description @ [10, 10]
                                  @ lit ''> Automatically generated by ASA CODE-HARMONIZER Worker.''
                                  @ [10])))])))) (\<lambda>prResp.
                   case prResp of
                     Net_failure msg \<Rightarrow> throw (Network_error msg)
                   | Http_error st txt \<Rightarrow> ret (step_failed ''create_pr'' st txt)
                   | Http_ok None \<Rightarrow> throw SyntaxError
                   | Http_ok (Some prJson) \<Rightarrow>
                       bind (lift (get_prop (Some prJson) (lit ''html_url''))) (\<lambda>pr_url.
                       bind (lift (get_prop (Some prJson) (lit ''number''))) (\<lambda>pr_number.
                         ret (Response 200
                           (mk_obj [(''ok'', Some (JBool True)),
                                    (''branch'', Some (JStr branchName)),
                                    (''filePath'', Some (JStr filePath)),
                                    (''pr_url'', pr_url),
                                    (''pr_number'', pr_number)])))))))))))))))))"

text \<open>
  The handler of \<open>worker.js\<close>. A request body that is not JSON reads as the empty
  object. \<open>Ui_page\<close> is the fixed document of \<open>renderUiHtml\<close> with status 200, and
  \<open>Not_found\<close> the text \<open>Not found\<close> with status 404.
\<close>

datatype page = Json response | Ui_page | Not_found

definition worker_fetch ::
  "'w remote \<Rightarrow> nat \<Rightarrow> nat \<Rightarrow> jsstring \<Rightarrow> env \<Rightarrow> request \<Rightarrow> 'w net \<Rightarrow> (page \<times> 'w net) option" where
  "worker_fetch R now1 now2 isoTime env req s =
     (if pathname req = lit ''/health'' then
        Some (Json (Response 200
                (mk_obj [(''ok'', Some (JBool True)),
                         (''service'', Some (JStr (lit ''ASA_CODE_HARMONIZER'')))])), s)
      else if pathname req = lit ''/api/harmonize'' \<and> verb req = lit ''POST'' then
        (case api_harmonize R now1 now2 isoTime env
                (case body_json req of None \<Rightarrow> JObj [] | Some body \<Rightarrow> body) s of
           None \<Rightarrow> None
         | Some (Inl e, s') \<Rightarrow> Some (Json (Caught e), s')
         | Some (Inr resp, s') \<Rightarrow> Some (Json resp, s'))
      else if pathname req = lit ''/'' \<and> verb req = lit ''GET'' then Some (Ui_page, s)
      else Some (Not_found, s))"

section \<open>Properties of the calls a run issues\<close>

text \<open>
  \<open>issues Q m\<close>: whenever the computation \<open>m\<close> returns, the log has grown by
  entries that all satisfy \<open>Q\<close>.
\<close>

definition issues :: "(call \<times> reply \<Rightarrow> bool) \<Rightarrow> ('w, 'a) io \<Rightarrow> bool" where
  "issues Q m = (\<forall>s r s'. m s = Some (r, s') \<longrightarrow> (\<exists>tr. snd s' = snd s @ tr \<and> list_all Q tr))"

definition contents_read :: "call \<times> reply \<Rightarrow> bool" where
  "contents_read x =
     (call_method (fst x) = GET \<and>
      (case target (fst x) of Contents ow rp p rf \<Rightarrow> True | _ \<Rightarrow> False))"

definition model_request :: "call \<times> reply \<Rightarrow> bool" where
  "model_request x = (call_method (fst x) = POST \<and> target (fst x) = Chat_completions)"

text \<open>
  A mutating call: any call to the source-control service other than a GET (the
  creation of a branch reference, the write of a file, the opening of a pull request).
\<close>

definition mutating :: "call \<Rightarrow> bool" where
  "mutating c = (call_method c \<noteq> GET \<and> target c \<noteq> Chat_completions)"

section \<open>The octets between the codecs\<close>

text \<open>
  The UTF-8 octets of a string, code point by code point: what \<open>encodeURIComponent\<close>
  followed by \<open>unescape\<close> yields. The sextets and the padding of the base64 text of a
  list of octets.
\<close>

fun utf8_string :: "jsstring \<Rightarrow> nat list" where
  "utf8_string [] = []"
| "utf8_string (c # cs) =
     (if is_lead c then
        (case cs of [] \<Rightarrow> [] | d # ds \<Rightarrow> utf8_octets (pair_code_point c d) @ utf8_string ds)
      else utf8_octets c @ utf8_string cs)"

fun sextets :: "nat list \<Rightarrow> nat list" where
  "sextets (a # b # c # rest) =
     [a div 4, (a mod 4) * 16 + b div 16, (b mod 16) * 4 + c div 64, c mod 64] @ sextets rest"
| "sextets [a, b] = [a div 4, (a mod 4) * 16 + b div 16, (b mod 16) * 4]"
| "sextets [a] = [a div 4, (a mod 4) * 16]"
| "sextets [] = []"

fun padding :: "nat list \<Rightarrow> jsstring" where
  "padding (a # b # c # rest) = padding rest"
| "padding [a, b] = [61]"
| "padding [a] = [61, 61]"
| "padding [] = []"

text \<open>A well-formed string: every surrogate stands in a pair, a lead before its trail.\<close>

fun well_formed :: "jsstring \<Rightarrow> bool" where
  "well_formed [] = True"
| "well_formed (c # cs) =
     (if is_lead c then (case cs of [] \<Rightarrow> False | d # ds \<Rightarrow> is_trail d \<and> well_formed ds)
      else \<not> is_trail c \<and> well_formed cs)"

section \<open>The order of the calls of an apply run\<close>

text \<open>
  The kinds of call of an apply run, and the order the specification asks for, as a
  check that reads the log from left to right: the lookup of the base reference comes
  first; the branch is created only after a lookup whose status was a success; probes
  and writes come only after the branch was created, a write only if every earlier
  write succeeded; the pull request is opened only then, and nothing follows it.
  \<open>steps st m st'\<close>: the log of a run of \<open>m\<close> is in order from stage \<open>st\<close>, and
  leaves the stage \<open>st'\<close> when it returns a value (nothing may follow when it raises).
  \<open>before A B tr\<close>: every call of kind A in the log stands before every call of
  kind B.
\<close>

datatype stage = Start | Looked_up | Branched | Opened

definition succeeded :: "reply \<Rightarrow> bool" where
  "succeeded r = (case r of Http_ok j \<Rightarrow> True | _ \<Rightarrow> False)"

definition is_lookup :: "call \<Rightarrow> bool" where
  "is_lookup c = (call_method c = GET \<and> (case target c of Git_ref ow rp b \<Rightarrow> True | _ \<Rightarrow> False))"

definition is_branch_create :: "call \<Rightarrow> bool" where
  "is_branch_create c =
     (call_method c = POST \<and> (case target c of Git_refs ow rp \<Rightarrow> True | _ \<Rightarrow> False))"

definition is_probe :: "call \<Rightarrow> bool" where
  "is_probe c =
     (call_method c = GET \<and> (case target c of Contents ow rp p rf \<Rightarrow> True | _ \<Rightarrow> False))"

definition is_file_write :: "call \<Rightarrow> bool" where
  "is_file_write c =
     (call_method c = PUT \<and> (case target c of Contents ow rp p rf \<Rightarrow> True | _ \<Rightarrow> False))"

definition is_pr_create :: "call \<Rightarrow> bool" where
  "is_pr_create c =
     (call_method c = POST \<and> (case target c of Pulls ow rp \<Rightarrow> True | _ \<Rightarrow> False))"

fun in_order :: "stage \<Rightarrow> (call \<times> reply) list \<Rightarrow> bool" where
  "in_order st [] = True"
| "in_order st ((c, r) # rest) =
     (if is_lookup c then
        st = Start \<and> (if succeeded r then in_order Looked_up rest else rest = [])
      else if is_branch_create c then
        st = Looked_up \<and> (if succeeded r then in_order Branched rest else rest = [])
      else if is_probe c then st = Branched \<and> in_order Branched rest
      else if is_file_write c then
        st = Branched \<and> (if succeeded r then in_order Branched rest else rest = [])
      else if is_pr_create c then
        st = Branched \<and> (if succeeded r then in_order Opened rest else rest = [])
      else False)"

definition before :: "(call \<Rightarrow> bool) \<Rightarrow> (call \<Rightarrow> bool) \<Rightarrow> (call \<times> reply) list \<Rightarrow> bool" where
  "before A B tr =
     (\<forall>i j. i < length tr \<and> j < length tr \<and> A (fst (tr ! i)) \<and> B (fst (tr ! j)) \<longrightarrow> i < j)"

definition steps :: "stage \<Rightarrow> ('w, 'a) io \<Rightarrow> stage \<Rightarrow> bool" where
  "steps st m st' =
     (\<forall>s res s'. m s = Some (res, s') \<longrightarrow>
        (\<exists>tr. snd s' = snd s @ tr \<and>
           (\<forall>rest. (case res of Inl e \<Rightarrow> rest = [] | Inr x \<Rightarrow> in_order st' rest) \<longrightarrow>
              in_order st (tr @ rest))))"

definition call_rank :: "call \<Rightarrow> nat" where
  "call_rank c =
     (if is_lookup c then 0 else if is_branch_create c then 1
      else if is_probe c \<or> is_file_write c then 2 else 3)"

fun stage_rank :: "stage \<Rightarrow> nat" where
  "stage_rank Start = 0"
| "stage_rank Looked_up = 1"
| "stage_rank Branched = 2"
| "stage_rank Opened = 3"

definition returns :: "('w, 'a) io \<Rightarrow> bool" where
  "returns m = (\<forall>s. m s \<noteq> None)"

definition yields_sha :: "reply \<Rightarrow> jsval \<Rightarrow> bool" where
  "yields_sha rp sha =
     (\<exists>existing. rp = Http_ok (Some existing) \<and>
        get_prop (Some existing) (lit ''sha'') = Inr sha \<and> truthy sha)"


text \<open>\<open>stops m\<close>: when \<open>m\<close> returns it has issued no call.\<close>

definition stops :: "('w, 'a) io \<Rightarrow> bool" where
  "stops m = (\<forall>s res s'. m s = Some (res, s') \<longrightarrow> s' = s)"


subsection \<open>The collected files against a fixed tree\<close>

text \<open>
  A remote side that answers a call by its content alone, the same way each time: a
  repository that does not change during the walk.
\<close>

definition static :: "(call \<Rightarrow> reply) \<Rightarrow> 'w remote" where
  "static F = (\<lambda>w c. (F c, w))"

text \<open>The reply of such a remote side to the read of a path, as both walkers issue it.\<close>

definition contents_reply ::
  "(call \<Rightarrow> reply) \<Rightarrow> jsval \<Rightarrow> jsval \<Rightarrow> jsval \<Rightarrow> jsval \<Rightarrow> jsval \<Rightarrow> reply option" where
  "contents_reply F owner repo branch token path =
     (case encodeURIComponent (to_string path) of
        Inl e \<Rightarrow> None
      | Inr p \<Rightarrow>
          Some (F (Call GET
            (Contents (to_string owner) (to_string repo) p (Some (to_string branch)))
            (to_string token) None)))"

text \<open>
  The files under a path: the path itself when it reads as an object of type
  \<open>file\<close>, the \<open>file\<close> entries of its listing, and the files under the \<open>dir\<close>
  entries of its listing. A file is named by the \<open>path\<close> property handed to
  \<open>pushFile\<close>.
\<close>

inductive files_under ::
  "(call \<Rightarrow> reply) \<Rightarrow> jsval \<Rightarrow> jsval \<Rightarrow> jsval \<Rightarrow> jsval \<Rightarrow> jsval \<Rightarrow> jsval \<Rightarrow> bool"
  for F owner repo branch token where
  single:
    "contents_reply F owner repo branch token path = Some (Http_ok (Some data)) \<Longrightarrow>
     get_prop (Some data) (lit ''type'') = Inr (Some (JStr (lit ''file''))) \<Longrightarrow>
     get_prop (Some data) (lit ''path'') = Inr q \<Longrightarrow>
     files_under F owner repo branch token path q"
| listed:
    "contents_reply F owner repo branch token path = Some (Http_ok (Some (JArr items))) \<Longrightarrow>
     item \<in> set items \<Longrightarrow>
     get_prop (Some item) (lit ''type'') = Inr (Some (JStr (lit ''file''))) \<Longrightarrow>
     get_prop (Some item) (lit ''path'') = Inr q \<Longrightarrow>
     files_under F owner repo branch token path q"
| nested:
    "contents_reply F owner repo branch token path = Some (Http_ok (Some (JArr items))) \<Longrightarrow>
     item \<in> set items \<Longrightarrow>
     get_prop (Some item) (lit ''type'') = Inr (Some (JStr (lit ''dir''))) \<Longrightarrow>
     get_prop (Some item) (lit ''path'') = Inr d \<Longrightarrow>
     files_under F owner repo branch token d q \<Longrightarrow>
     files_under F owner repo branch token path q"

definition items_under ::
  "(call \<Rightarrow> reply) \<Rightarrow> jsval \<Rightarrow> jsval \<Rightarrow> jsval \<Rightarrow> jsval \<Rightarrow> json list \<Rightarrow> jsval \<Rightarrow> bool" where
  "items_under F owner repo branch token items q =
     (\<exists>item \<in> set items.
        get_prop (Some item) (lit ''type'') = Inr (Some (JStr (lit ''file''))) \<and>
          get_prop (Some item) (lit ''path'') = Inr q \<or>
        get_prop (Some item) (lit ''type'') = Inr (Some (JStr (lit ''dir''))) \<and>
          (\<exists>d. get_prop (Some item) (lit ''path'') = Inr d \<and>
             files_under F owner repo branch token d q))"

text \<open>
  The checks of \<open>pushFile\<close> on the read of a file: it is oversize when the reported
  \<open>size\<close> is above 120000, and eligible when the read succeeds, the \<open>content\<close> is
  there and the \<open>size\<close> is not above 120000.
\<close>

definition oversize ::
  "(call \<Rightarrow> reply) \<Rightarrow> platform \<Rightarrow> jsval \<Rightarrow> jsval \<Rightarrow> jsval \<Rightarrow> jsval \<Rightarrow> jsval \<Rightarrow> bool" where
  "oversize F P owner repo branch token q =
     (\<exists>meta sz. contents_reply F owner repo branch token q = Some (Http_ok (Some meta)) \<and>
        get_prop (Some meta) (lit ''size'') = Inr sz \<and> js_gt P sz 120000)"

definition eligible ::
  "(call \<Rightarrow> reply) \<Rightarrow> platform \<Rightarrow> jsval \<Rightarrow> jsval \<Rightarrow> jsval \<Rightarrow> jsval \<Rightarrow> jsval \<Rightarrow> bool" where
  "eligible F P owner repo branch token q =
     (\<exists>meta content sz.
        contents_reply F owner repo branch token q = Some (Http_ok (Some meta)) \<and>
        get_prop (Some meta) (lit ''content'') = Inr content \<and> truthy content \<and>
        get_prop (Some meta) (lit ''size'') = Inr sz \<and> \<not> js_gt P sz 120000)"

text \<open>
  What a walk adds to the accumulator: files that are all under \<open>U\<close> and eligible,
  among them every eligible file under \<open>U\<close>.
\<close>

definition gathered ::
  "(jsval \<Rightarrow> bool) \<Rightarrow> (jsval \<Rightarrow> bool) \<Rightarrow> collected_file list \<Rightarrow> collected_file list \<Rightarrow> bool" where
  "gathered U E out out' =
     (\<exists>new. out' = out @ new \<and>
        (\<forall>f \<in> set new. U (file_path f) \<and> E (file_path f)) \<and>
        (\<forall>q. U q \<and> E q \<longrightarrow> q \<in> file_path ` set new))"

text \<open>
  A tree the walk gets through. \<open>readable\<close>: the read of a file is answered with a
  status, a success carries a JSON body that is not \<open>null\<close>, and a content that passes
  the two checks decodes. \<open>walkable n\<close>: the read of the path is answered likewise, no
  entry of a listing is \<open>null\<close>, every file entry is readable and every directory
  entry is walkable within \<open>n - 1\<close>; so the tree under the path is at most \<open>n\<close> deep.
\<close>

definition readable ::
  "(call \<Rightarrow> reply) \<Rightarrow> platform \<Rightarrow> jsval \<Rightarrow> jsval \<Rightarrow> jsval \<Rightarrow> jsval \<Rightarrow> jsval \<Rightarrow> bool" where
  "readable F P owner repo branch token q =
     (case contents_reply F owner repo branch token q of
        Some (Http_error st t) \<Rightarrow> True
      | Some (Http_ok (Some meta)) \<Rightarrow>
          (case get_prop (Some meta) (lit ''content'') of
             Inl e \<Rightarrow> False
           | Inr content \<Rightarrow>
               truthy content \<longrightarrow>
                 (case get_prop (Some meta) (lit ''size'') of
                    Inl e \<Rightarrow> False
                  | Inr sz \<Rightarrow>
                      \<not> js_gt P sz 120000 \<longrightarrow>
                        (case base64decode (to_string content) of
                           Inl e \<Rightarrow> False
                         | Inr decoded \<Rightarrow> True)))
      | _ \<Rightarrow> False)"

fun walkable ::
  "(call \<Rightarrow> reply) \<Rightarrow> platform \<Rightarrow> nat \<Rightarrow> jsval \<Rightarrow> jsval \<Rightarrow> jsval \<Rightarrow> jsval \<Rightarrow> jsval \<Rightarrow> bool"
and walkable_items ::
  "(call \<Rightarrow> reply) \<Rightarrow> platform \<Rightarrow> nat \<Rightarrow> jsval \<Rightarrow> jsval \<Rightarrow> jsval \<Rightarrow> jsval \<Rightarrow> json list \<Rightarrow> bool"
where
  "walkable F P 0 owner repo branch token path = False"
| "walkable F P (Suc n) owner repo branch token path =
     (case contents_reply F owner repo branch token path of
        Some (Http_error st t) \<Rightarrow> True
      | Some (Http_ok (Some data)) \<Rightarrow>
          (case data of
             JArr items \<Rightarrow> walkable_items F P n owner repo branch token items
           | _ \<Rightarrow>
               (case get_prop (Some data) (lit ''type'') of
                  Inl e \<Rightarrow> False
                | Inr ty \<Rightarrow>
                    ty = Some (JStr (lit ''file'')) \<longrightarrow>
                      (case get_prop (Some data) (lit ''path'') of
                         Inl e \<Rightarrow> False
                       | Inr q \<Rightarrow> readable F P owner repo branch token q)))
      | _ \<Rightarrow> False)"
| "walkable_items F P n owner repo branch token [] = True"
| "walkable_items F P n owner repo branch token (item # items) =
     (case get_prop (Some item) (lit ''type'') of
        Inl e \<Rightarrow> False
      | Inr ty \<Rightarrow>
          if ty = Some (JStr (lit ''dir'')) then
            (case get_prop (Some item) (lit ''path'') of
               Inl e \<Rightarrow> False
             | Inr d \<Rightarrow>
                 walkable F P n owner repo branch token d \<and>
                 walkable_items F P n owner repo branch token items)
          else if ty = Some (JStr (lit ''file'')) then
            (case get_prop (Some item) (lit ''path'') of
               Inl e \<Rightarrow> False
             | Inr q \<Rightarrow>
                 readable F P owner repo branch token q \<and>
                 walkable_items F P n owner repo branch token items)
          else walkable_items F P n owner repo branch token items)"


section \<open>A concrete scenario\<close>

text \<open>
  The end-to-end scenario of the specification: the repository \<open>acme/site\<close> holds
  \<open>src/a.txt\<close> with the content \<open>old\<close> (base64 \<open>b2xk\<close>); the model proposes the
  content \<open>new\<close> for it. The remote side answers every read of a content path with
  that file, and the model answers with the given string.
\<close>

definition demo_file :: json where
  "demo_file =
     mk_obj [(''type'', Some (JStr (lit ''file''))),
             (''path'', Some (JStr (lit ''src/a.txt''))),
             (''content'', Some (JStr (lit ''b2xk''))),
             (''size'', Some (JNum 3)),
             (''sha'', Some (JStr (lit ''blob1'')))]"

definition demo_chat_reply :: "jsstring \<Rightarrow> reply" where
  "demo_chat_reply reply =
     Http_ok (Some (mk_obj [(''choices'', Some (JArr [mk_obj [(''message'',
       Some (mk_obj [(''content'', Some (JStr reply))]))]]))]))"

definition demo_remote :: "jsstring \<Rightarrow> unit remote" where
  "demo_remote reply w c =
     (case target c of
        Contents ow rp p rf \<Rightarrow>
          (if call_method c = GET then Http_ok (Some demo_file)
           else Http_ok (Some (mk_obj
                  [(''commit'', Some (mk_obj [(''sha'', Some (JStr (lit ''c1'')))]))])))
      | Git_ref ow rp b \<Rightarrow>
          Http_ok (Some (mk_obj
            [(''object'', Some (mk_obj [(''sha'', Some (JStr (lit ''base1'')))]))]))
      | Git_refs ow rp \<Rightarrow> Http_ok (Some (mk_obj []))
      | Pulls ow rp \<Rightarrow>
          Http_ok (Some (mk_obj
            [(''html_url'', Some (JStr (lit ''https://example.org/pr/7''))),
             (''number'', Some (JNum 7))]))
      | Chat_completions \<Rightarrow> demo_chat_reply reply, w)"

text \<open>A remote side on which no path exists.\<close>

definition absent_remote :: "unit remote" where
  "absent_remote w c = (Http_error 404 (lit ''Not Found''), w)"

definition demo_rewrite :: json where
  "demo_rewrite =
     mk_obj [(''files'', Some (JArr
       [mk_obj [(''path'', Some (JStr (lit ''src/a.txt''))),
                (''content'', Some (JStr (lit ''new'')))]]))]"

text \<open>
  The replies of the model used below, as the JSON texts they are, and \<open>JSON.parse\<close> on
  them: \<open>{"files":[{"path":"src/a.txt","content":"new"}]}\<close>, \<open>{"files":[]}\<close>,
  \<open>{"files":"x"}\<close>, \<open>{"files":[{"path":"","content":"new"}]}\<close> and a reply in
  prose. The scenario's parser knows these texts only.
\<close>

definition reply_rewrite :: jsstring where
  "reply_rewrite =
     lit ''{'' @ quoted ''files'' @ lit '':[{'' @ quoted ''path'' @ lit '':'' @ quoted ''src/a.txt''
       @ lit '','' @ quoted ''content'' @ lit '':'' @ quoted ''new'' @ lit ''}]}''"

definition reply_empty :: jsstring where
  "reply_empty = lit ''{'' @ quoted ''files'' @ lit '':[]}''"

definition reply_misshapen :: jsstring where
  "reply_misshapen = lit ''{'' @ quoted ''files'' @ lit '':'' @ quoted ''x'' @ lit ''}''"

definition reply_pathless :: jsstring where
  "reply_pathless =
     lit ''{'' @ quoted ''files'' @ lit '':[{'' @ quoted ''path'' @ lit '':'' @ [34, 34]
       @ lit '','' @ quoted ''content'' @ lit '':'' @ quoted ''new'' @ lit ''}]}''"

definition reply_prose :: jsstring where
  "reply_prose = lit ''Here are the harmonized files.''"

definition pathless_file :: json where
  "pathless_file = mk_obj [(''path'', Some (JStr [])), (''content'', Some (JStr (lit ''new'')))]"

definition demo_platform :: platform where
  "demo_platform =
     \<lparr>JSON_parse = (\<lambda>s.
         if s = reply_rewrite then Some demo_rewrite
         else if s = reply_empty then Some (mk_obj [(''files'', Some (JArr []))])
         else if s = reply_misshapen then Some (mk_obj [(''files'', Some (JStr (lit ''x'')))])
         else if s = reply_pathless then Some (mk_obj [(''files'', Some (JArr [pathless_file]))])
         else None),
       StringToNumber = (\<lambda>s. None)\<rparr>"

definition demo_env :: env where
  "demo_env =
     \<lparr>GITHUB_TOKEN = Some (JStr (lit ''ghp'')), OPENAI_API_KEY = Some (JStr (lit ''sk'')),
      GITHUB_OWNER = Some (JStr (lit ''acme'')), GITHUB_REPO = Some (JStr (lit ''site'')),
      BASE_BRANCH = None\<rparr>"

definition demo_body :: "bool \<Rightarrow> json" where
  "demo_body ap =
     mk_obj [(''paths'', Some (JArr [JStr (lit ''src/a.txt'')])), (''apply'', Some (JBool ap))]"

definition demo_request :: "bool \<Rightarrow> request" where
  "demo_request ap =
     \<lparr>pathname = lit ''/harmonize'', verb = lit ''POST'', body_json = Some (demo_body ap)\<rparr>"

definition demo_params :: "bool \<Rightarrow> params" where
  "demo_params ap =
     \<lparr>p_paths = Some (JArr [JStr (lit ''src/a.txt'')]), p_apply = Some (JBool ap),
      p_owner = Some (JStr (lit ''acme'')), p_repo = Some (JStr (lit ''site'')),
      p_baseBranch = Some (JStr (lit ''main'')),
      p_note = Some (JStr (lit ''ASA MATRIX harmonizer run''))\<rparr>"

definition demo_listing :: "call \<times> reply" where
  "demo_listing =
     (Call GET (Contents (lit ''acme'') (lit ''site'') (lit ''src%2Fa.txt'') (Some (lit ''main'')))
        (lit ''ghp'') None, Http_ok (Some demo_file))"

definition demo_collected :: "collected_file list" where
  "demo_collected = [Collected_file (Some (JStr (lit ''src/a.txt''))) (lit ''old'')]"

definition demo_chat :: "jsstring \<Rightarrow> call \<times> reply" where
  "demo_chat reply =
     (Call POST Chat_completions (lit ''sk'')
        (Some (chat_body (Some (JStr (lit ''acme''))) (Some (JStr (lit ''site'')))
           (Some (JStr (lit ''main''))) (Some (JStr (lit ''ASA MATRIX harmonizer run'')))
           demo_collected)),
      demo_chat_reply reply)"

text \<open>The calls of an apply run of the scenario at clock reading 0, with their replies.\<close>

definition demo_branch :: jsstring where
  "demo_branch = lit ''asa-harmonizer-'' @ show_nat 0"

definition demo_lookup :: "call \<times> reply" where
  "demo_lookup =
     (Call GET (Git_ref (lit ''acme'') (lit ''site'') (lit ''main'')) (lit ''ghp'') None,
      Http_ok (Some (mk_obj
        [(''object'', Some (mk_obj [(''sha'', Some (JStr (lit ''base1'')))]))])))"

definition demo_create :: "call \<times> reply" where
  "demo_create =
     (Call POST (Git_refs (lit ''acme'') (lit ''site'')) (lit ''ghp'')
        (Some (mk_obj [(''ref'', Some (JStr (lit ''refs/heads/'' @ demo_branch))),
                       (''sha'', Some (JStr (lit ''base1'')))])),
      Http_ok (Some (mk_obj [])))"

definition demo_probe :: "jsstring \<Rightarrow> call \<times> reply" where
  "demo_probe p =
     (Call GET (Contents (lit ''acme'') (lit ''site'') p (Some demo_branch)) (lit ''ghp'') None,
      Http_ok (Some demo_file))"

definition demo_write :: "jsstring \<Rightarrow> jsval \<Rightarrow> jsstring \<Rightarrow> call \<times> reply" where
  "demo_write p path encoded =
     (Call PUT (Contents (lit ''acme'') (lit ''site'') p None) (lit ''ghp'')
        (Some (write_payload path encoded demo_branch (Some (JStr (lit ''blob1''))))),
      Http_ok (Some (mk_obj [(''commit'', Some (mk_obj [(''sha'', Some (JStr (lit ''c1'')))]))])))"

definition demo_pull :: "call \<times> reply" where
  "demo_pull =
     (Call POST (Pulls (lit ''acme'') (lit ''site'')) (lit ''ghp'')
        (Some (mk_obj [(''title'', Some (JStr (lit ''ASA Harmonizer Automatic PR''))),
                       (''head'', Some (JStr demo_branch)),
                       (''base'', Some (JStr (lit ''main''))),
                       (''body'', Some (JStr (lit ''ASA MATRIX harmonizer run'')))])),
      Http_ok (Some (mk_obj
        [(''html_url'', Some (JStr (lit ''https://example.org/pr/7''))),
         (''number'', Some (JNum 7))])))"

definition demo_applied :: "json list \<Rightarrow> response" where
  "demo_applied changed =
     Response 200
       (mk_obj [(''ok'', Some (JBool True)),
                (''mode'', Some (JStr (lit ''apply''))),
                (''branch'', Some (JStr demo_branch)),
                (''prUrl'', Some (JStr (lit ''https://example.org/pr/7''))),
                (''prNumber'', Some (JNum 7)),
                (''changedFiles'', Some (JArr changed))])"

definition big_file :: json where
  "big_file =
     mk_obj [(''type'', Some (JStr (lit ''file''))),
             (''path'', Some (JStr (lit ''big.txt''))),
             (''content'', Some (JStr (b64_encode (replicate 7001 97)))),
             (''size'', Some (JNum 7001))]"

definition big_remote :: "unit remote" where
  "big_remote w c = (Http_ok (Some big_file), w)"

definition fresh_remote :: "unit remote" where
  "fresh_remote w c =
     (if call_method c = GET then Http_error 404 (lit ''Not Found'')
      else Http_ok (Some (mk_obj
             [(''commit'', Some (mk_obj [(''sha'', Some (JStr (lit ''c2'')))]))])), w)"

definition demo_trace :: "(call \<times> reply) list" where
  "demo_trace =
     [demo_lookup, demo_create, demo_probe (lit ''src%2Fa.txt''),
      demo_write (lit ''src%2Fa.txt'') (Some (JStr (lit ''src/a.txt''))) (lit ''bmV3''), demo_pull]"

definition demo_change :: json where
  "demo_change =
     mk_obj [(''path'', Some (JStr (lit ''src/a.txt''))), (''content'', Some (JStr (lit ''new'')))]"


text \<open>
  A tree with an oversize file: the directory \<open>src\<close> lists \<open>src/a.txt\<close> (3 bytes) and
  \<open>src/big.bin\<close> (200000 bytes); every other path is missing.
\<close>

definition oversize_file :: json where
  "oversize_file =
     mk_obj [(''type'', Some (JStr (lit ''file''))),
             (''path'', Some (JStr (lit ''src/big.bin''))),
             (''content'', Some (JStr (lit ''b2xk''))),
             (''size'', Some (JNum 200000))]"

definition sized_listing :: json where
  "sized_listing =
     JArr [mk_obj [(''type'', Some (JStr (lit ''file''))), (''path'', Some (JStr (lit ''src/a.txt'')))],
           mk_obj [(''type'', Some (JStr (lit ''file''))), (''path'', Some (JStr (lit ''src/big.bin'')))]]"

definition sized_tree :: "call \<Rightarrow> reply" where
  "sized_tree c =
     (case target c of
        Contents ow rp p rf \<Rightarrow>
          if p = lit ''src'' then Http_ok (Some sized_listing)
          else if p = lit ''src%2Fa.txt'' then Http_ok (Some demo_file)
          else if p = lit ''src%2Fbig.bin'' then Http_ok (Some oversize_file)
          else Http_error 404 (lit ''Not Found'')
      | _ \<Rightarrow> Http_error 404 (lit ''Not Found''))"

definition sized_params :: params where
  "sized_params =
     \<lparr>p_paths = Some (JArr [JStr (lit ''src'')]), p_apply = Some (JBool False),
      p_owner = Some (JStr (lit ''acme'')), p_repo = Some (JStr (lit ''site'')),
      p_baseBranch = Some (JStr (lit ''main'')),
      p_note = Some (JStr (lit ''ASA MATRIX harmonizer run''))\<rparr>"

definition sized_read :: "jsstring \<Rightarrow> json \<Rightarrow> call \<times> reply" where
  "sized_read p j =
     (Call GET (Contents (lit ''acme'') (lit ''site'') p (Some (lit ''main''))) (lit ''ghp'') None,
      Http_ok (Some j))"

definition sized_trace :: "(call \<times> reply) list" where
  "sized_trace =
     [sized_read (lit ''src'') sized_listing, sized_read (lit ''src%2Fa.txt'') demo_file,
      sized_read (lit ''src%2Fbig.bin'') oversize_file]"

text \<open>
  A run of the second worker on the scenario's remote side, with an empty request body
  and both clock readings 0: the touchpoint file and the pull request it asks for.
\<close>

definition touch_stamp :: jsstring where
  "touch_stamp = lit ''2026-01-01T00:00:00.000Z''"

definition touch_file :: jsstring where
  "touch_file = lit ''asa_harmonizer/ASA_HARMONIZER_'' @ show_nat 0 @ lit ''.md''"

definition touch_markdown :: jsstring where
  "touch_markdown =
     lit ''# ASA CODE-HARMONIZER'' @ [10, 10] @ lit ''Created at: 2026-01-01T00:00:00.000Z'' @ [10]
     @ lit ''Caller: ASA_MATRIX_UI'' @ [10, 10] @ lit ''## Target paths'' @ [10, 10]
     @ lit ''- (none)'' @ [10, 10] @ lit ''## Notes'' @ [10, 10]
     @ lit ''PR created by ASA CODE-HARMONIZER worker (B layout).''"

definition touch_content :: jsstring where
  "touch_content =
     lit ''IyBBU0EgQ09ERS1IQVJNT05JWkVSCgpDcmVhdGVkIGF0OiAyMDI2LTAxLTAxVDAwOjAwOjAwLjAwMFoK''
     @ lit ''Q2FsbGVyOiBBU0FfTUFUUklYX1VJCgojIyBUYXJnZXQgcGF0aHMKCi0gKG5vbmUpCgojIyBOb3RlcwoK''
     @ lit ''UFIgY3JlYXRlZCBieSBBU0EgQ09ERS1IQVJNT05JWkVSIHdvcmtlciAoQiBsYXlvdXQpLg==''"

definition touch_write :: "call \<times> reply" where
  "touch_write =
     (Call PUT (Contents (lit ''acme'') (lit ''site'') (lit ''asa_harmonizer%2FASA_HARMONIZER_0.md'')
        None) (lit ''ghp'')
        (Some (mk_obj
           [(''message'', Some (JStr (lit ''ASA CODE-HARMONIZER touchpoint for '' @ demo_branch))),
            (''content'', Some (JStr touch_content)),
            (''branch'', Some (JStr demo_branch))])),
      Http_ok (Some (mk_obj [(''commit'', Some (mk_obj [(''sha'', Some (JStr (lit ''c1'')))]))])))"

definition touch_pull :: "call \<times> reply" where
  "touch_pull =
     (Call POST (Pulls (lit ''acme'') (lit ''site'')) (lit ''ghp'')
        (Some (mk_obj
           [(''title'', Some (JStr
               (lit ''ASA CODE-HARMONIZER '' @ [8211] @ lit '' automatic harmonization''))),
            (''head'', Some (JStr demo_branch)),
            (''base'', Some (JStr (lit ''main''))),
            (''body'', Some (JStr
               (lit ''PR created by ASA CODE-HARMONIZER worker (B layout).'' @ [10, 10]
                @ lit ''> Automatically generated by ASA CODE-HARMONIZER Worker.'' @ [10])))])),
      Http_ok (Some (mk_obj
        [(''html_url'', Some (JStr (lit ''https://example.org/pr/7''))),
         (''number'', Some (JNum 7))])))"

definition touch_trace :: "(call \<times> reply) list" where
  "touch_trace = [demo_lookup, demo_create, touch_write, touch_pull]"

definition touch_response :: response where
  "touch_response =
     Response 200
       (mk_obj [(''ok'', Some (JBool True)),
                (''branch'', Some (JStr demo_branch)),
                (''filePath'', Some (JStr touch_file)),
                (''pr_url'', Some (JStr (lit ''https://example.org/pr/7''))),
                (''pr_number'', Some (JNum 7))])"

text \<open>
  A tree with a file that does not decode: \<open>src\<close> lists \<open>src/a.txt\<close> and
  \<open>src/bad.bin\<close>, one byte \<open>0xFF\<close> (base64 \<open>/w==\<close>), which is not UTF-8.
\<close>

definition undecodable_file :: json where
  "undecodable_file =
     mk_obj [(''type'', Some (JStr (lit ''file''))),
             (''path'', Some (JStr (lit ''src/bad.bin''))),
             (''content'', Some (JStr (lit ''/w==''))),
             (''size'', Some (JNum 1))]"

definition broken_listing :: json where
  "broken_listing =
     JArr [mk_obj [(''type'', Some (JStr (lit ''file''))), (''path'', Some (JStr (lit ''src/a.txt'')))],
           mk_obj [(''type'', Some (JStr (lit ''file''))), (''path'', Some (JStr (lit ''src/bad.bin'')))]]"

definition broken_tree :: "call \<Rightarrow> reply" where
  "broken_tree c =
     (case target c of
        Contents ow rp p rf \<Rightarrow>
          if p = lit ''src'' then Http_ok (Some broken_listing)
          else if p = lit ''src%2Fa.txt'' then Http_ok (Some demo_file)
          else if p = lit ''src%2Fbad.bin'' then Http_ok (Some undecodable_file)
          else Http_error 404 (lit ''Not Found'')
      | _ \<Rightarrow> Http_error 404 (lit ''Not Found''))"

definition broken_trace :: "(call \<times> reply) list" where
  "broken_trace =
     [sized_read (lit ''src'') broken_listing, sized_read (lit ''src%2Fa.txt'') demo_file,
      sized_read (lit ''src%2Fbad.bin'') undecodable_file]"


section \<open>Reasoning about runs\<close>

lemma bind_lift_Inr: "bind (lift (Inr x)) f = f x"
  by (rule ext) (simp add: bind_def lift_def)

lemma bind_lift_Inl: "bind (lift (Inl e)) f = throw e"
  by (rule ext) (simp add: bind_def lift_def throw_def)

lemma bind_ret: "bind (ret x) f = f x"
  by (rule ext) (simp add: bind_def ret_def)

lemma bind_throw: "bind (throw e) f = throw e"
  by (rule ext) (simp add: bind_def throw_def)

lemma bind_Some_Inr: "m s = Some (Inr x, s1) \<Longrightarrow> bind m f s = f x s1"
  by (simp add: bind_def)

lemma bind_Some_Inl: "m s = Some (Inl e, s1) \<Longrightarrow> bind m f s = Some (Inl e, s1)"
  by (simp add: bind_def)

lemmas io_defs = bind_def lift_def ret_def throw_def

lemma to_string_JStr [simp]: "to_string (Some (JStr s)) = s"
  by (simp add: to_string_def)

lemma issuesD:
  "issues Q m \<Longrightarrow> m s = Some (r, s') \<Longrightarrow> \<exists>tr. snd s' = snd s @ tr \<and> list_all Q tr"
  unfolding issues_def by blast

lemma issues_ret: "issues Q (ret x)"
  by (simp add: issues_def ret_def)

lemma issues_throw: "issues Q (throw e)"
  by (simp add: issues_def throw_def)

lemma issues_lift: "issues Q (lift v)"
  by (simp add: issues_def lift_def)

lemma issues_none: "issues Q (\<lambda>s. None)"
  by (simp add: issues_def)

lemma issues_perform: "(\<And>r. Q (c, r)) \<Longrightarrow> issues Q (perform R c)"
  by (auto simp: issues_def perform_def split: prod.splits)

lemma issues_bind:
  assumes "issues Q m" and "\<And>x. issues Q (f x)"
  shows "issues Q (bind m f)"
  unfolding issues_def
proof (intro allI impI)
  fix s r s'
  assume run: "bind m f s = Some (r, s')"
  show "\<exists>tr. snd s' = snd s @ tr \<and> list_all Q tr"
  proof (cases "m s")
    case None
    with run show ?thesis by (simp add: bind_def)
  next
    case (Some a)
    obtain v s1 where a: "a = (v, s1)" by (cases a)
    from issuesD [OF assms(1)] Some a obtain tr1
      where tr1: "snd s1 = snd s @ tr1" "list_all Q tr1" by blast
    show ?thesis
    proof (cases v)
      case (Inl e)
      with run Some a tr1 show ?thesis by (auto simp: bind_def)
    next
      case (Inr x)
      with run Some a have "f x s1 = Some (r, s')" by (simp add: bind_def)
      from issuesD [OF assms(2) this] obtain tr2
        where "snd s' = snd s1 @ tr2" "list_all Q tr2" by blast
      with tr1 show ?thesis by auto
    qed
  qed
qed

lemma issues_if: "issues Q a \<Longrightarrow> issues Q b \<Longrightarrow> issues Q (if c then a else b)"
  by simp

lemma issues_reply_case:
  assumes "\<And>m. issues Q (f1 m)" and "\<And>st t. issues Q (f2 st t)" and "issues Q f3"
    and "\<And>j. issues Q (f4 j)"
  shows "issues Q (case res of Net_failure m \<Rightarrow> f1 m | Http_error st t \<Rightarrow> f2 st t
           | Http_ok None \<Rightarrow> f3 | Http_ok (Some j) \<Rightarrow> f4 j)"
  using assms by (simp split: reply.splits option.splits)

lemma issues_option_case:
  assumes "issues Q a" and "\<And>x. issues Q (f x)"
  shows "issues Q (case v of None \<Rightarrow> a | Some x \<Rightarrow> f x)"
  using assms by (simp split: option.splits)

lemma issues_weaken:
  assumes "issues Q m" and "\<And>x. Q x \<Longrightarrow> Q' x"
  shows "issues Q' m"
  unfolding issues_def
proof (intro allI impI)
  fix s r s'
  assume "m s = Some (r, s')"
  from issuesD [OF assms(1) this] obtain tr where "snd s' = snd s @ tr" "list_all Q tr"
    by blast
  with assms(2) show "\<exists>tr. snd s' = snd s @ tr \<and> list_all Q' tr"
    by (auto simp: list_all_iff)
qed

lemmas issues_intros =
  issues_bind issues_lift issues_perform issues_ret issues_throw issues_if issues_reply_case
  issues_option_case issues_none

lemma contents_read_call [simp]:
  "contents_read (Call GET (Contents ow rp p rf) t b, r)"
  by (simp add: contents_read_def)

lemma model_request_call [simp]: "model_request (Call POST Chat_completions k b, r)"
  by (simp add: model_request_def)

lemma contents_read_quiet: "contents_read x \<Longrightarrow> \<not> mutating (fst x)"
  by (simp add: contents_read_def mutating_def)

lemma model_request_quiet: "model_request x \<Longrightarrow> \<not> mutating (fst x)"
  by (simp add: model_request_def mutating_def)

lemma pushFile_issues: "issues contents_read (pushFile R P owner repo branch path token out)"
  unfolding pushFile_def by (intro issues_intros contents_read_call)

lemma crawl_issues:
  "issues contents_read (crawlGitHubDir R P n owner repo branch path token out)"
  "issues contents_read (crawl_items R P n owner repo branch token items out)"
proof (induction R P n owner repo branch path token out
    and R P n owner repo branch token items out
    rule: crawlGitHubDir_crawl_items.induct)
  case (1 R P owner repo branch path token out)
  show ?case by (simp add: issues_none)
next
  case (2 R P n owner repo branch path token out)
  have items: "issues contents_read
      (case data of JArr items \<Rightarrow> crawl_items R P n owner repo branch token items out
       | _ \<Rightarrow> ret out)" for data
    by (cases data) (simp_all add: issues_ret 2)
  show ?case
    unfolding crawlGitHubDir.simps
    by (intro issues_intros contents_read_call pushFile_issues items)
next
  case (3 R P n owner repo branch token out)
  show ?case by (simp add: issues_ret)
next
  case (4 R P n owner repo branch token item items out)
  show ?case
    unfolding crawl_items.simps
    by (intro issues_intros pushFile_issues) (auto intro: 4)
qed

lemma crawl_paths_issues:
  "issues contents_read (crawl_paths R P n owner repo branch token ps out)"
  by (induction ps arbitrary: out) (auto intro!: issues_ret issues_bind crawl_issues)

lemma collect_issues: "issues contents_read (collect R P fuel env prm)"
  unfolding collect_def by (intro issues_intros crawl_paths_issues)

lemma callOpenAIHarmonizer_issues:
  "issues model_request (callOpenAIHarmonizer R P apiKey owner repo baseBranch note files)"
  unfolding callOpenAIHarmonizer_def by (intro issues_intros model_request_call)

lemma route_harmonize:
  assumes "pathname req = lit ''/harmonize''" and "verb req = lit ''POST''"
    and "body_json req = Some body"
  shows "fetch R P fuel now env req s =
           (case harmonize R P fuel now env body s of
              None \<Rightarrow> None
            | Some (Inl e, s') \<Rightarrow> Some (Caught e, s')
            | Some (Inr resp, s') \<Rightarrow> Some (resp, s'))"
proof -
  have "lit ''/harmonize'' \<noteq> lit ''/health''" by (simp add: lit_def)
  with assms show ?thesis by (simp add: fetch_def)
qed

lemma validate_rejects:
  assumes "\<not> truthy (GITHUB_TOKEN env) \<or> \<not> truthy (OPENAI_API_KEY env) \<or>
           \<not> truthy (p_owner prm) \<or> \<not> truthy (p_repo prm) \<or> p_paths prm = Some (JArr [])"
  shows "\<exists>e. validate env prm = Inl e \<and>
           e \<in> {Missing_GITHUB_TOKEN, Missing_OPENAI_API_KEY, Missing_repo_owner_name,
                No_paths_provided}"
  using assms by (auto simp: validate_def ebind_def)

lemma reach_rewrite:
  assumes "pathname req = lit ''/harmonize''" and "verb req = lit ''POST''"
    and "body_json req = Some body"
    and "read_body env body = Inr prm" and "validate env prm = Inr ()"
    and "collect R P fuel env prm s = Some (Inr collected, s1)" and "collected \<noteq> []"
    and "callOpenAIHarmonizer R P (OPENAI_API_KEY env) (p_owner prm) (p_repo prm)
           (p_baseBranch prm) (p_note prm) (take 12 collected) s1 = Some (res, s2)"
  shows "fetch R P fuel now env req s =
           (case res of
              Inl e \<Rightarrow> Some (Caught e, s2)
            | Inr hr \<Rightarrow>
                (case (bind (lift (get_prop (Some hr) (lit ''files''))) (\<lambda>files.
                       bind (lift (optional_prop files (lit ''length''))) (\<lambda>len.
                         if \<not> truthy len then ret no_rewrite_response
                         else if \<not> truthy (p_apply prm) then
                           bind (lift (get_prop (Some hr) (lit ''summary''))) (\<lambda>summary.
                             ret (preview_response summary files))
                         else
                           apply_changes R now (GITHUB_TOKEN env) (p_owner prm) (p_repo prm)
                             (p_baseBranch prm) (p_note prm) hr))) s2 of
                   None \<Rightarrow> None
                 | Some (Inl e, s') \<Rightarrow> Some (Caught e, s')
                 | Some (Inr resp, s') \<Rightarrow> Some (resp, s')))"
    and "\<exists>tr. snd s2 = snd s @ tr \<and> list_all (\<lambda>x. \<not> mutating (fst x)) tr"
proof -
  have "harmonize R P fuel now env body s =
      bind (callOpenAIHarmonizer R P (OPENAI_API_KEY env) (p_owner prm) (p_repo prm)
                 (p_baseBranch prm) (p_note prm) (take 12 collected)) (\<lambda>harmonizerResult.
         bind (lift (get_prop (Some harmonizerResult) (lit ''files''))) (\<lambda>files.
         bind (lift (optional_prop files (lit ''length''))) (\<lambda>len.
           if \<not> truthy len then ret no_rewrite_response
           else if \<not> truthy (p_apply prm) then
             bind (lift (get_prop (Some harmonizerResult) (lit ''summary''))) (\<lambda>summary.
               ret (preview_response summary files))
           else
             apply_changes R now (GITHUB_TOKEN env) (p_owner prm) (p_repo prm)
               (p_baseBranch prm) (p_note prm) harmonizerResult))) s1"
    using assms(4-7) by (simp add: harmonize_def bind_lift_Inr bind_Some_Inr)
  with assms(8) show "fetch R P fuel now env req s =
           (case res of
              Inl e \<Rightarrow> Some (Caught e, s2)
            | Inr hr \<Rightarrow>
                (case (bind (lift (get_prop (Some hr) (lit ''files''))) (\<lambda>files.
                       bind (lift (optional_prop files (lit ''length''))) (\<lambda>len.
                         if \<not> truthy len then ret no_rewrite_response
                         else if \<not> truthy (p_apply prm) then
                           bind (lift (get_prop (Some hr) (lit ''summary''))) (\<lambda>summary.
                             ret (preview_response summary files))
                         else
                           apply_changes R now (GITHUB_TOKEN env) (p_owner prm) (p_repo prm)
                             (p_baseBranch prm) (p_note prm) hr))) s2 of
                   None \<Rightarrow> None
                 | Some (Inl e, s') \<Rightarrow> Some (Caught e, s')
                 | Some (Inr resp, s') \<Rightarrow> Some (resp, s')))"
    by (cases res) (simp_all add: route_harmonize [OF assms(1-3)] bind_Some_Inr bind_Some_Inl)
  from issuesD [OF collect_issues assms(6)] obtain tr1
    where tr1: "snd s1 = snd s @ tr1" "list_all contents_read tr1" by blast
  from issuesD [OF callOpenAIHarmonizer_issues assms(8)] obtain tr2
    where tr2: "snd s2 = snd s1 @ tr2" "list_all model_request tr2" by blast
  from tr1 tr2 have "snd s2 = snd s @ (tr1 @ tr2)"
    and "list_all (\<lambda>x. \<not> mutating (fst x)) (tr1 @ tr2)"
    by (auto simp: list_all_iff dest: contents_read_quiet model_request_quiet)
  then show "\<exists>tr. snd s2 = snd s @ tr \<and> list_all (\<lambda>x. \<not> mutating (fst x)) tr" by blast
qed

section \<open>The scenario, evaluated\<close>

lemmas codec_defs =
  base64decode_def base64encode_def atob_def btoa_def ascii_whitespace_def strip_padding_def
  b64_value_def b64_char_def escape_def escape_unit_def escape_unreserved_def ascii_alnum_def
  uri_unreserved_def is_lead_def is_trail_def hex2_def hex_value_def hex_digit_def percent_def
  percent_octets_def utf8_octets_def leading_ones_def

lemma demo_decode: "base64decode (lit ''b2xk'') = Inr (lit ''old'')"
  by (simp add: codec_defs lit_def)

lemma demo_encode_path: "encodeURIComponent (lit ''src/a.txt'') = Inr (lit ''src%2Fa.txt'')"
  by (simp add: codec_defs lit_def)

lemma demo_encode: "base64encode (lit ''new'') = Inr (lit ''bmV3'')"
  by (simp add: codec_defs lit_def)

lemma demo_route:
  "pathname (demo_request ap) = lit ''/harmonize''" "verb (demo_request ap) = lit ''POST''"
  "body_json (demo_request ap) = Some (demo_body ap)"
  by (simp_all add: demo_request_def)

lemma demo_read_body: "read_body demo_env (demo_body ap) = Inr (demo_params ap)"
  by (simp add: read_body_def destructure_def ebind_def js_or_def demo_env_def demo_body_def
      demo_params_def mk_obj_def List.map_filter_simps lit_def)

lemma demo_validate: "validate demo_env (demo_params ap) = Inr ()"
  by (simp add: validate_def ebind_def demo_env_def demo_params_def lit_def)

lemma demo_file_props:
  "get_prop (Some demo_file) (lit ''type'') = Inr (Some (JStr (lit ''file'')))"
  "get_prop (Some demo_file) (lit ''path'') = Inr (Some (JStr (lit ''src/a.txt'')))"
  "get_prop (Some demo_file) (lit ''content'') = Inr (Some (JStr (lit ''b2xk'')))"
  "get_prop (Some demo_file) (lit ''size'') = Inr (Some (JNum 3))"
  "get_prop (Some demo_file) (lit ''sha'') = Inr (Some (JStr (lit ''blob1'')))"
  by (simp_all add: demo_file_def mk_obj_def List.map_filter_simps lit_def)

lemma perform_demo_get:
  "perform (demo_remote reply) (Call GET (Contents a b c d) t None) ((), tr) =
     Some (Inr (Http_ok (Some demo_file)),
           ((), tr @ [(Call GET (Contents a b c d) t None, Http_ok (Some demo_file))]))"
  by (simp add: perform_def demo_remote_def)

lemma demo_pushFile:
  "pushFile (demo_remote reply) demo_platform (Some (JStr (lit ''acme'')))
      (Some (JStr (lit ''site''))) (Some (JStr (lit ''main''))) (Some (JStr (lit ''src/a.txt'')))
      (Some (JStr (lit ''ghp''))) out ((), tr) =
    Some (Inr (out @ demo_collected), ((), tr @ [demo_listing]))"
proof -
  have small: "\<not> js_gt demo_platform (Some (JNum 3)) 120000"
    by (simp add: js_gt_def to_number_def)
  have "take 7000 (lit ''old'') = lit ''old''" and "lit ''b2xk'' \<noteq> []"
    by (simp_all add: lit_def)
  then show ?thesis
    by (simp add: pushFile_def demo_encode_path io_defs perform_demo_get
        demo_file_props small demo_decode demo_listing_def demo_collected_def)
qed

lemma demo_crawl:
  "crawlGitHubDir (demo_remote reply) demo_platform (Suc 0) (Some (JStr (lit ''acme'')))
      (Some (JStr (lit ''site''))) (Some (JStr (lit ''main''))) (Some (JStr (lit ''src/a.txt'')))
      (Some (JStr (lit ''ghp''))) [] ((), []) =
    Some (Inr demo_collected, ((), [demo_listing, demo_listing]))"
proof -
  have obj: "(case demo_file of JArr items \<Rightarrow> f items | _ \<Rightarrow> g) = g"
    for f :: "json list \<Rightarrow> (unit, collected_file list) io" and g
    by (simp add: demo_file_def mk_obj_def)
  have "crawlGitHubDir (demo_remote reply) demo_platform (Suc 0) (Some (JStr (lit ''acme'')))
      (Some (JStr (lit ''site''))) (Some (JStr (lit ''main''))) (Some (JStr (lit ''src/a.txt'')))
      (Some (JStr (lit ''ghp''))) [] ((), []) =
    pushFile (demo_remote reply) demo_platform (Some (JStr (lit ''acme'')))
      (Some (JStr (lit ''site''))) (Some (JStr (lit ''main''))) (Some (JStr (lit ''src/a.txt'')))
      (Some (JStr (lit ''ghp''))) [] ((), [demo_listing])"
    by (simp add: demo_encode_path io_defs perform_demo_get obj demo_file_props
        demo_listing_def)
  then show ?thesis by (simp add: demo_pushFile)
qed

lemma demo_collect:
  "collect (demo_remote reply) demo_platform (Suc 0) demo_env (demo_params ap) ((), []) =
     Some (Inr demo_collected, ((), [demo_listing, demo_listing]))"
  by (simp add: collect_def demo_params_def demo_env_def io_defs demo_crawl
      del: crawlGitHubDir.simps)

lemma absent_collect:
  "collect absent_remote demo_platform (Suc 0) demo_env (demo_params ap) ((), []) =
     Some (Inr [], ((),
       [(Call GET (Contents (lit ''acme'') (lit ''site'') (lit ''src%2Fa.txt'')
           (Some (lit ''main''))) (lit ''ghp'') None, Http_error 404 (lit ''Not Found''))]))"
  by (simp add: collect_def demo_params_def demo_env_def io_defs demo_encode_path perform_def
      absent_remote_def)

lemma demo_parse:
  "JSON_parse demo_platform reply_rewrite = Some demo_rewrite"
  "JSON_parse demo_platform reply_empty = Some (mk_obj [(''files'', Some (JArr []))])"
  "JSON_parse demo_platform reply_misshapen =
     Some (mk_obj [(''files'', Some (JStr (lit ''x'')))])"
  "JSON_parse demo_platform reply_pathless = Some (mk_obj [(''files'', Some (JArr [pathless_file]))])"
  "JSON_parse demo_platform reply_prose = None"
  by (simp_all add: demo_platform_def reply_rewrite_def reply_empty_def reply_misshapen_def
      reply_pathless_def reply_prose_def quoted_def lit_def)

lemma demo_chat_content:
  "get_prop (Some (mk_obj [(''choices'', Some (JArr [mk_obj [(''message'',
            Some (mk_obj [(''content'', Some (JStr reply))]))]]))])) (lit ''choices'') =
    Inr (Some (JArr [mk_obj [(''message'', Some (mk_obj [(''content'', Some (JStr reply))]))]]))"
  "get_prop (Some (mk_obj [(''message'', Some (mk_obj [(''content'', Some (JStr reply))]))]))
     (lit ''message'') = Inr (Some (mk_obj [(''content'', Some (JStr reply))]))"
  "get_prop (Some (mk_obj [(''content'', Some (JStr reply))])) (lit ''content'') =
     Inr (Some (JStr reply))"
  by (simp_all add: mk_obj_def List.map_filter_simps)

lemma demo_call_model:
  "callOpenAIHarmonizer (demo_remote reply) demo_platform (OPENAI_API_KEY demo_env)
     (p_owner (demo_params ap)) (p_repo (demo_params ap)) (p_baseBranch (demo_params ap))
     (p_note (demo_params ap)) (take 12 demo_collected) ((), tr) =
   Some (case JSON_parse demo_platform reply of None \<Rightarrow> Inl SyntaxError | Some hr \<Rightarrow> Inr hr,
         ((), tr @ [demo_chat reply]))"
proof -
  have "take 12 demo_collected = demo_collected" by (simp add: demo_collected_def)
  then show ?thesis
    by (simp add: callOpenAIHarmonizer_def demo_params_def demo_env_def io_defs perform_def
        demo_remote_def demo_chat_def demo_chat_reply_def demo_chat_content
        split: option.splits)
qed

lemma demo_rewrite_props:
  "get_prop (Some demo_rewrite) (lit ''files'') =
     Inr (Some (JArr [mk_obj [(''path'', Some (JStr (lit ''src/a.txt''))),
                              (''content'', Some (JStr (lit ''new'')))]]))"
  "get_prop (Some demo_rewrite) (lit ''summary'') = Inr None"
  by (simp_all add: demo_rewrite_def mk_obj_def List.map_filter_simps lit_def)

lemma length_of_one: "optional_prop (Some (JArr [x])) (lit ''length'') = Inr (Some (JNum 1))"
  by (simp add: optional_prop_def)

lemma demo_undefined:
  "base64encode (lit ''undefined'') = Inr (lit ''dW5kZWZpbmVk'')"
  "encodeURIComponent (lit ''undefined'') = Inr (lit ''undefined'')"
  "encodeURIComponent [] = Inr []"
  by (simp_all add: codec_defs lit_def)


lemma demo_collected_nonempty: "demo_collected \<noteq> []"
  by (simp add: demo_collected_def)

lemma demo_model:
  "callOpenAIHarmonizer (demo_remote reply) demo_platform (OPENAI_API_KEY demo_env)
     (p_owner (demo_params ap)) (p_repo (demo_params ap)) (p_baseBranch (demo_params ap))
     (p_note (demo_params ap)) (take 12 demo_collected) ((), [demo_listing, demo_listing]) =
   Some (case JSON_parse demo_platform reply of None \<Rightarrow> Inl SyntaxError | Some hr \<Rightarrow> Inr hr,
         ((), [demo_listing, demo_listing, demo_chat reply]))"
  using demo_call_model [of reply ap "[demo_listing, demo_listing]"] by simp

lemma demo_empty_props:
  "get_prop (Some (mk_obj [(''files'', Some (JArr []))])) (lit ''files'') = Inr (Some (JArr []))"
  "optional_prop (Some (JArr [])) (lit ''length'') = Inr (Some (JNum 0))"
  by (simp_all add: mk_obj_def List.map_filter_simps optional_prop_def)

lemma demo_commit_file:
  assumes "get_prop (Some file) (lit ''content'') = Inr content"
    and "base64encode (to_string content) = Inr encoded"
    and "get_prop (Some file) (lit ''path'') = Inr path"
    and "encodeURIComponent (to_string path) = Inr p"
  shows "commit_file (demo_remote reply) (Some (JStr (lit ''ghp''))) (Some (JStr (lit ''acme'')))
           (Some (JStr (lit ''site''))) demo_branch file ((), tr) =
         Some (Inr (update_result path (Some (JStr (lit ''blob1''))) (Some (JStr (lit ''c1'')))),
               ((), tr @ [demo_probe p, demo_write p path encoded]))"
proof -
  have commit:
    "get_prop (Some (mk_obj [(''commit'', Some (mk_obj [(''sha'', Some (JStr (lit ''c1'')))]))]))
       (lit ''commit'') = Inr (Some (mk_obj [(''sha'', Some (JStr (lit ''c1'')))]))"
    "optional_prop (Some (mk_obj [(''sha'', Some (JStr (lit ''c1'')))])) (lit ''sha'') =
       Inr (Some (JStr (lit ''c1'')))"
    by (simp_all add: mk_obj_def List.map_filter_simps optional_prop_def)
  have probed: "probe (demo_remote reply) (Some (JStr (lit ''ghp'')))
      (Contents (lit ''acme'') (lit ''site'') p (Some demo_branch)) ((), tr) =
      Some (Inr (Some (JStr (lit ''blob1''))), ((), tr @ [demo_probe p]))"
    by (simp add: probe_def ghGet_def gh_request_def io_defs perform_demo_get demo_file_props
        demo_probe_def)
  have put: "ghPut (demo_remote reply) (Some (JStr (lit ''ghp'')))
      (Contents (lit ''acme'') (lit ''site'') p None) pl ((), tr') =
      Some (Inr (mk_obj [(''commit'', Some (mk_obj [(''sha'', Some (JStr (lit ''c1'')))]))]),
        ((), tr' @ [(Call PUT (Contents (lit ''acme'') (lit ''site'') p None) (lit ''ghp'')
            (Some pl),
          Http_ok (Some (mk_obj [(''commit'', Some (mk_obj [(''sha'', Some (JStr (lit ''c1'')))]))])))]))"
    for pl tr'
    by (simp add: ghPut_def gh_request_def io_defs perform_def demo_remote_def)
  show ?thesis
    using assms
    by (simp add: commit_file_def io_defs probed put commit demo_write_def)
qed


lemma demo_lookup_run:
  "ghGet (demo_remote reply) (Some (JStr (lit ''ghp'')))
     (Git_ref (lit ''acme'') (lit ''site'') (lit ''main'')) ((), tr) =
   Some (Inr (mk_obj [(''object'', Some (mk_obj [(''sha'', Some (JStr (lit ''base1'')))]))]),
         ((), tr @ [demo_lookup]))"
  by (simp add: ghGet_def gh_request_def io_defs perform_def demo_remote_def demo_lookup_def)

lemma demo_base_sha:
  "get_prop (Some (mk_obj [(''object'', Some (mk_obj [(''sha'', Some (JStr (lit ''base1'')))]))]))
     (lit ''object'') = Inr (Some (mk_obj [(''sha'', Some (JStr (lit ''base1'')))]))"
  "get_prop (Some (mk_obj [(''sha'', Some (JStr (lit ''base1'')))])) (lit ''sha'') =
     Inr (Some (JStr (lit ''base1'')))"
  by (simp_all add: mk_obj_def List.map_filter_simps)

lemma demo_create_run:
  "ghPost (demo_remote reply) (Some (JStr (lit ''ghp''))) (Git_refs (lit ''acme'') (lit ''site''))
     (mk_obj [(''ref'', Some (JStr (lit ''refs/heads/'' @ demo_branch))),
              (''sha'', Some (JStr (lit ''base1'')))]) ((), tr) =
   Some (Inr (mk_obj []), ((), tr @ [demo_create]))"
  by (simp add: ghPost_def gh_request_def io_defs perform_def demo_remote_def demo_create_def)

lemma demo_pull_run:
  "ghPost (demo_remote reply) (Some (JStr (lit ''ghp''))) (Pulls (lit ''acme'') (lit ''site''))
     (mk_obj [(''title'', Some (JStr (lit ''ASA Harmonizer Automatic PR''))),
              (''head'', Some (JStr demo_branch)),
              (''base'', Some (JStr (lit ''main''))),
              (''body'', Some (JStr (lit ''ASA MATRIX harmonizer run'')))]) ((), tr) =
   Some (Inr (mk_obj [(''html_url'', Some (JStr (lit ''https://example.org/pr/7''))),
                      (''number'', Some (JNum 7))]), ((), tr @ [demo_pull]))"
  by (simp add: ghPost_def gh_request_def io_defs perform_def demo_remote_def demo_pull_def)

lemma demo_pull_props:
  "get_prop (Some (mk_obj [(''html_url'', Some (JStr (lit ''https://example.org/pr/7''))),
      (''number'', Some (JNum 7))])) (lit ''html_url'') =
     Inr (Some (JStr (lit ''https://example.org/pr/7'')))"
  "get_prop (Some (mk_obj [(''html_url'', Some (JStr (lit ''https://example.org/pr/7''))),
      (''number'', Some (JNum 7))])) (lit ''number'') = Inr (Some (JNum 7))"
  by (simp_all add: mk_obj_def List.map_filter_simps lit_def)

text \<open>An apply run of the scenario whose rewrite has one entry and no summary.\<close>

lemma demo_apply_one:
  assumes "get_prop (Some hr) (lit ''files'') = Inr files" and "iterate files = Inr [file]"
    and "get_prop (Some hr) (lit ''summary'') = Inr None"
    and "get_prop (Some file) (lit ''content'') = Inr content"
    and "base64encode (to_string content) = Inr encoded"
    and "get_prop (Some file) (lit ''path'') = Inr path"
    and "encodeURIComponent (to_string path) = Inr p"
  shows "apply_changes (demo_remote reply) 0 (GITHUB_TOKEN demo_env) (p_owner (demo_params True))
           (p_repo (demo_params True)) (p_baseBranch (demo_params True))
           (p_note (demo_params True)) hr ((), tr) =
         Some (Inr (demo_applied
                 [update_result path (Some (JStr (lit ''blob1''))) (Some (JStr (lit ''c1'')))]),
               ((), tr @ [demo_lookup, demo_create, demo_probe p, demo_write p path encoded,
                          demo_pull]))"
  using assms
  by (simp add: apply_changes_def demo_env_def demo_params_def io_defs demo_lookup_run
      demo_base_sha demo_branch_def [symmetric] demo_create_run
      demo_commit_file [OF assms(4-7)] js_or_def demo_pull_run demo_pull_props
      demo_applied_def Let_def del: show_nat.simps)

section \<open>The codecs are inverse to each other\<close>

lemma hex_value_digit: "d < 16 \<Longrightarrow> hex_value (hex_digit d) = Some d"
  by (auto simp: hex_value_def hex_digit_def)

lemma hex_digit_not_u: "d < 16 \<Longrightarrow> hex_digit d \<noteq> 117"
  by (auto simp: hex_digit_def)

lemma hex2_digits: "b < 256 \<Longrightarrow> hex2 (hex_digit (b div 16)) (hex_digit (b mod 16)) = Some b"
proof -
  assume "b < 256"
  then have "b div 16 < 16" "b mod 16 < 16" by simp_all
  then show ?thesis by (simp add: hex2_def hex_value_digit)
qed

lemma unescape_percent:
  assumes "b < 256"
  shows "unescape (percent b @ rest) = b # unescape rest"
proof -
  from assms have d: "b div 16 < 16" by simp
  note facts = hex2_digits [OF assms] hex_digit_not_u [OF d]
  show ?thesis
  proof (cases rest)
    case Nil
    then show ?thesis by (simp add: percent_def facts)
  next
    case (Cons x r1)
    show ?thesis
    proof (cases r1)
      case Nil
      with Cons show ?thesis by (simp add: percent_def facts)
    next
      case (Cons y r2)
      note r1 = this
      show ?thesis
      proof (cases r2)
        case Nil
        with \<open>rest = x # r1\<close> r1 show ?thesis by (simp add: percent_def facts)
      next
        case (Cons z r3)
        with \<open>rest = x # r1\<close> r1 show ?thesis by (simp add: percent_def facts)
      qed
    qed
  qed
qed

lemma unescape_percents:
  "\<forall>b \<in> set bs. b < 256 \<Longrightarrow> unescape (concat (map percent bs) @ rest) = bs @ unescape rest"
  by (induction bs) (simp_all add: unescape_percent)

lemma unescape_copy: "c \<noteq> 37 \<Longrightarrow> unescape (c # rest) = c # unescape rest"
  by simp

lemma utf8_octets_bytes: "v < 1114112 \<Longrightarrow> \<forall>b \<in> set (utf8_octets v). b < 256"
  by (auto simp: utf8_octets_def)

lemma unescape_percent_octets:
  "v < 1114112 \<Longrightarrow> unescape (percent_octets v @ rest) = utf8_octets v @ unescape rest"
  unfolding percent_octets_def by (rule unescape_percents) (rule utf8_octets_bytes)

lemma pair_code_point_range:
  "is_lead c \<Longrightarrow> is_trail d \<Longrightarrow> 65536 \<le> pair_code_point c d \<and> pair_code_point c d < 1114112"
  by (auto simp: is_lead_def is_trail_def pair_code_point_def)

lemma unreserved_ascii: "uri_unreserved c \<Longrightarrow> c < 128 \<and> c \<noteq> 37 \<and> \<not> is_lead c \<and> \<not> is_trail c"
  by (auto simp: uri_unreserved_def ascii_alnum_def is_lead_def is_trail_def)

lemma encode_unescape:
  assumes "list_all (\<lambda>c. c < 65536) s" and "encodeURIComponent s = Inr u"
  shows "unescape u = utf8_string s"
  using assms
proof (induction s arbitrary: u rule: encodeURIComponent.induct)
  case 1
  then show ?case by simp
next
  case (2 c cs)
  show ?case
  proof (cases "uri_unreserved c")
    case True
    with 2(4,5) obtain r where r: "encodeURIComponent cs = Inr r" "u = c # r"
      by (auto split: sum.splits)
    from 2(1) [OF True _ r(1)] 2(4) have "unescape r = utf8_string cs" by simp
    with r True unreserved_ascii [OF True] show ?thesis
      by (simp add: utf8_octets_def)
  next
    case False
    note unres = this
    show ?thesis
    proof (cases "is_lead c")
      case True
      with unres 2(5) obtain d ds r where cs: "cs = d # ds" "is_trail d"
        and r: "encodeURIComponent ds = Inr r" "u = percent_octets (pair_code_point c d) @ r"
        by (auto split: sum.splits list.splits if_splits)
      from 2(2) [OF unres True cs(1) cs(2) _ r(1)] 2(4) cs(1)
      have "unescape r = utf8_string ds" by simp
      with r(2) cs True pair_code_point_range [OF True cs(2)] show ?thesis
        by (simp add: unescape_percent_octets)
    next
      case False
      with unres 2(5) obtain r where nt: "\<not> is_trail c"
        and r: "encodeURIComponent cs = Inr r" "u = percent_octets c @ r"
        by (auto split: sum.splits if_splits)
      from 2(3) [OF unres False nt _ r(1)] 2(4) have "unescape r = utf8_string cs" by simp
      moreover from 2(4) have "c < 1114112" by simp
      ultimately show ?thesis
        using r(2) False by (simp add: unescape_percent_octets)
    qed
  qed
qed

lemma utf8_string_bytes:
  assumes "list_all (\<lambda>c. c < 65536) s" and "encodeURIComponent s = Inr u"
  shows "\<forall>b \<in> set (utf8_string s). b < 256"
  using assms
proof (induction s arbitrary: u rule: encodeURIComponent.induct)
  case 1
  then show ?case by simp
next
  case (2 c cs)
  show ?case
  proof (cases "uri_unreserved c")
    case True
    with 2(4,5) obtain r where r: "encodeURIComponent cs = Inr r"
      by (auto split: sum.splits)
    from 2(1) [OF True _ r] 2(4) have "\<forall>b \<in> set (utf8_string cs). b < 256" by simp
    with True unreserved_ascii [OF True] show ?thesis
      by (simp add: utf8_octets_def)
  next
    case False
    note unres = this
    show ?thesis
    proof (cases "is_lead c")
      case True
      with unres 2(5) obtain d ds r where cs: "cs = d # ds" "is_trail d"
        and r: "encodeURIComponent ds = Inr r"
        by (auto split: sum.splits list.splits if_splits)
      from 2(2) [OF unres True cs(1) cs(2) _ r] 2(4) cs(1)
      have "\<forall>b \<in> set (utf8_string ds). b < 256" by simp
      with cs True pair_code_point_range [OF True cs(2)] show ?thesis
        using utf8_octets_bytes [of "pair_code_point c d"] by auto
    next
      case False
      with unres 2(5) obtain r where nt: "\<not> is_trail c"
        and r: "encodeURIComponent cs = Inr r"
        by (auto split: sum.splits if_splits)
      from 2(3) [OF unres False nt _ r] 2(4) have "\<forall>b \<in> set (utf8_string cs). b < 256" by simp
      moreover from 2(4) have "c < 1114112" by simp
      ultimately show ?thesis
        using False utf8_octets_bytes [of c] by auto
    qed
  qed
qed

lemma b64_encode_split: "b64_encode bs = map b64_char (sextets bs) @ padding bs"
  by (induction bs rule: b64_encode.induct) simp_all

lemma sextets_small: "\<forall>b \<in> set bs. b < 256 \<Longrightarrow> \<forall>x \<in> set (sextets bs). x < 64"
proof (induction bs rule: sextets.induct)
  case (1 a b c rest)
  then have "a < 256" "b < 256" "c < 256" and rest: "\<forall>x \<in> set (sextets rest). x < 64"
    by simp_all
  then have "a div 4 < 64" "b div 16 < 16" "c div 64 < 4" "a mod 4 < 4" "b mod 16 < 16"
    by simp_all
  then have "a div 4 < 64" "(a mod 4) * 16 + b div 16 < 64" "(b mod 16) * 4 + c div 64 < 64"
    "c mod 64 < 64" by linarith+
  with rest show ?case by simp
next
  case (2 a b)
  then have "a < 256" "b < 256" by simp_all
  then have "a div 4 < 64" "b div 16 < 16" "a mod 4 < 4" "b mod 16 < 16" by simp_all
  then have "a div 4 < 64" "(a mod 4) * 16 + b div 16 < 64" "(b mod 16) * 4 < 64"
    by linarith+
  then show ?case by simp
next
  case (3 a)
  then have "a < 256" by simp
  then have "a div 4 < 64" "a mod 4 < 4" by simp_all
  then have "a div 4 < 64" "(a mod 4) * 16 < 64" by linarith+
  then show ?case by simp
next
  case 4
  then show ?case by simp
qed

lemma b64_char_value: "x < 64 \<Longrightarrow> b64_value (b64_char x) = Some x"
  by (auto simp: b64_value_def b64_char_def)

lemma b64_char_plain: "x < 64 \<Longrightarrow> b64_char x \<noteq> 61 \<and> \<not> ascii_whitespace (b64_char x)"
  by (auto simp: b64_char_def ascii_whitespace_def)

lemma split_div: "y < n \<Longrightarrow> (x * n + y) div n = (x::nat)"
  by simp

lemma split_mod: "y < n \<Longrightarrow> (x * n + y) mod n = (y::nat)"
  by simp

lemma b64_decode_sextets: "\<forall>b \<in> set bs. b < 256 \<Longrightarrow> b64_decode (sextets bs) = bs"
proof (induction bs rule: sextets.induct)
  case (1 a b c rest)
  then have lt: "b < 256" "c < 256" and rest: "b64_decode (sextets rest) = rest"
    by simp_all
  from lt have small: "b div 16 < 16" "c div 64 < 4" by simp_all
  have "a div 4 * 4 + ((a mod 4) * 16 + b div 16) div 16 = a"
    "((a mod 4) * 16 + b div 16) mod 16 * 16 + ((b mod 16) * 4 + c div 64) div 4 = b"
    "((b mod 16) * 4 + c div 64) mod 4 * 64 + c mod 64 = c"
    by (simp_all add: split_div [OF small(1)] split_mod [OF small(1)]
        split_div [OF small(2)] split_mod [OF small(2)] mod_less [OF small(1)]
        mod_less [OF small(2)])
  with rest show ?case by simp
next
  case (2 a b)
  then have "b < 256" by simp
  then have small: "b div 16 < 16" by simp
  have "a div 4 * 4 + ((a mod 4) * 16 + b div 16) div 16 = a"
    "((a mod 4) * 16 + b div 16) mod 16 * 16 + ((b mod 16) * 4) div 4 = b"
    by (simp_all add: split_div [OF small] split_mod [OF small] mod_less [OF small])
  then show ?case by simp
next
  case (3 a)
  have "a div 4 * 4 + ((a mod 4) * 16) div 16 = a" by simp
  then show ?case by simp
next
  case 4
  then show ?case by simp
qed

lemma sextets_length:
  "length (sextets bs) mod 4 \<noteq> 1 \<and>
   (padding bs = [] \<and> length (sextets bs) mod 4 = 0 \<or>
    padding bs = [61] \<and> length (sextets bs) mod 4 = 3 \<or>
    padding bs = [61, 61] \<and> length (sextets bs) mod 4 = 2)"
  by (induction bs rule: sextets.induct) simp_all

lemma strip_padding_data:
  assumes "\<forall>c \<in> set d. c \<noteq> 61"
    and "p = [] \<and> length d mod 4 = 0 \<or> p = [61] \<and> length d mod 4 = 3 \<or>
         p = [61, 61] \<and> length d mod 4 = 2"
  shows "strip_padding (d @ p) = d"
proof -
  consider "p = []" "length d mod 4 = 0" | "p = [61]" "length d mod 4 = 3"
    | "p = [61, 61]" "length d mod 4 = 2"
    using assms(2) by auto
  then show ?thesis
  proof cases
    case 1
    show ?thesis
    proof (cases "d = []")
      case True
      with 1 show ?thesis by (simp add: strip_padding_def)
    next
      case False
      then have "last d \<in> set d" by simp
      with assms(1) have "last d \<noteq> 61" by blast
      with 1 False show ?thesis by (simp add: strip_padding_def)
    qed
  next
    case 2
    then have ne: "d \<noteq> []" by auto
    then have "last d \<in> set d" by simp
    with assms(1) have "last d \<noteq> 61" by blast
    moreover from 2 have "length (d @ [61]) mod 4 = 0" by (simp add: mod_Suc)
    ultimately show ?thesis using 2 ne by (simp add: strip_padding_def butlast_append)
  next
    case 3
    then have "length (d @ [61, 61]) mod 4 = 0" by (simp add: mod_Suc)
    with 3 show ?thesis by (simp add: strip_padding_def butlast_append)
  qed
qed

lemma atob_b64_encode:
  assumes "\<forall>b \<in> set bs. b < 256"
  shows "atob (b64_encode bs) = Inr bs"
proof -
  let ?d = "map b64_char (sextets bs)"
  from sextets_small [OF assms] have small: "\<forall>x \<in> set (sextets bs). x < 64" .
  have plain: "\<forall>c \<in> set ?d. c \<noteq> 61" and nows: "\<forall>c \<in> set ?d. \<not> ascii_whitespace c"
    using small b64_char_plain by auto
  have "\<forall>c \<in> set (padding bs). \<not> ascii_whitespace c"
    using sextets_length [of bs] by (auto simp: ascii_whitespace_def)
  with nows have "filter (\<lambda>c. \<not> ascii_whitespace c) (b64_encode bs) = ?d @ padding bs"
    by (simp add: b64_encode_split)
  moreover have "strip_padding (?d @ padding bs) = ?d"
    using strip_padding_data [OF plain, of "padding bs"] sextets_length [of bs] by simp
  moreover have "length ?d mod 4 \<noteq> 1" using sextets_length [of bs] by simp
  moreover have "\<not> (\<exists>c \<in> set ?d. b64_value c = None)"
    using small by (auto simp: b64_char_value)
  moreover have "map (\<lambda>c. the (b64_value c)) ?d = sextets bs"
    using small by (simp add: b64_char_value map_idI)
  ultimately show ?thesis
    by (simp add: atob_def Let_def b64_decode_sextets [OF assms])
qed

lemma take_octet_percent: "b < 256 \<Longrightarrow> take_octet (percent b @ t) = Some (b, t)"
  by (simp add: percent_def hex2_digits)

lemma take_octets_percents:
  "\<forall>b \<in> set bs. b < 256 \<Longrightarrow>
   take_octets (length bs) (concat (map percent bs) @ t) = Some (bs, t)"
  by (induction bs) (simp_all add: take_octet_percent)

lemma decode_copy:
  "c \<noteq> 37 \<Longrightarrow> decodeURIComponent (c # t) =
     (case decodeURIComponent t of Inl e \<Rightarrow> Inl e | Inr r \<Rightarrow> Inr (c # r))"
  by simp

lemma decode_percent:
  "b < 256 \<Longrightarrow> decodeURIComponent (percent b @ t) =
     (if leading_ones b = 0 then
        (case decodeURIComponent t of Inl e \<Rightarrow> Inl e | Inr r \<Rightarrow> Inr (b # r))
      else if leading_ones b = 1 \<or> leading_ones b > 4 then Inl URIError
      else
        (case take_octets (leading_ones b - 1) t of
           None \<Rightarrow> Inl URIError
         | Some (bs, rest') \<Rightarrow>
             (case utf8_code_point (b # bs) of
                None \<Rightarrow> Inl URIError
              | Some v \<Rightarrow>
                  (case decodeURIComponent rest' of
                     Inl e \<Rightarrow> Inl e
                   | Inr r \<Rightarrow> Inr (utf16_encode_code_point v @ r)))))"
proof -
  assume b: "b < 256"
  have "decodeURIComponent (37 # hex_digit (b div 16) # hex_digit (b mod 16) # t) =
      (case take_octet (percent b @ t) of
           None \<Rightarrow> Inl URIError
         | Some (b, rest) \<Rightarrow>
             if leading_ones b = 0 then
               (case decodeURIComponent rest of Inl e \<Rightarrow> Inl e | Inr r \<Rightarrow> Inr (b # r))
             else if leading_ones b = 1 \<or> leading_ones b > 4 then Inl URIError
             else
               (case take_octets (leading_ones b - 1) rest of
                  None \<Rightarrow> Inl URIError
                | Some (bs, rest') \<Rightarrow>
                    (case utf8_code_point (b # bs) of
                       None \<Rightarrow> Inl URIError
                     | Some v \<Rightarrow>
                         (case decodeURIComponent rest' of
                            Inl e \<Rightarrow> Inl e
                          | Inr r \<Rightarrow> Inr (utf16_encode_code_point v @ r)))))"
    by (subst decodeURIComponent.simps) (simp add: percent_def)
  then show ?thesis
    by (simp add: take_octet_percent [OF b]) (simp add: percent_def)
qed

lemma decode_sequence:
  assumes "b < 256" and "\<forall>x \<in> set bs. x < 256" and "leading_ones b = Suc (length bs)"
    and "bs \<noteq> []" and "length bs \<le> 3" and "utf8_code_point (b # bs) = Some v"
  shows "decodeURIComponent (percent b @ concat (map percent bs) @ t) =
           (case decodeURIComponent t of
              Inl e \<Rightarrow> Inl e
            | Inr r \<Rightarrow> Inr (utf16_encode_code_point v @ r))"
proof -
  from assms(4) have "length bs \<noteq> 0" by simp
  with assms show ?thesis
    by (simp add: decode_percent take_octets_percents)
qed

lemma escape_append: "escape (xs @ ys) = escape xs @ escape ys"
  by (simp add: escape_def)

lemma escape_high: "\<forall>x \<in> set bs. 128 \<le> x \<and> x < 256 \<Longrightarrow> escape bs = concat (map percent bs)"
proof (induction bs)
  case Nil
  then show ?case by (simp add: escape_def)
next
  case (Cons x bs)
  then have "128 \<le> x" "x < 256" by simp_all
  then have "escape_unit x = percent x"
    by (auto simp: escape_unit_def escape_unreserved_def ascii_alnum_def)
  with Cons show ?case by (simp add: escape_def)
qed

lemma decode_escape_ascii:
  assumes "v < 128"
  shows "decodeURIComponent (escape [v] @ t) =
           (case decodeURIComponent t of Inl e \<Rightarrow> Inl e | Inr r \<Rightarrow> Inr (v # r))"
proof (cases "escape_unreserved v")
  case True
  then have "v \<noteq> 37" by (auto simp: escape_unreserved_def ascii_alnum_def)
  with True show ?thesis by (simp add: escape_def escape_unit_def)
next
  case False
  from assms have "v < 256" "leading_ones v = 0" by (simp_all add: leading_ones_def)
  with False assms show ?thesis
    by (simp add: escape_def escape_unit_def decode_percent)
qed

lemma split64: "(w::nat) div 64 * (64 * k) + w mod 64 * k = w * k"
proof -
  have "w * k = (w div 64 * 64 + w mod 64) * k" by simp
  also have "\<dots> = w div 64 * (64 * k) + w mod 64 * k"
    unfolding add_mult_distrib mult.assoc ..
  finally show ?thesis by simp
qed

lemma digits64_2: "(v::nat) div 4096 * 4096 + (v div 64) mod 64 * 64 + v mod 64 = v"
proof -
  have "v div (64 * 64) = v div 64 div 64" by (rule div_mult2_eq)
  then have top: "v div 4096 = v div 64 div 64" by simp
  from split64 [of "v div 64" 64]
  have "v div 64 div 64 * 4096 + (v div 64) mod 64 * 64 = v div 64 * 64" by simp
  then show ?thesis by (simp add: top)
qed

lemma digits64_3:
  "(v::nat) div 262144 * 262144 + (v div 4096) mod 64 * 4096 + (v div 64) mod 64 * 64 + v mod 64 = v"
proof -
  have "v div (4096 * 64) = v div 4096 div 64" by (rule div_mult2_eq)
  then have top: "v div 262144 = v div 4096 div 64" by simp
  from split64 [of "v div 4096" 4096]
  have "v div 4096 div 64 * 262144 + (v div 4096) mod 64 * 4096 = v div 4096 * 4096" by simp
  with digits64_2 [of v] show ?thesis by (simp add: top)
qed

lemma utf8_two:
  assumes "128 \<le> v" and "v < 2048"
  shows "utf8_code_point [192 + v div 64, 128 + v mod 64] = Some v"
    and "leading_ones (192 + v div 64) = 2"
proof -
  from assms have "v div 64 < 32" by simp
  then show "leading_ones (192 + v div 64) = 2" by (simp add: leading_ones_def)
  have "v div 64 * 64 + v mod 64 = v" by simp
  with assms show "utf8_code_point [192 + v div 64, 128 + v mod 64] = Some v"
    by (simp add: continuation_def)
qed

lemma utf8_three:
  assumes "2048 \<le> v" and "v < 65536" and "scalar_value v"
  shows "utf8_code_point [224 + v div 4096, 128 + (v div 64) mod 64, 128 + v mod 64] = Some v"
    and "leading_ones (224 + v div 4096) = 3"
proof -
  from assms have "v div 4096 < 16" by simp
  then show "leading_ones (224 + v div 4096) = 3" by (simp add: leading_ones_def)
  note digits64_2 [of v]
  with assms show
    "utf8_code_point [224 + v div 4096, 128 + (v div 64) mod 64, 128 + v mod 64] = Some v"
    by (simp add: continuation_def)
qed

lemma utf8_four:
  assumes "65536 \<le> v" and "v < 1114112"
  shows "utf8_code_point [240 + v div 262144, 128 + (v div 4096) mod 64,
           128 + (v div 64) mod 64, 128 + v mod 64] = Some v"
    and "leading_ones (240 + v div 262144) = 4"
proof -
  from assms have "v div 262144 < 5" by simp
  then show "leading_ones (240 + v div 262144) = 4" by (simp add: leading_ones_def)
  note digits64_3 [of v]
  with assms show "utf8_code_point [240 + v div 262144, 128 + (v div 4096) mod 64,
           128 + (v div 64) mod 64, 128 + v mod 64] = Some v"
    by (simp add: continuation_def scalar_value_def)
qed

lemma mod64_small [simp]: "(x::nat) mod 64 < 128"
proof -
  have "x mod 64 < 64" by simp
  then show ?thesis by linarith
qed

lemma decode_code_point:
  assumes "scalar_value v"
  shows "decodeURIComponent (escape (utf8_octets v) @ t) =
           (case decodeURIComponent t of
              Inl e \<Rightarrow> Inl e
            | Inr r \<Rightarrow> Inr (utf16_encode_code_point v @ r))"
proof -
  have "v < 128 \<or> 128 \<le> v \<and> v < 2048 \<or> 2048 \<le> v \<and> v < 65536 \<or>
      65536 \<le> v \<and> v < 1114112"
    using assms unfolding scalar_value_def by linarith
  then consider "v < 128" | "128 \<le> v" "v < 2048" | "2048 \<le> v" "v < 65536"
    | "65536 \<le> v" "v < 1114112"
    by auto
  then show ?thesis
  proof cases
    case 1
    then have "utf16_encode_code_point v = [v]" and "utf8_octets v = [v]"
      by (simp_all add: utf16_encode_code_point_def utf8_octets_def)
    then show ?thesis
      unfolding \<open>utf16_encode_code_point v = [v]\<close> \<open>utf8_octets v = [v]\<close>
      using decode_escape_ascii [OF 1, of t] by (simp cong: sum.case_cong)
  next
    case 2
    then have "v div 64 < 32" by simp
    then have high: "\<forall>x \<in> set [192 + v div 64, 128 + v mod 64]. 128 \<le> x \<and> x < 256"
      by simp
    from 2 have oct: "utf8_octets v = [192 + v div 64, 128 + v mod 64]"
      by (simp add: utf8_octets_def)
    have "decodeURIComponent (percent (192 + v div 64) @ concat (map percent [128 + v mod 64]) @ t) =
        (case decodeURIComponent t of
           Inl e \<Rightarrow> Inl e
         | Inr r \<Rightarrow> Inr (utf16_encode_code_point v @ r))"
      by (rule decode_sequence) (use high utf8_two [OF 2] in simp_all)
    then show ?thesis
      by (simp add: oct escape_high [OF high])
  next
    case 3
    then have "v div 4096 < 16" by simp
    then have high: "\<forall>x \<in> set [224 + v div 4096, 128 + (v div 64) mod 64, 128 + v mod 64].
        128 \<le> x \<and> x < 256"
      by simp
    from 3 have oct: "utf8_octets v = [224 + v div 4096, 128 + (v div 64) mod 64, 128 + v mod 64]"
      by (simp add: utf8_octets_def)
    have "decodeURIComponent (percent (224 + v div 4096) @
          concat (map percent [128 + (v div 64) mod 64, 128 + v mod 64]) @ t) =
        (case decodeURIComponent t of
           Inl e \<Rightarrow> Inl e
         | Inr r \<Rightarrow> Inr (utf16_encode_code_point v @ r))"
      by (rule decode_sequence) (use high utf8_three [OF 3 assms] in simp_all)
    then show ?thesis
      by (simp add: oct escape_high [OF high])
  next
    case 4
    then have "v div 262144 < 5" by simp
    then have high: "\<forall>x \<in> set [240 + v div 262144, 128 + (v div 4096) mod 64,
        128 + (v div 64) mod 64, 128 + v mod 64]. 128 \<le> x \<and> x < 256"
      by simp
    from 4 have oct: "utf8_octets v = [240 + v div 262144, 128 + (v div 4096) mod 64,
        128 + (v div 64) mod 64, 128 + v mod 64]"
      by (simp add: utf8_octets_def)
    have "decodeURIComponent (percent (240 + v div 262144) @
          concat (map percent [128 + (v div 4096) mod 64, 128 + (v div 64) mod 64,
            128 + v mod 64]) @ t) =
        (case decodeURIComponent t of
           Inl e \<Rightarrow> Inl e
         | Inr r \<Rightarrow> Inr (utf16_encode_code_point v @ r))"
      by (rule decode_sequence) (use high utf8_four [OF 4] in simp_all)
    then show ?thesis
      by (simp add: oct escape_high [OF high])
  qed
qed

lemma utf16_pair:
  assumes "is_lead c" and "is_trail d"
  shows "utf16_encode_code_point (pair_code_point c d) = [c, d]"
proof -
  define x where "x = c - 55296"
  define y where "y = d - 56320"
  from assms have y: "y < 1024" and c: "c = 55296 + x" and d: "d = 56320 + y"
    unfolding is_lead_def is_trail_def x_def y_def by linarith+
  have v: "pair_code_point c d = 65536 + (x * 1024 + y)"
    by (simp add: pair_code_point_def x_def y_def)
  have "65536 + (x * 1024 + y) - 65536 = x * 1024 + y" by simp
  then show ?thesis
    unfolding utf16_encode_code_point_def v
    by (simp add: split_div [OF y] split_mod [OF y] mod_less [OF y] c d)
qed

lemma decode_utf8_string:
  assumes "list_all (\<lambda>c. c < 65536) s" and "encodeURIComponent s = Inr u"
  shows "decodeURIComponent (escape (utf8_string s)) = Inr s"
  using assms
proof (induction s arbitrary: u rule: encodeURIComponent.induct)
  case 1
  then show ?case by (simp add: escape_def)
next
  case (2 c cs)
  show ?case
  proof (cases "is_lead c")
    case True
    then have unres: "\<not> uri_unreserved c" using unreserved_ascii [of c] by blast
    with True 2(5) obtain d ds r where cs: "cs = d # ds" "is_trail d"
      and r: "encodeURIComponent ds = Inr r"
      by (auto split: sum.splits list.splits if_splits)
    from 2(2) [OF unres True cs(1) cs(2) _ r] 2(4) cs(1)
    have ih: "decodeURIComponent (escape (utf8_string ds)) = Inr ds" by simp
    from pair_code_point_range [OF True cs(2)] have "scalar_value (pair_code_point c d)"
      by (simp add: scalar_value_def)
    from decode_code_point [OF this, of "escape (utf8_string ds)"] ih cs True
    show ?thesis by (simp add: escape_append utf16_pair)
  next
    case False
    note nl = this
    have "\<exists>r. encodeURIComponent cs = Inr r \<and> \<not> is_trail c"
    proof (cases "uri_unreserved c")
      case True
      with 2(5) unreserved_ascii [OF True] show ?thesis by (auto split: sum.splits)
    next
      case False
      with nl 2(5) show ?thesis by (auto split: sum.splits if_splits)
    qed
    then obtain r where r: "encodeURIComponent cs = Inr r" and nt: "\<not> is_trail c" by blast
    have ih: "decodeURIComponent (escape (utf8_string cs)) = Inr cs"
    proof (cases "uri_unreserved c")
      case True
      from 2(1) [OF True _ r] 2(4) show ?thesis by simp
    next
      case False
      from 2(3) [OF False nl nt _ r] 2(4) show ?thesis by simp
    qed
    from 2(4) have "c < 65536" by simp
    with nl nt have "scalar_value c" and "c \<le> 65535"
      unfolding scalar_value_def is_lead_def is_trail_def by linarith+
    from decode_code_point [OF this(1), of "escape (utf8_string cs)"] ih nl \<open>c \<le> 65535\<close>
    show ?thesis by (simp add: escape_append utf16_encode_code_point_def)
  qed
qed

lemma encode_defined: "(\<exists>u. encodeURIComponent s = Inr u) \<longleftrightarrow> well_formed s"
proof (induction s rule: encodeURIComponent.induct)
  case 1
  show ?case by simp
next
  case (2 c cs)
  show ?case
  proof (cases "uri_unreserved c")
    case True
    with 2(1) unreserved_ascii [OF True] show ?thesis by (auto split: sum.splits)
  next
    case False
    note unres = this
    show ?thesis
    proof (cases "is_lead c")
      case True
      show ?thesis
      proof (cases cs)
        case Nil
        with unres True show ?thesis by simp
      next
        case (Cons d ds)
        show ?thesis
        proof (cases "is_trail d")
          case trail: True
          from 2(2) [OF unres True Cons trail] unres True Cons trail show ?thesis
            by (auto split: sum.splits)
        next
          case False
          with unres True Cons show ?thesis by simp
        qed
      qed
    next
      case False
      show ?thesis
      proof (cases "is_trail c")
        case True
        with unres False show ?thesis by simp
      next
        case nt: False
        from 2(3) [OF unres False nt] unres False nt show ?thesis
          by (auto split: sum.splits)
      qed
    qed
  qed
qed

lemma base64encode_defined:
  assumes "list_all (\<lambda>c. c < 65536) s"
  shows "(\<exists>e. base64encode s = Inr e) \<longleftrightarrow> well_formed s"
proof
  assume "\<exists>e. base64encode s = Inr e"
  then have "\<exists>u. encodeURIComponent s = Inr u"
    by (auto simp: base64encode_def split: sum.splits)
  then show "well_formed s" by (simp add: encode_defined)
next
  assume "well_formed s"
  then obtain u where u: "encodeURIComponent s = Inr u" using encode_defined by blast
  from encode_unescape [OF assms u] utf8_string_bytes [OF assms u]
  have "\<forall>c \<in> set (unescape u). c \<le> 255" by auto
  with u show "\<exists>e. base64encode s = Inr e" by (simp add: base64encode_def btoa_def)
qed

section \<open>Truncation, the probe and the order of calls\<close>

lemma decode_plain: "\<forall>c \<in> set s. ascii_alnum c \<Longrightarrow> decodeURIComponent s = Inr s"
proof (induction s)
  case Nil
  then show ?case by simp
next
  case (Cons c s)
  then have "c \<noteq> 37" by (auto simp: ascii_alnum_def)
  with Cons show ?case by simp
qed

lemma plain_round_trip:
  assumes "\<forall>c \<in> set s. ascii_alnum c"
  shows "base64decode (b64_encode s) = Inr s"
proof -
  from assms have small: "\<forall>b \<in> set s. b < 256" by (auto simp: ascii_alnum_def)
  from assms have "escape s = s"
    by (induction s) (simp_all add: escape_def escape_unit_def escape_unreserved_def)
  with atob_b64_encode [OF small] decode_plain [OF assms] show ?thesis
    by (simp add: base64decode_def)
qed

lemma stepsD:
  "steps st m st' \<Longrightarrow> m s = Some (res, s') \<Longrightarrow>
   \<exists>tr. snd s' = snd s @ tr \<and>
     (\<forall>rest. (case res of Inl e \<Rightarrow> rest = [] | Inr x \<Rightarrow> in_order st' rest) \<longrightarrow>
        in_order st (tr @ rest))"
  unfolding steps_def by blast

lemma steps_ret: "steps st (ret x) st"
  by (simp add: steps_def ret_def)

lemma steps_throw: "steps st (throw e) st'"
  by (simp add: steps_def throw_def)

lemma steps_lift: "steps st (lift v) st"
  by (auto simp: steps_def lift_def split: sum.splits)

lemma steps_bind:
  assumes "steps st m st1" and "\<And>x. steps st1 (f x) st2"
  shows "steps st (bind m f) st2"
  unfolding steps_def
proof (intro allI impI)
  fix s res s'
  assume run: "bind m f s = Some (res, s')"
  show "\<exists>tr. snd s' = snd s @ tr \<and>
     (\<forall>rest. (case res of Inl e \<Rightarrow> rest = [] | Inr x \<Rightarrow> in_order st2 rest) \<longrightarrow>
        in_order st (tr @ rest))"
  proof (cases "m s")
    case None
    with run show ?thesis by (simp add: bind_def)
  next
    case (Some a)
    obtain v s1 where a: "a = (v, s1)" by (cases a)
    from stepsD [OF assms(1)] Some a obtain tr1
      where tr1: "snd s1 = snd s @ tr1"
        "\<And>rest. (case v of Inl e \<Rightarrow> rest = [] | Inr x \<Rightarrow> in_order st1 rest) \<Longrightarrow>
           in_order st (tr1 @ rest)"
      by blast
    show ?thesis
    proof (cases v)
      case (Inl e)
      with run Some a have "res = Inl e" "s' = s1" by (simp_all add: bind_def)
      with tr1 Inl show ?thesis by auto
    next
      case (Inr x)
      with run Some a have "f x s1 = Some (res, s')" by (simp add: bind_def)
      from stepsD [OF assms(2) this] obtain tr2
        where tr2: "snd s' = snd s1 @ tr2"
          "\<And>rest. (case res of Inl e \<Rightarrow> rest = [] | Inr x \<Rightarrow> in_order st2 rest) \<Longrightarrow>
             in_order st1 (tr2 @ rest)"
        by blast
      have "in_order st ((tr1 @ tr2) @ rest)"
        if "case res of Inl e \<Rightarrow> rest = [] | Inr x \<Rightarrow> in_order st2 rest" for rest
        using tr1(2) [of "tr2 @ rest"] tr2(2) [OF that] Inr by simp
      with tr1(1) tr2(1) show ?thesis by (intro exI [of _ "tr1 @ tr2"]) simp
    qed
  qed
qed

lemma steps_gh_request:
  assumes "\<And>r rest. in_order st' rest \<or> rest = [] \<Longrightarrow> succeeded r \<or> rest = [] \<Longrightarrow>
             in_order st ((Call m url (to_string token) body, r) # rest)"
  shows "steps st (gh_request R token m url body) st'"
  unfolding steps_def
proof (intro allI impI)
  fix s res s'
  assume run: "gh_request R token m url body s = Some (res, s')"
  obtain w tr where s: "s = (w, tr)" by (cases s)
  obtain r w' where r: "R w (Call m url (to_string token) body) = (r, w')"
    by (cases "R w (Call m url (to_string token) body)")
  from run s r have s': "snd s' = snd s @ [(Call m url (to_string token) body, r)]"
    and ok: "(\<exists>j. res = Inr j) \<longrightarrow> succeeded r"
    by (auto simp: gh_request_def io_defs perform_def succeeded_def
        split: reply.splits option.splits)
  have "in_order st ([(Call m url (to_string token) body, r)] @ rest)"
    if "case res of Inl e \<Rightarrow> rest = [] | Inr x \<Rightarrow> in_order st' rest" for rest
  proof (cases res)
    case (Inl e)
    with that show ?thesis using assms [of rest r] by simp
  next
    case (Inr j)
    with that ok show ?thesis using assms [of rest r] by auto
  qed
  with s' show "\<exists>tr. snd s' = snd s @ tr \<and>
     (\<forall>rest. (case res of Inl e \<Rightarrow> rest = [] | Inr x \<Rightarrow> in_order st' rest) \<longrightarrow>
        in_order st (tr @ rest))"
    by blast
qed

lemma steps_lookup: "steps Start (ghGet R token (Git_ref ow rp b)) Looked_up"
  unfolding ghGet_def
  by (rule steps_gh_request) (auto simp: is_lookup_def)

lemma steps_create: "steps Looked_up (ghPost R token (Git_refs ow rp) body) Branched"
  unfolding ghPost_def
  by (rule steps_gh_request) (auto simp: is_lookup_def is_branch_create_def)

lemma steps_write: "steps Branched (ghPut R token (Contents ow rp p rf) body) Branched"
  unfolding ghPut_def
  by (rule steps_gh_request) (auto simp: is_lookup_def is_branch_create_def is_probe_def
      is_file_write_def)

lemma steps_pull: "steps Branched (ghPost R token (Pulls ow rp) body) Opened"
  unfolding ghPost_def
  by (rule steps_gh_request) (auto simp: is_lookup_def is_branch_create_def is_probe_def
      is_file_write_def is_pr_create_def)

lemma steps_probe: "steps Branched (probe R token (Contents ow rp p rf)) Branched"
  unfolding steps_def
proof (intro allI impI)
  fix s res s'
  assume run: "probe R token (Contents ow rp p rf) s = Some (res, s')"
  obtain w tr where s: "s = (w, tr)" by (cases s)
  obtain r w' where r: "R w (Call GET (Contents ow rp p rf) (to_string token) None) = (r, w')"
    by (cases "R w (Call GET (Contents ow rp p rf) (to_string token) None)")
  from run s r have "snd s' = snd s @ [(Call GET (Contents ow rp p rf) (to_string token) None, r)]"
    and "\<exists>v. res = Inr v"
    by (auto simp: probe_def ghGet_def gh_request_def io_defs perform_def
        split: reply.splits option.splits sum.splits) metis+
  then show "\<exists>tr. snd s' = snd s @ tr \<and>
     (\<forall>rest. (case res of Inl e \<Rightarrow> rest = [] | Inr x \<Rightarrow> in_order Branched rest) \<longrightarrow>
        in_order Branched (tr @ rest))"
    by (auto simp: is_lookup_def is_branch_create_def is_probe_def)
qed

lemmas steps_seq =
  steps_bind [OF steps_lift] steps_bind [OF steps_lookup] steps_bind [OF steps_create]
  steps_bind [OF steps_write] steps_bind [OF steps_pull] steps_bind [OF steps_probe]

lemma steps_commit_file: "steps Branched (commit_file R token owner repo newBranch file) Branched"
  unfolding commit_file_def by (intro steps_seq steps_ret)

lemma steps_commit_files:
  "steps Branched (commit_files R token owner repo newBranch files acc) Branched"
proof (induction files arbitrary: acc)
  case Nil
  show ?case by (simp add: steps_ret)
next
  case (Cons f fs)
  show ?case
    unfolding commit_files.simps
    by (rule steps_bind [OF steps_commit_file]) (rule Cons)
qed

lemma steps_apply_changes:
  "steps Start (apply_changes R now token owner repo baseBranch note hr) Opened"
  unfolding apply_changes_def Let_def
  by (intro steps_seq steps_bind [OF steps_commit_files] steps_ret)

lemma in_order_Opened: "in_order Opened tr \<longleftrightarrow> tr = []"
  by (cases tr) (auto split: if_splits)

lemma in_order_ranked:
  "in_order st tr \<Longrightarrow>
   sorted (map (\<lambda>x. call_rank (fst x)) tr) \<and> (\<forall>x \<in> set tr. stage_rank st \<le> call_rank (fst x))"
proof (induction tr arbitrary: st)
  case Nil
  then show ?case by simp
next
  case (Cons x tr)
  obtain c r where x: "x = (c, r)" by (cases x)
  consider (k1) "is_lookup c"
    | (k2) "\<not> is_lookup c" "is_branch_create c"
    | (k3) "\<not> is_lookup c" "\<not> is_branch_create c" "is_probe c"
    | (k4) "\<not> is_lookup c" "\<not> is_branch_create c" "\<not> is_probe c" "is_file_write c"
    | (k5) "\<not> is_lookup c" "\<not> is_branch_create c" "\<not> is_probe c" "\<not> is_file_write c"
    by blast
  then show ?case
  proof cases
    case k1
    with Cons(2) x have st: "st = Start" and rest: "in_order Looked_up tr \<or> tr = []"
      by (auto split: if_splits)
    from rest Cons(1) [of Looked_up]
    have "sorted (map (\<lambda>x. call_rank (fst x)) tr)" by auto
    with k1 x st show ?thesis by (simp add: call_rank_def)
  next
    case k2
    with Cons(2) x have st: "st = Looked_up" and rest: "in_order Branched tr \<or> tr = []"
      by (auto split: if_splits)
    from rest Cons(1) [of Branched]
    have "sorted (map (\<lambda>x. call_rank (fst x)) tr) \<and> (\<forall>x \<in> set tr. 2 \<le> call_rank (fst x))"
      by auto
    with k2 x st show ?thesis by (auto simp: call_rank_def)
  next
    case k3
    with Cons(2) x have st: "st = Branched" and rest: "in_order Branched tr" by auto
    from Cons(1) [OF rest]
    have "sorted (map (\<lambda>x. call_rank (fst x)) tr) \<and> (\<forall>x \<in> set tr. 2 \<le> call_rank (fst x))"
      by simp
    with k3 x st show ?thesis by (auto simp: call_rank_def)
  next
    case k4
    with Cons(2) x have st: "st = Branched" and rest: "in_order Branched tr \<or> tr = []"
      by (auto split: if_splits)
    from rest Cons(1) [of Branched]
    have "sorted (map (\<lambda>x. call_rank (fst x)) tr) \<and> (\<forall>x \<in> set tr. 2 \<le> call_rank (fst x))"
      by auto
    with k4 x st show ?thesis by (auto simp: call_rank_def)
  next
    case k5
    with Cons(2) x have st: "st = Branched" and rest: "in_order Opened tr \<or> tr = []"
      by (auto split: if_splits)
    then have "tr = []" by (simp add: in_order_Opened)
    with k5 x st show ?thesis by (simp add: call_rank_def)
  qed
qed

lemma before_ranked:
  assumes "sorted (map (\<lambda>x. call_rank (fst x)) tr)"
    and "\<And>c. A c \<Longrightarrow> call_rank c = a" and "\<And>c. B c \<Longrightarrow> call_rank c = b" and "a < b"
  shows "before A B tr"
  unfolding before_def
proof (intro allI impI, elim conjE)
  fix i j
  assume i: "i < length tr" and j: "j < length tr" and "A (fst (tr ! i))" "B (fst (tr ! j))"
  with assms(2,3) have ranks: "call_rank (fst (tr ! i)) = a" "call_rank (fst (tr ! j)) = b"
    by simp_all
  show "i < j"
  proof (rule ccontr)
    assume "\<not> i < j"
    then have "j \<le> i" by simp
    with assms(1) i have "map (\<lambda>x. call_rank (fst x)) tr ! j \<le> map (\<lambda>x. call_rank (fst x)) tr ! i"
      by (simp add: sorted_iff_nth_mono)
    with i j ranks assms(4) show False by simp
  qed
qed

lemma rank_of_kind:
  "is_lookup c \<Longrightarrow> call_rank c = 0"
  "is_branch_create c \<Longrightarrow> call_rank c = 1"
  "is_file_write c \<Longrightarrow> call_rank c = 2"
  "is_pr_create c \<Longrightarrow> call_rank c = 3"
  by (auto simp: call_rank_def is_lookup_def is_branch_create_def is_file_write_def
      is_pr_create_def is_probe_def split: endpoint.splits)

lemma in_order_before:
  assumes "in_order st tr"
  shows "before is_lookup is_branch_create tr" and "before is_branch_create is_file_write tr"
    and "before is_file_write is_pr_create tr"
proof -
  from in_order_ranked [OF assms] have sorted: "sorted (map (\<lambda>x. call_rank (fst x)) tr)" by simp
  show "before is_lookup is_branch_create tr"
    by (rule before_ranked [OF sorted rank_of_kind(1) rank_of_kind(2)]) simp_all
  show "before is_branch_create is_file_write tr"
    by (rule before_ranked [OF sorted rank_of_kind(2) rank_of_kind(3)]) simp_all
  show "before is_file_write is_pr_create tr"
    by (rule before_ranked [OF sorted rank_of_kind(3) rank_of_kind(4)]) simp_all
qed

lemma returnsD: "returns m \<Longrightarrow> \<exists>res s'. m s = Some (res, s')"
  unfolding returns_def by (metis not_None_eq surj_pair)

lemma returns_ret: "returns (ret x)"
  by (simp add: returns_def ret_def)

lemma returns_throw: "returns (throw e)"
  by (simp add: returns_def throw_def)

lemma returns_lift: "returns (lift v)"
  by (simp add: returns_def lift_def)

lemma returns_perform: "returns (perform R c)"
  by (simp add: returns_def perform_def split: prod.splits)

lemma returns_bind: "returns m \<Longrightarrow> (\<And>x. returns (f x)) \<Longrightarrow> returns (bind m f)"
  by (auto simp: returns_def bind_def split: option.splits sum.splits prod.splits)

lemma returns_reply_case:
  assumes "\<And>m. returns (f1 m)" and "\<And>st t. returns (f2 st t)" and "returns f3"
    and "\<And>j. returns (f4 j)"
  shows "returns (case res of Net_failure m \<Rightarrow> f1 m | Http_error st t \<Rightarrow> f2 st t
           | Http_ok None \<Rightarrow> f3 | Http_ok (Some j) \<Rightarrow> f4 j)"
  using assms by (simp split: reply.splits option.splits)

lemmas returns_intros =
  returns_bind returns_lift returns_ret returns_throw returns_perform returns_reply_case

lemma returns_gh_request: "returns (gh_request R token m url body)"
  unfolding gh_request_def by (intro returns_intros)

lemma returns_probe: "returns (probe R token url)"
  using returns_gh_request [of R token GET url None]
  by (auto simp: returns_def probe_def ghGet_def split: option.splits sum.splits prod.splits)

lemma returns_commit_file: "returns (commit_file R token owner repo newBranch f)"
  unfolding commit_file_def ghPut_def by (intro returns_intros returns_probe returns_gh_request)

lemma returns_commit_files: "returns (commit_files R token owner repo newBranch fs acc)"
  by (induction fs arbitrary: acc) (auto intro!: returns_ret returns_bind returns_commit_file)

lemma returns_apply_changes: "returns (apply_changes R now token owner repo baseBranch note hr)"
  unfolding apply_changes_def Let_def ghGet_def ghPost_def
  by (intro returns_intros returns_gh_request returns_commit_files)

lemma write_payload_sha:
  "get_prop (Some (write_payload path encoded newBranch ex)) (lit ''sha'') =
     Inr (if truthy ex then ex else None)"
proof (cases ex)
  case None
  then show ?thesis
    by (simp add: write_payload_def mk_obj_def List.map_filter_simps lit_def)
next
  case (Some j)
  then show ?thesis
    by (simp add: write_payload_def mk_obj_def List.map_filter_simps lit_def)
qed

lemma update_result_status:
  "get_prop (Some (update_result path ex c)) (lit ''status'') =
     Inr (Some (JStr (if truthy ex then lit ''updated'' else lit ''created'')))"
  by (cases path) (simp_all add: update_result_def mk_obj_def List.map_filter_simps lit_def)

lemma probe_run:
  assumes "R w (Call GET url (to_string token) None) = (rp, w1)"
  shows "\<exists>ex. probe R token url (w, tr) =
            Some (Inr ex, (w1, tr @ [(Call GET url (to_string token) None, rp)])) \<and>
          (truthy ex \<longrightarrow> yields_sha rp ex) \<and> (\<not> truthy ex \<longrightarrow> (\<forall>sha. \<not> yields_sha rp sha))"
proof (cases rp)
  case (Net_failure m)
  with assms show ?thesis
    by (simp add: probe_def ghGet_def gh_request_def io_defs perform_def yields_sha_def)
next
  case (Http_error st t)
  with assms show ?thesis
    by (simp add: probe_def ghGet_def gh_request_def io_defs perform_def yields_sha_def)
next
  case (Http_ok jo)
  show ?thesis
  proof (cases jo)
    case None
    with Http_ok assms show ?thesis
      by (simp add: probe_def ghGet_def gh_request_def io_defs perform_def yields_sha_def)
  next
    case (Some existing)
    show ?thesis
    proof (cases "get_prop (Some existing) (lit ''sha'')")
      case (Inl e)
      with Some Http_ok assms show ?thesis
        by (simp add: probe_def ghGet_def gh_request_def io_defs perform_def yields_sha_def)
    next
      case (Inr sha)
      with Some Http_ok assms show ?thesis
        by (auto simp: probe_def ghGet_def gh_request_def io_defs perform_def yields_sha_def)
    qed
  qed
qed

lemma ghPut_run:
  assumes "R w (Call PUT url (to_string token) (Some body)) = (rw, w2)"
  shows "\<exists>res. ghPut R token url body (w, tr) =
           Some (res, (w2, tr @ [(Call PUT url (to_string token) (Some body), rw)]))"
  using assms
  by (auto simp: ghPut_def gh_request_def io_defs perform_def split: reply.splits option.splits)

lemma demo_change_props:
  "get_prop (Some demo_change) (lit ''content'') = Inr (Some (JStr (lit ''new'')))"
  "get_prop (Some demo_change) (lit ''path'') = Inr (Some (JStr (lit ''src/a.txt'')))"
  by (simp_all add: demo_change_def mk_obj_def List.map_filter_simps lit_def)

lemma demo_rewrite_change:
  "get_prop (Some demo_rewrite) (lit ''files'') = Inr (Some (JArr [demo_change]))"
  "iterate (Some (JArr [demo_change])) = Inr [demo_change]"
  by (simp_all add: demo_rewrite_def demo_change_def mk_obj_def List.map_filter_simps lit_def)

lemma demo_apply_run:
  "apply_changes (demo_remote reply) 0 (GITHUB_TOKEN demo_env) (p_owner (demo_params True))
     (p_repo (demo_params True)) (p_baseBranch (demo_params True)) (p_note (demo_params True))
     demo_rewrite ((), tr) =
   Some (Inr (demo_applied
           [update_result (Some (JStr (lit ''src/a.txt''))) (Some (JStr (lit ''blob1'')))
              (Some (JStr (lit ''c1'')))]),
         ((), tr @ demo_trace))"
  unfolding demo_trace_def
  by (rule demo_apply_one [OF demo_rewrite_change demo_rewrite_props(2) demo_change_props(1) _
        demo_change_props(2)])
    (simp_all add: demo_encode demo_encode_path)

text \<open>In the scenario the probe finds the blob and the write is an update; on a remote
  side without the file the probe fails and the write is a creation.\<close>

lemma demo_commit_updates:
  "commit_file (demo_remote reply) (Some (JStr (lit ''ghp''))) (Some (JStr (lit ''acme'')))
     (Some (JStr (lit ''site''))) demo_branch demo_change ((), []) =
   Some (Inr (update_result (Some (JStr (lit ''src/a.txt''))) (Some (JStr (lit ''blob1'')))
                (Some (JStr (lit ''c1'')))),
         ((), [demo_probe (lit ''src%2Fa.txt''),
               demo_write (lit ''src%2Fa.txt'') (Some (JStr (lit ''src/a.txt''))) (lit ''bmV3'')]))"
  using demo_commit_file [OF demo_change_props(1) _ demo_change_props(2), of "lit ''bmV3''"
      "lit ''src%2Fa.txt''" reply "[]"]
  by (simp add: demo_encode demo_encode_path)


section \<open>The walk over a fixed tree\<close>

text \<open>
  Over a remote side that does not change, a walk that returns has added to the
  accumulator exactly the eligible files under its path, by induction on the walk.
\<close>

lemma eligible_not_oversize:
  "eligible F P owner repo branch token q \<Longrightarrow> \<not> oversize F P owner repo branch token q"
  by (auto simp: eligible_def oversize_def)

lemma bind_Inr_E:
  assumes "bind m f s = Some (Inr y, s')"
  obtains x s1 where "m s = Some (Inr x, s1)" and "f x s1 = Some (Inr y, s')"
  using assms by (auto simp: bind_def split: option.splits sum.splits prod.splits)

lemma pushFile_static:
  assumes "pushFile (static F) P owner repo branch q token out s = Some (Inr out', s')"
  shows "out' = out \<and> \<not> eligible F P owner repo branch token q \<or>
         (\<exists>stored. out' = out @ [Collected_file q stored]) \<and>
           eligible F P owner repo branch token q"
  using assms unfolding pushFile_def
  by (auto simp: bind_def lift_def ret_def throw_def perform_def static_def eligible_def
        contents_reply_def
      split: sum.splits option.splits reply.splits prod.splits if_splits)

lemma gathered_none: "(\<And>q. U q \<Longrightarrow> \<not> E q) \<Longrightarrow> gathered U E out out"
  by (auto simp: gathered_def)

lemma gathered_cong: "gathered U E out out' \<Longrightarrow> (\<And>q. U' q = U q) \<Longrightarrow> gathered U' E out out'"
  by (simp add: gathered_def)

lemma gathered_append:
  assumes "gathered U1 E out out1" and "gathered U2 E out1 out2"
  shows "gathered (\<lambda>q. U1 q \<or> U2 q) E out out2"
proof -
  from assms(1) obtain new1 where 1: "out1 = out @ new1"
    "\<forall>f \<in> set new1. U1 (file_path f) \<and> E (file_path f)"
    "\<forall>q. U1 q \<and> E q \<longrightarrow> q \<in> file_path ` set new1"
    unfolding gathered_def by blast
  from assms(2) obtain new2 where 2: "out2 = out1 @ new2"
    "\<forall>f \<in> set new2. U2 (file_path f) \<and> E (file_path f)"
    "\<forall>q. U2 q \<and> E q \<longrightarrow> q \<in> file_path ` set new2"
    unfolding gathered_def by blast
  have "out2 = out @ (new1 @ new2)" using 1(1) 2(1) by simp
  moreover have "\<forall>f \<in> set (new1 @ new2). (U1 (file_path f) \<or> U2 (file_path f)) \<and> E (file_path f)"
    using 1(2) 2(2) by auto
  moreover have "\<forall>q. (U1 q \<or> U2 q) \<and> E q \<longrightarrow> q \<in> file_path ` set (new1 @ new2)"
    using 1(3) 2(3) by auto
  ultimately show ?thesis unfolding gathered_def by blast
qed

lemma gathered_push:
  assumes "pushFile (static F) P owner repo branch q0 token out s = Some (Inr out', s')"
  shows "gathered (\<lambda>q. q = q0) (eligible F P owner repo branch token) out out'"
  using pushFile_static [OF assms] by (auto simp: gathered_def)

lemma lit_distinct [simp]:
  "lit ''type'' \<noteq> lit ''length''" "lit ''file'' \<noteq> lit ''dir''" "lit ''dir'' \<noteq> lit ''file''"
  by (simp_all add: lit_def)

lemma perform_static_run:
  "perform (static F) c s = Some (Inr (F c), fst s, snd s @ [(c, F c)])"
  by (cases s) (simp add: perform_def static_def)

lemma crawl_reply:
  assumes "crawlGitHubDir (static F) P (Suc n) owner repo branch path token out s =
             Some (Inr out', s')"
  shows "(\<exists>st t. contents_reply F owner repo branch token path = Some (Http_error st t)) \<or>
         (\<exists>data. contents_reply F owner repo branch token path = Some (Http_ok (Some data)))"
  using assms unfolding crawlGitHubDir.simps
  by (auto simp: bind_def lift_def ret_def throw_def perform_static_run contents_reply_def
      split: sum.splits option.splits reply.splits)

lemma crawl_failed:
  assumes "crawlGitHubDir (static F) P (Suc n) owner repo branch path token out s =
             Some (Inr out', s')"
    and "contents_reply F owner repo branch token path = Some (Http_error st t)"
  shows "out' = out"
  using assms unfolding crawlGitHubDir.simps
  by (auto simp: bind_def lift_def ret_def throw_def perform_static_run contents_reply_def
      split: sum.splits option.splits reply.splits)

lemma crawl_listing:
  assumes "crawlGitHubDir (static F) P (Suc n) owner repo branch path token out s =
             Some (Inr out', s')"
    and "contents_reply F owner repo branch token path = Some (Http_ok (Some (JArr items)))"
  shows "\<exists>s1. crawl_items (static F) P n owner repo branch token items out s1 =
           Some (Inr out', s')"
  using assms unfolding crawlGitHubDir.simps
  by (auto simp: bind_def lift_def ret_def throw_def perform_static_run contents_reply_def
      split: sum.splits option.splits reply.splits) blast

lemma crawl_single:
  assumes "crawlGitHubDir (static F) P (Suc n) owner repo branch path token out s =
             Some (Inr out', s')"
    and "contents_reply F owner repo branch token path = Some (Http_ok (Some data))"
    and "\<forall>items. data \<noteq> JArr items"
  shows "\<exists>ty. get_prop (Some data) (lit ''type'') = Inr ty \<and>
           (ty \<noteq> Some (JStr (lit ''file'')) \<and> out' = out \<or>
            ty = Some (JStr (lit ''file'')) \<and>
              (\<exists>pth s1. get_prop (Some data) (lit ''path'') = Inr pth \<and>
                 pushFile (static F) P owner repo branch pth token out s1 = Some (Inr out', s')))"
  using assms unfolding crawlGitHubDir.simps
  by (cases data)
    (auto simp: bind_def lift_def ret_def throw_def perform_static_run contents_reply_def
      split: sum.splits option.splits reply.splits if_splits)

lemma items_type:
  assumes "crawl_items (static F) P n owner repo branch token (item # items) out s =
             Some (Inr out', s')"
  shows "\<exists>ty. get_prop (Some item) (lit ''type'') = Inr ty"
  using assms unfolding crawl_items.simps
  by (auto simp: bind_def lift_def split: sum.splits)

lemma items_dir:
  assumes "crawl_items (static F) P n owner repo branch token (item # items) out s =
             Some (Inr out', s')"
    and "get_prop (Some item) (lit ''type'') = Inr (Some (JStr (lit ''dir'')))"
  shows "\<exists>pth out1 s1. get_prop (Some item) (lit ''path'') = Inr pth \<and>
           crawlGitHubDir (static F) P n owner repo branch pth token out s = Some (Inr out1, s1) \<and>
           crawl_items (static F) P n owner repo branch token items out1 s1 = Some (Inr out', s')"
  using assms unfolding crawl_items.simps
  by (auto simp: bind_def lift_def split: sum.splits option.splits prod.splits)

lemma items_file:
  assumes "crawl_items (static F) P n owner repo branch token (item # items) out s =
             Some (Inr out', s')"
    and "get_prop (Some item) (lit ''type'') = Inr (Some (JStr (lit ''file'')))"
  shows "\<exists>pth out1 s1. get_prop (Some item) (lit ''path'') = Inr pth \<and>
           pushFile (static F) P owner repo branch pth token out s = Some (Inr out1, s1) \<and>
           crawl_items (static F) P n owner repo branch token items out1 s1 = Some (Inr out', s')"
  using assms unfolding crawl_items.simps
  by (auto simp: bind_def lift_def split: sum.splits option.splits prod.splits)

lemma items_other:
  assumes "crawl_items (static F) P n owner repo branch token (item # items) out s =
             Some (Inr out', s')"
    and "get_prop (Some item) (lit ''type'') = Inr ty"
    and "ty \<noteq> Some (JStr (lit ''dir''))" and "ty \<noteq> Some (JStr (lit ''file''))"
  shows "crawl_items (static F) P n owner repo branch token items out s = Some (Inr out', s')"
  using assms unfolding crawl_items.simps
  by (auto simp: bind_def lift_def split: sum.splits option.splits prod.splits)

lemma files_under_failed:
  assumes "contents_reply F owner repo branch token path = Some (Http_error st t)"
  shows "\<not> files_under F owner repo branch token path q"
  using assms by (auto elim: files_under.cases)

lemma files_under_listing:
  assumes "contents_reply F owner repo branch token path = Some (Http_ok (Some (JArr items)))"
  shows "files_under F owner repo branch token path q =
           items_under F owner repo branch token items q"
proof
  assume "files_under F owner repo branch token path q"
  then show "items_under F owner repo branch token items q"
    using assms by (cases rule: files_under.cases) (auto simp: items_under_def)
next
  assume "items_under F owner repo branch token items q"
  then show "files_under F owner repo branch token path q"
    using assms unfolding items_under_def
    by (auto intro: files_under.listed files_under.nested)
qed

lemma files_under_single:
  assumes "contents_reply F owner repo branch token path = Some (Http_ok (Some data))"
    and "\<forall>items. data \<noteq> JArr items"
  shows "files_under F owner repo branch token path q \<longleftrightarrow>
           get_prop (Some data) (lit ''type'') = Inr (Some (JStr (lit ''file''))) \<and>
           get_prop (Some data) (lit ''path'') = Inr q"
proof
  assume "files_under F owner repo branch token path q"
  then show "get_prop (Some data) (lit ''type'') = Inr (Some (JStr (lit ''file''))) \<and>
           get_prop (Some data) (lit ''path'') = Inr q"
    using assms by (cases rule: files_under.cases) auto
next
  assume "get_prop (Some data) (lit ''type'') = Inr (Some (JStr (lit ''file''))) \<and>
           get_prop (Some data) (lit ''path'') = Inr q"
  then show "files_under F owner repo branch token path q"
    using assms by (auto intro: files_under.single)
qed

lemma items_under_Nil [simp]: "\<not> items_under F owner repo branch token [] q"
  by (simp add: items_under_def)

lemma items_under_Cons:
  "items_under F owner repo branch token (item # items) q \<longleftrightarrow>
     (get_prop (Some item) (lit ''type'') = Inr (Some (JStr (lit ''file''))) \<and>
        get_prop (Some item) (lit ''path'') = Inr q \<or>
      get_prop (Some item) (lit ''type'') = Inr (Some (JStr (lit ''dir''))) \<and>
        (\<exists>d. get_prop (Some item) (lit ''path'') = Inr d \<and>
           files_under F owner repo branch token d q)) \<or>
     items_under F owner repo branch token items q"
  by (simp add: items_under_def)

lemma crawl_static:
  "\<forall>s out' s'.
     crawlGitHubDir (static F :: 'w remote) P n owner repo branch path token out s = Some (Inr out', s') \<longrightarrow>
     gathered (files_under F owner repo branch token path)
       (eligible F P owner repo branch token) out out'"
  "\<forall>s out' s'.
     crawl_items (static F :: 'w remote) P n owner repo branch token items out s =
       Some (Inr out', s') \<longrightarrow>
     gathered (items_under F owner repo branch token items)
       (eligible F P owner repo branch token) out out'"
proof (induction "static F :: 'w remote" P n owner repo branch path token out
    and "static F :: 'w remote" P n owner repo branch token items out
    rule: crawlGitHubDir_crawl_items.induct)
  case (1 P owner repo branch path token out)
  show ?case by simp
next
  case (2 P n owner repo branch path token out)
  show ?case
  proof (intro allI impI)
    fix s out' s'
    assume run: "crawlGitHubDir (static F :: 'w remote) P (Suc n) owner repo branch path token out s =
      Some (Inr out', s')"
    from crawl_reply [OF run] consider
      (failed) st t where "contents_reply F owner repo branch token path = Some (Http_error st t)"
      | (listing) items where
          "contents_reply F owner repo branch token path = Some (Http_ok (Some (JArr items)))"
      | (one) data where
          "contents_reply F owner repo branch token path = Some (Http_ok (Some data))"
          "\<forall>items. data \<noteq> JArr items"
      by blast
    then show "gathered (files_under F owner repo branch token path)
       (eligible F P owner repo branch token) out out'"
    proof cases
      case failed
      from crawl_failed [OF run failed] files_under_failed [OF failed]
      show ?thesis by (auto intro: gathered_none)
    next
      case listing
      from crawl_listing [OF run listing] obtain s1 where
        "crawl_items (static F) P n owner repo branch token items out s1 = Some (Inr out', s')"
        by blast
      then have "gathered (items_under F owner repo branch token items)
          (eligible F P owner repo branch token) out out'"
        by (rule 2 [OF refl, rule_format])
      then show ?thesis
        by (rule gathered_cong) (rule files_under_listing [OF listing])
    next
      case one
      from crawl_single [OF run one] obtain ty where
        ty: "get_prop (Some data) (lit ''type'') = Inr ty"
        and alt: "ty \<noteq> Some (JStr (lit ''file'')) \<and> out' = out \<or>
            ty = Some (JStr (lit ''file'')) \<and>
              (\<exists>pth s1. get_prop (Some data) (lit ''path'') = Inr pth \<and>
                 pushFile (static F) P owner repo branch pth token out s1 = Some (Inr out', s'))"
        by blast
      from alt show ?thesis
      proof
        assume "ty \<noteq> Some (JStr (lit ''file'')) \<and> out' = out"
        with ty files_under_single [OF one] show ?thesis
          by (auto intro: gathered_none)
      next
        assume "ty = Some (JStr (lit ''file'')) \<and>
              (\<exists>pth s1. get_prop (Some data) (lit ''path'') = Inr pth \<and>
                 pushFile (static F) P owner repo branch pth token out s1 = Some (Inr out', s'))"
        then obtain pth s1 where isfile: "ty = Some (JStr (lit ''file''))"
          and pth: "get_prop (Some data) (lit ''path'') = Inr pth"
          and push: "pushFile (static F) P owner repo branch pth token out s1 = Some (Inr out', s')"
          by blast
        from gathered_push [OF push] show ?thesis
          by (rule gathered_cong) (use ty isfile pth files_under_single [OF one] in auto)
      qed
    qed
  qed
next
  case (3 P n owner repo branch token out)
  show ?case by (auto simp: ret_def intro: gathered_none)
next
  case (4 P n owner repo branch token item items out)
  show ?case
  proof (intro allI impI)
    fix s out' s'
    assume run: "crawl_items (static F :: 'w remote) P n owner repo branch token (item # items) out s =
      Some (Inr out', s')"
    from items_type [OF run] obtain ty where ty: "get_prop (Some item) (lit ''type'') = Inr ty"
      by blast
    consider (k1) "ty = Some (JStr (lit ''dir''))" | (k2) "ty = Some (JStr (lit ''file''))"
      | (k3) "ty \<noteq> Some (JStr (lit ''dir''))" "ty \<noteq> Some (JStr (lit ''file''))"
      by blast
    then show "gathered (items_under F owner repo branch token (item # items))
       (eligible F P owner repo branch token) out out'"
    proof cases
      case k1
      from items_dir [OF run ty [unfolded k1]] obtain pth out1 s1 where
        pth: "get_prop (Some item) (lit ''path'') = Inr pth"
        and sub: "crawlGitHubDir (static F) P n owner repo branch pth token out s =
          Some (Inr out1, s1)"
        and rest: "crawl_items (static F) P n owner repo branch token items out1 s1 =
          Some (Inr out', s')"
        by blast
      have g1: "gathered (files_under F owner repo branch token pth)
          (eligible F P owner repo branch token) out out1"
        by (rule 4(1) [OF k1, rule_format, OF sub])
      have g2: "gathered (items_under F owner repo branch token items)
          (eligible F P owner repo branch token) out1 out'"
        by (rule 4(2) [OF k1, rule_format, OF rest])
      from gathered_append [OF g1 g2] show ?thesis
        by (rule gathered_cong) (use ty k1 pth in \<open>auto simp: items_under_Cons\<close>)
    next
      case k2
      from items_file [OF run ty [unfolded k2]] obtain pth out1 s1 where
        pth: "get_prop (Some item) (lit ''path'') = Inr pth"
        and push: "pushFile (static F) P owner repo branch pth token out s = Some (Inr out1, s1)"
        and rest: "crawl_items (static F) P n owner repo branch token items out1 s1 =
          Some (Inr out', s')"
        by blast
      have g1: "gathered (\<lambda>q. q = pth) (eligible F P owner repo branch token) out out1"
        by (rule gathered_push [OF push])
      have "ty \<noteq> Some (JStr (lit ''dir''))" using k2 by simp
      then have g2: "gathered (items_under F owner repo branch token items)
          (eligible F P owner repo branch token) out1 out'"
        by (rule 4(3) [OF _ k2, rule_format, OF _ rest])
      from gathered_append [OF g1 g2] show ?thesis
        by (rule gathered_cong) (use ty k2 pth in \<open>auto simp: items_under_Cons\<close>)
    next
      case k3
      have "gathered (items_under F owner repo branch token items)
          (eligible F P owner repo branch token) out out'"
        by (rule 4(4) [OF k3, rule_format, OF items_other [OF run ty k3]])
      then show ?thesis
        by (rule gathered_cong) (use ty k3 in \<open>auto simp: items_under_Cons\<close>)
    qed
  qed
qed

lemma crawl_paths_static:
  "crawl_paths (static F :: 'w remote) P n owner repo branch token ps out s = Some (Inr out', s') \<Longrightarrow>
   gathered (\<lambda>q. \<exists>p \<in> set ps. files_under F owner repo branch token (Some p) q)
     (eligible F P owner repo branch token) out out'"
proof (induction ps arbitrary: out s)
  case Nil
  then show ?case by (auto simp: ret_def intro: gathered_none)
next
  case (Cons p ps)
  from Cons.prems obtain out1 s1 where
    sub: "crawlGitHubDir (static F) P n owner repo branch (Some p) token out s = Some (Inr out1, s1)"
    and rest: "crawl_paths (static F) P n owner repo branch token ps out1 s1 = Some (Inr out', s')"
    unfolding crawl_paths.simps by (rule bind_Inr_E)
  have g1: "gathered (files_under F owner repo branch token (Some p))
      (eligible F P owner repo branch token) out out1"
    by (rule crawl_static(1) [rule_format, OF sub])
  have g2: "gathered (\<lambda>q. \<exists>p \<in> set ps. files_under F owner repo branch token (Some p) q)
      (eligible F P owner repo branch token) out1 out'"
    by (rule Cons.IH [OF rest])
  from gathered_append [OF g1 g2] show ?case
    by (rule gathered_cong) auto
qed

lemma pushFile_oversize:
  assumes "oversize F P owner repo branch token q"
  shows "\<exists>s1. pushFile (static F :: 'w remote) P owner repo branch q token out s = Some (Inr out, s1)"
proof -
  from assms obtain meta sz where
    reply: "contents_reply F owner repo branch token q = Some (Http_ok (Some meta))"
    and sz: "get_prop (Some meta) (lit ''size'') = Inr sz" and big: "js_gt P sz 120000"
    unfolding oversize_def by blast
  from sz obtain content where content: "get_prop (Some meta) (lit ''content'') = Inr content"
    by (cases meta) simp_all
  from reply sz big content show ?thesis
    unfolding pushFile_def
    by (auto simp: bind_def lift_def ret_def perform_static_run contents_reply_def
        split: sum.splits)
qed

lemma sized_paths:
  "encodeURIComponent (lit ''src'') = Inr (lit ''src'')"
  "encodeURIComponent (lit ''src/big.bin'') = Inr (lit ''src%2Fbig.bin'')"
  by (simp_all add: codec_defs lit_def)

lemma sized_replies:
  "sized_tree (Call GET (Contents a b (lit ''src'') d) t None) = Http_ok (Some sized_listing)"
  "sized_tree (Call GET (Contents a b (lit ''src%2Fa.txt'') d) t None) = Http_ok (Some demo_file)"
  "sized_tree (Call GET (Contents a b (lit ''src%2Fbig.bin'') d) t None) =
     Http_ok (Some oversize_file)"
  by (simp_all add: sized_tree_def lit_def)

lemma oversize_file_props:
  "get_prop (Some oversize_file) (lit ''content'') = Inr (Some (JStr (lit ''b2xk'')))"
  "get_prop (Some oversize_file) (lit ''size'') = Inr (Some (JNum 200000))"
  by (simp_all add: oversize_file_def mk_obj_def List.map_filter_simps lit_def)

lemma sized_item_props:
  "get_prop (Some (mk_obj [(''type'', Some (JStr (lit ''file''))), (''path'', Some (JStr p))]))
     (lit ''type'') = Inr (Some (JStr (lit ''file'')))"
  "get_prop (Some (mk_obj [(''type'', Some (JStr (lit ''file''))), (''path'', Some (JStr p))]))
     (lit ''path'') = Inr (Some (JStr p))"
  by (simp_all add: mk_obj_def List.map_filter_simps lit_def)

lemma sized_small: "\<not> js_gt demo_platform (Some (JNum 3)) 120000"
  by (simp add: js_gt_def to_number_def)

lemma sized_big: "js_gt demo_platform (Some (JNum 200000)) 120000"
  by (simp add: js_gt_def to_number_def)

lemma sized_content: "lit ''b2xk'' \<noteq> []"
  by (simp add: lit_def)

lemma sized_push_small:
  "pushFile (static sized_tree) demo_platform (Some (JStr (lit ''acme'')))
      (Some (JStr (lit ''site''))) (Some (JStr (lit ''main''))) (Some (JStr (lit ''src/a.txt'')))
      (Some (JStr (lit ''ghp''))) out ((), tr) =
    Some (Inr (out @ demo_collected), ((), tr @ [sized_read (lit ''src%2Fa.txt'') demo_file]))"
proof -
  have "take 7000 (lit ''old'') = lit ''old''" by (simp add: lit_def)
  then show ?thesis
    by (simp add: pushFile_def demo_encode_path io_defs perform_static_run sized_replies
        demo_file_props sized_small sized_content demo_decode sized_read_def demo_collected_def)
qed

lemma sized_push_big:
  "pushFile (static sized_tree) demo_platform (Some (JStr (lit ''acme'')))
      (Some (JStr (lit ''site''))) (Some (JStr (lit ''main''))) (Some (JStr (lit ''src/big.bin'')))
      (Some (JStr (lit ''ghp''))) out ((), tr) =
    Some (Inr out, ((), tr @ [sized_read (lit ''src%2Fbig.bin'') oversize_file]))"
  by (simp add: pushFile_def sized_paths io_defs perform_static_run sized_replies
      oversize_file_props sized_big sized_content sized_read_def)

lemma sized_collect:
  "collect (static sized_tree) demo_platform (Suc (Suc 0)) demo_env sized_params ((), []) =
     Some (Inr demo_collected, ((), sized_trace))"
proof -
  have items: "crawl_items (static sized_tree) demo_platform (Suc 0) (Some (JStr (lit ''acme'')))
      (Some (JStr (lit ''site''))) (Some (JStr (lit ''main''))) (Some (JStr (lit ''ghp'')))
      [mk_obj [(''type'', Some (JStr (lit ''file''))), (''path'', Some (JStr (lit ''src/a.txt'')))],
       mk_obj [(''type'', Some (JStr (lit ''file''))), (''path'', Some (JStr (lit ''src/big.bin'')))]]
      [] ((), [sized_read (lit ''src'') sized_listing]) =
    Some (Inr demo_collected, ((), sized_trace))"
    by (simp add: io_defs sized_item_props sized_push_small sized_push_big sized_trace_def)
  have listing: "get_prop (Some sized_listing) (lit ''type'') = Inr None"
    by (simp add: sized_listing_def)
  have "crawlGitHubDir (static sized_tree) demo_platform (Suc (Suc 0)) (Some (JStr (lit ''acme'')))
      (Some (JStr (lit ''site''))) (Some (JStr (lit ''main''))) (Some (JStr (lit ''src'')))
      (Some (JStr (lit ''ghp''))) [] ((), []) =
    Some (Inr demo_collected, ((), sized_trace))"
    using items
    by (simp add: sized_paths io_defs perform_static_run sized_replies listing
        sized_read_def [symmetric] del: crawl_items.simps)
      (simp add: sized_listing_def io_defs listing [unfolded sized_listing_def]
        del: crawl_items.simps)
  then show ?thesis
    by (simp add: collect_def sized_params_def demo_env_def io_defs del: crawlGitHubDir.simps)
qed

lemma collect_gathers:
  assumes "collect (static F :: 'w remote) P fuel env prm s = Some (Inr collected, s')"
    and "iterate (p_paths prm) = Inr ps"
  shows "(\<forall>q. oversize F P (p_owner prm) (p_repo prm) (p_baseBranch prm) (GITHUB_TOKEN env) q \<longrightarrow>
            q \<notin> file_path ` set collected \<and>
            (\<forall>out s0. \<exists>s1. pushFile (static F :: 'w remote) P (p_owner prm) (p_repo prm)
               (p_baseBranch prm) q (GITHUB_TOKEN env) out s0 = Some (Inr out, s1))) \<and>
         (\<forall>p \<in> set ps. \<forall>q.
            files_under F (p_owner prm) (p_repo prm) (p_baseBranch prm) (GITHUB_TOKEN env) (Some p) q \<and>
            eligible F P (p_owner prm) (p_repo prm) (p_baseBranch prm) (GITHUB_TOKEN env) q \<longrightarrow>
            q \<in> file_path ` set collected) \<and>
         (\<forall>f \<in> set collected.
            eligible F P (p_owner prm) (p_repo prm) (p_baseBranch prm) (GITHUB_TOKEN env) (file_path f) \<and>
            (\<exists>p \<in> set ps. files_under F (p_owner prm) (p_repo prm) (p_baseBranch prm)
               (GITHUB_TOKEN env) (Some p) (file_path f)))"
proof -
  from assms have "crawl_paths (static F) P fuel (p_owner prm) (p_repo prm) (p_baseBranch prm)
      (GITHUB_TOKEN env) ps [] s = Some (Inr collected, s')"
    by (simp add: collect_def bind_def lift_def)
  from crawl_paths_static [OF this] obtain new where new: "collected = [] @ new"
    and sound_new: "\<forall>f \<in> set new.
      (\<exists>p \<in> set ps. files_under F (p_owner prm) (p_repo prm) (p_baseBranch prm)
         (GITHUB_TOKEN env) (Some p) (file_path f)) \<and>
      eligible F P (p_owner prm) (p_repo prm) (p_baseBranch prm) (GITHUB_TOKEN env) (file_path f)"
    and complete_new: "\<forall>q. (\<exists>p \<in> set ps. files_under F (p_owner prm) (p_repo prm)
         (p_baseBranch prm) (GITHUB_TOKEN env) (Some p) q) \<and>
      eligible F P (p_owner prm) (p_repo prm) (p_baseBranch prm) (GITHUB_TOKEN env) q \<longrightarrow>
      q \<in> file_path ` set new"
    unfolding gathered_def by blast
  from new have same: "new = collected" by simp
  note sound = sound_new [unfolded same] and complete = complete_new [unfolded same]
  show ?thesis
  proof (intro conjI allI impI ballI)
    fix q
    assume big: "oversize F P (p_owner prm) (p_repo prm) (p_baseBranch prm) (GITHUB_TOKEN env) q"
    show "q \<notin> file_path ` set collected"
    proof
      assume "q \<in> file_path ` set collected"
      then obtain f where "f \<in> set collected" and "q = file_path f" by blast
      with sound have "eligible F P (p_owner prm) (p_repo prm) (p_baseBranch prm)
          (GITHUB_TOKEN env) q"
        by simp
      from eligible_not_oversize [OF this] big show False by simp
    qed
    fix out and s0 :: "'w net"
    show "\<exists>s1. pushFile (static F :: 'w remote) P (p_owner prm) (p_repo prm)
        (p_baseBranch prm) q (GITHUB_TOKEN env) out s0 = Some (Inr out, s1)"
      by (rule pushFile_oversize [OF big])
  next
    fix p q
    assume "p \<in> set ps"
      and "files_under F (p_owner prm) (p_repo prm) (p_baseBranch prm) (GITHUB_TOKEN env)
          (Some p) q \<and>
        eligible F P (p_owner prm) (p_repo prm) (p_baseBranch prm) (GITHUB_TOKEN env) q"
    with complete show "q \<in> file_path ` set collected" by blast
  next
    fix f
    assume "f \<in> set collected"
    with sound show "eligible F P (p_owner prm) (p_repo prm) (p_baseBranch prm)
        (GITHUB_TOKEN env) (file_path f)"
      and "\<exists>p \<in> set ps. files_under F (p_owner prm) (p_repo prm) (p_baseBranch prm)
        (GITHUB_TOKEN env) (Some p) (file_path f)"
      by simp_all
  qed
qed

text \<open>On a walkable tree the walk returns a list, whatever the state it starts in.\<close>

lemma pushFile_readable:
  assumes "readable F P owner repo branch token q"
  shows "\<exists>out' s'. pushFile (static F :: 'w remote) P owner repo branch q token out s =
           Some (Inr out', s')"
  using assms unfolding pushFile_def readable_def
  by (auto simp: bind_def lift_def ret_def throw_def perform_static_run contents_reply_def
      split: sum.splits option.splits reply.splits if_splits)

lemma bind_perform_static:
  "bind (perform (static F) c) f s = f (F c) (fst s, snd s @ [(c, F c)])"
  by (simp add: bind_def perform_static_run)

lemma crawl_returns:
  "walkable F P n owner repo branch token path \<longrightarrow>
     (\<forall>s. \<exists>out' s'. crawlGitHubDir (static F :: 'w remote) P n owner repo branch path token out s =
        Some (Inr out', s'))"
  "walkable_items F P n owner repo branch token items \<longrightarrow>
     (\<forall>s. \<exists>out' s'. crawl_items (static F :: 'w remote) P n owner repo branch token items out s =
        Some (Inr out', s'))"
proof (induction "static F :: 'w remote" P n owner repo branch path token out
    and "static F :: 'w remote" P n owner repo branch token items out
    rule: crawlGitHubDir_crawl_items.induct)
  case (1 P owner repo branch path token out)
  show ?case by simp
next
  case (2 P n owner repo branch path token out)
  show ?case
  proof (intro impI allI)
    fix s :: "'w net"
    assume ok: "walkable F P (Suc n) owner repo branch token path"
    then obtain p where p: "encodeURIComponent (to_string path) = Inr p"
      by (auto simp: contents_reply_def split: sum.splits)
    let ?c = "Call GET (Contents (to_string owner) (to_string repo) p (Some (to_string branch)))
        (to_string token) None"
    let ?s1 = "(fst s, snd s @ [(?c, F ?c)])"
    from p have reply: "contents_reply F owner repo branch token path = Some (F ?c)"
      by (simp add: contents_reply_def)
    have run: "crawlGitHubDir (static F :: 'w remote) P (Suc n) owner repo branch path token out s =
        (case F ?c of
           Net_failure msg \<Rightarrow> throw (Network_error msg)
         | Http_error st t \<Rightarrow> ret out
         | Http_ok None \<Rightarrow> throw SyntaxError
         | Http_ok (Some data) \<Rightarrow>
             bind (case data of
                     JArr items \<Rightarrow> crawl_items (static F) P n owner repo branch token items out
                   | _ \<Rightarrow> ret out) (\<lambda>out1.
             bind (lift (get_prop (Some data) (lit ''type''))) (\<lambda>t.
               if t = Some (JStr (lit ''file'')) then
                 bind (lift (get_prop (Some data) (lit ''path''))) (\<lambda>pth.
                   pushFile (static F) P owner repo branch pth token out1)
               else ret out1))) ?s1"
      by (simp only: crawlGitHubDir.simps p bind_lift_Inr bind_perform_static)
    show "\<exists>out' s'. crawlGitHubDir (static F :: 'w remote) P (Suc n) owner repo branch path token
        out s = Some (Inr out', s')"
    proof (cases "F ?c")
      case (Net_failure m)
      with ok reply show ?thesis by simp
    next
      case (Http_error st t)
      with run show ?thesis by (simp add: ret_def)
    next
      case (Http_ok jo)
      show ?thesis
      proof (cases jo)
        case None
        with ok reply Http_ok show ?thesis by simp
      next
        case (Some data)
        show ?thesis
        proof (cases "\<exists>items. data = JArr items")
          case True
          then obtain items where items: "data = JArr items" by blast
          with ok reply Http_ok Some have "walkable_items F P n owner repo branch token items"
            by simp
          with 2 [OF refl] obtain out1 s2 where
            "crawl_items (static F :: 'w remote) P n owner repo branch token items out ?s1 =
               Some (Inr out1, s2)"
            by blast
          with run Http_ok Some items show ?thesis
            by (simp add: bind_def lift_def ret_def)
        next
          case False
          then have plain: "(case data of JArr items \<Rightarrow> f items | _ \<Rightarrow> g) = g"
            for f :: "json list \<Rightarrow> 'b" and g
            by (cases data) simp_all
          from ok reply Http_ok Some obtain ty where
            ty: "get_prop (Some data) (lit ''type'') = Inr ty"
            and rd: "ty = Some (JStr (lit ''file'')) \<longrightarrow>
              (\<exists>q. get_prop (Some data) (lit ''path'') = Inr q \<and>
                 readable F P owner repo branch token q)"
            by (auto simp: plain split: sum.splits)
          show ?thesis
          proof (cases "ty = Some (JStr (lit ''file''))")
            case True
            with rd obtain q where q: "get_prop (Some data) (lit ''path'') = Inr q"
              and "readable F P owner repo branch token q" by blast
            from pushFile_readable [OF this(2)] obtain out' s' where
              "pushFile (static F :: 'w remote) P owner repo branch q token out ?s1 =
                 Some (Inr out', s')"
              by blast
            with run Http_ok Some ty True q show ?thesis
              by (simp add: plain bind_def lift_def ret_def)
          next
            case False
            with run Http_ok Some ty show ?thesis
              by (simp add: plain bind_def lift_def ret_def)
          qed
        qed
      qed
    qed
  qed
next
  case (3 P n owner repo branch token out)
  show ?case by (simp add: ret_def)
next
  case (4 P n owner repo branch token item items out)
  show ?case
  proof (intro impI allI)
    fix s :: "'w net"
    assume ok: "walkable_items F P n owner repo branch token (item # items)"
    then obtain ty where ty: "get_prop (Some item) (lit ''type'') = Inr ty"
      by (auto split: sum.splits)
    consider (k1) "ty = Some (JStr (lit ''dir''))" | (k2) "ty = Some (JStr (lit ''file''))"
      | (k3) "ty \<noteq> Some (JStr (lit ''dir''))" "ty \<noteq> Some (JStr (lit ''file''))"
      by blast
    then show "\<exists>out' s'. crawl_items (static F :: 'w remote) P n owner repo branch token
        (item # items) out s = Some (Inr out', s')"
    proof cases
      case k1
      with ok ty obtain d where d: "get_prop (Some item) (lit ''path'') = Inr d"
        and sub: "walkable F P n owner repo branch token d"
        and rest: "walkable_items F P n owner repo branch token items"
        by (auto split: sum.splits)
      from 4(1) [OF k1] sub obtain out1 s1 where
        r1: "crawlGitHubDir (static F :: 'w remote) P n owner repo branch d token out s =
          Some (Inr out1, s1)"
        by blast
      from 4(2) [OF k1] rest obtain out' s' where
        "crawl_items (static F :: 'w remote) P n owner repo branch token items out1 s1 =
          Some (Inr out', s')"
        by blast
      with ty k1 d r1 show ?thesis by (simp add: bind_def lift_def)
    next
      case k2
      then have nd: "ty \<noteq> Some (JStr (lit ''dir''))" by simp
      from ok ty k2 obtain q where q: "get_prop (Some item) (lit ''path'') = Inr q"
        and rd: "readable F P owner repo branch token q"
        and rest: "walkable_items F P n owner repo branch token items"
        by (auto split: sum.splits)
      from pushFile_readable [OF rd] obtain out1 s1 where
        r1: "pushFile (static F :: 'w remote) P owner repo branch q token out s =
          Some (Inr out1, s1)"
        by blast
      from 4(3) [OF nd k2] rest obtain out' s' where
        "crawl_items (static F :: 'w remote) P n owner repo branch token items out1 s1 =
          Some (Inr out', s')"
        by blast
      with ty k2 q r1 show ?thesis by (simp add: bind_def lift_def)
    next
      case k3
      with ok ty have "walkable_items F P n owner repo branch token items" by simp
      with 4(4) [OF k3] obtain out' s' where
        "crawl_items (static F :: 'w remote) P n owner repo branch token items out s =
          Some (Inr out', s')"
        by blast
      with ty k3 show ?thesis by (simp add: bind_def lift_def)
    qed
  qed
qed

lemma walkable_Suc:
  "walkable F P n owner repo branch token path \<longrightarrow>
     walkable F P (Suc n) owner repo branch token path"
  "walkable_items F P n owner repo branch token items \<longrightarrow>
     walkable_items F P (Suc n) owner repo branch token items"
proof (induction F P n owner repo branch token path and F P n owner repo branch token items
    rule: walkable_walkable_items.induct)
  case (1 F P owner repo branch token path)
  show ?case by simp
next
  case (2 F P n owner repo branch token path)
  show ?case
  proof
    assume ok: "walkable F P (Suc n) owner repo branch token path"
    show "walkable F P (Suc (Suc n)) owner repo branch token path"
    proof (cases "\<exists>items. contents_reply F owner repo branch token path =
        Some (Http_ok (Some (JArr items)))")
      case True
      then obtain items where reply: "contents_reply F owner repo branch token path =
          Some (Http_ok (Some (JArr items)))" by blast
      with ok have "walkable_items F P n owner repo branch token items" by simp
      with 2 [OF reply refl refl] have "walkable_items F P (Suc n) owner repo branch token items"
        by blast
      with reply show ?thesis by simp
    next
      case False
      with ok show ?thesis
        by (auto split: option.splits reply.splits json.splits)
    qed
  qed
next
  case (3 F P n owner repo branch token)
  show ?case by simp
next
  case (4 F P n owner repo branch token item items)
  show ?case
  proof
    assume ok: "walkable_items F P n owner repo branch token (item # items)"
    then obtain ty where ty: "get_prop (Some item) (lit ''type'') = Inr ty"
      by (auto split: sum.splits)
    consider (k1) "ty = Some (JStr (lit ''dir''))" | (k2) "ty = Some (JStr (lit ''file''))"
      | (k3) "ty \<noteq> Some (JStr (lit ''dir''))" "ty \<noteq> Some (JStr (lit ''file''))"
      by blast
    then show "walkable_items F P (Suc n) owner repo branch token (item # items)"
    proof cases
      case k1
      with ok ty obtain d where d: "get_prop (Some item) (lit ''path'') = Inr d"
        and sub: "walkable F P n owner repo branch token d"
        and rest: "walkable_items F P n owner repo branch token items"
        by (auto split: sum.splits)
      from 4(1) [OF ty k1 d] sub have "walkable F P (Suc n) owner repo branch token d" by blast
      moreover from 4(2) [OF ty k1 d] rest
      have "walkable_items F P (Suc n) owner repo branch token items" by blast
      ultimately show ?thesis using ty k1 d by (simp del: walkable.simps)
    next
      case k2
      then have nd: "ty \<noteq> Some (JStr (lit ''dir''))" by simp
      from ok ty k2 obtain q where q: "get_prop (Some item) (lit ''path'') = Inr q"
        and rd: "readable F P owner repo branch token q"
        and rest: "walkable_items F P n owner repo branch token items"
        by (auto split: sum.splits)
      from 4(3) [OF ty nd k2 q] rest
      have "walkable_items F P (Suc n) owner repo branch token items" by blast
      with ty k2 q rd show ?thesis by simp
    next
      case k3
      with ok ty have "walkable_items F P n owner repo branch token items" by simp
      with 4(4) [OF ty k3] have "walkable_items F P (Suc n) owner repo branch token items"
        by blast
      with ty k3 show ?thesis by simp
    qed
  qed
qed

lemma walkable_mono:
  "walkable F P n owner repo branch token path \<Longrightarrow> n \<le> m \<Longrightarrow>
   walkable F P m owner repo branch token path"
proof (induction m)
  case 0
  then show ?case by simp
next
  case (Suc m)
  show ?case
  proof (cases "n = Suc m")
    case True
    with Suc.prems show ?thesis by simp
  next
    case False
    with Suc have "walkable F P m owner repo branch token path" by simp
    with walkable_Suc(1) show ?thesis by blast
  qed
qed

lemma crawl_paths_returns:
  "\<forall>p \<in> set ps. walkable F P n owner repo branch token (Some p) \<Longrightarrow>
   \<exists>out' s'. crawl_paths (static F :: 'w remote) P n owner repo branch token ps out s =
     Some (Inr out', s')"
proof (induction ps arbitrary: out s)
  case Nil
  show ?case by (simp add: ret_def)
next
  case (Cons p ps)
  then have "walkable F P n owner repo branch token (Some p)" by simp
  with crawl_returns(1) obtain out1 s1 where
    r1: "crawlGitHubDir (static F :: 'w remote) P n owner repo branch (Some p) token out s =
      Some (Inr out1, s1)"
    by blast
  from Cons.IH [of out1 s1] Cons.prems obtain out' s' where
    "crawl_paths (static F :: 'w remote) P n owner repo branch token ps out1 s1 =
      Some (Inr out', s')"
    by auto
  with r1 show ?case by (simp add: bind_def)
qed

lemma broken_paths: "encodeURIComponent (lit ''src/bad.bin'') = Inr (lit ''src%2Fbad.bin'')"
  by (simp add: codec_defs lit_def)

lemma broken_decode: "base64decode (lit ''/w=='') = Inl URIError"
  by (simp add: codec_defs lit_def)

lemma broken_replies:
  "broken_tree (Call GET (Contents a b (lit ''src'') d) t None) = Http_ok (Some broken_listing)"
  "broken_tree (Call GET (Contents a b (lit ''src%2Fa.txt'') d) t None) = Http_ok (Some demo_file)"
  "broken_tree (Call GET (Contents a b (lit ''src%2Fbad.bin'') d) t None) =
     Http_ok (Some undecodable_file)"
  by (simp_all add: broken_tree_def lit_def)

lemma undecodable_file_props:
  "get_prop (Some undecodable_file) (lit ''content'') = Inr (Some (JStr (lit ''/w=='')))"
  "get_prop (Some undecodable_file) (lit ''size'') = Inr (Some (JNum 1))"
  by (simp_all add: undecodable_file_def mk_obj_def List.map_filter_simps lit_def)

lemma broken_push_small:
  "pushFile (static broken_tree) demo_platform (Some (JStr (lit ''acme'')))
      (Some (JStr (lit ''site''))) (Some (JStr (lit ''main''))) (Some (JStr (lit ''src/a.txt'')))
      (Some (JStr (lit ''ghp''))) out ((), tr) =
    Some (Inr (out @ demo_collected), ((), tr @ [sized_read (lit ''src%2Fa.txt'') demo_file]))"
proof -
  have "take 7000 (lit ''old'') = lit ''old''" by (simp add: lit_def)
  then show ?thesis
    by (simp add: pushFile_def demo_encode_path io_defs perform_static_run broken_replies
        demo_file_props sized_small sized_content demo_decode sized_read_def demo_collected_def)
qed

lemma broken_push_bad:
  "pushFile (static broken_tree) demo_platform (Some (JStr (lit ''acme'')))
      (Some (JStr (lit ''site''))) (Some (JStr (lit ''main''))) (Some (JStr (lit ''src/bad.bin'')))
      (Some (JStr (lit ''ghp''))) out ((), tr) =
    Some (Inl URIError, ((), tr @ [sized_read (lit ''src%2Fbad.bin'') undecodable_file]))"
proof -
  have small: "\<not> js_gt demo_platform (Some (JNum 1)) 120000"
    by (simp add: js_gt_def to_number_def)
  have full: "lit ''/w=='' \<noteq> []" by (simp add: lit_def)
  show ?thesis
    by (simp add: pushFile_def broken_paths io_defs perform_static_run broken_replies
        undecodable_file_props small full broken_decode sized_read_def)
qed

lemma broken_collect:
  "collect (static broken_tree) demo_platform (Suc (Suc 0)) demo_env sized_params ((), []) =
     Some (Inl URIError, ((), broken_trace))"
proof -
  have items: "crawl_items (static broken_tree) demo_platform (Suc 0) (Some (JStr (lit ''acme'')))
      (Some (JStr (lit ''site''))) (Some (JStr (lit ''main''))) (Some (JStr (lit ''ghp'')))
      [mk_obj [(''type'', Some (JStr (lit ''file''))), (''path'', Some (JStr (lit ''src/a.txt'')))],
       mk_obj [(''type'', Some (JStr (lit ''file''))), (''path'', Some (JStr (lit ''src/bad.bin'')))]]
      [] ((), [sized_read (lit ''src'') broken_listing]) =
    Some (Inl URIError, ((), broken_trace))"
    by (simp add: io_defs sized_item_props broken_push_small broken_push_bad broken_trace_def)
  have listing: "get_prop (Some broken_listing) (lit ''type'') = Inr None"
    by (simp add: broken_listing_def)
  have "crawlGitHubDir (static broken_tree) demo_platform (Suc (Suc 0)) (Some (JStr (lit ''acme'')))
      (Some (JStr (lit ''site''))) (Some (JStr (lit ''main''))) (Some (JStr (lit ''src'')))
      (Some (JStr (lit ''ghp''))) [] ((), []) =
    Some (Inl URIError, ((), broken_trace))"
    using items
    by (simp add: sized_paths io_defs perform_static_run broken_replies listing
        sized_read_def [symmetric] del: crawl_items.simps)
      (simp add: broken_listing_def io_defs listing [unfolded broken_listing_def]
        del: crawl_items.simps)
  then show ?thesis
    by (simp add: collect_def sized_params_def demo_env_def io_defs del: crawlGitHubDir.simps)
qed

lemma sized_walkable:
  "walkable sized_tree demo_platform (Suc (Suc 0)) (Some (JStr (lit ''acme'')))
     (Some (JStr (lit ''site''))) (Some (JStr (lit ''main''))) (Some (JStr (lit ''ghp'')))
     (Some (JStr (lit ''src'')))"
proof -
  have small: "readable sized_tree demo_platform (Some (JStr (lit ''acme'')))
      (Some (JStr (lit ''site''))) (Some (JStr (lit ''main''))) (Some (JStr (lit ''ghp'')))
      (Some (JStr (lit ''src/a.txt'')))"
    by (simp add: readable_def contents_reply_def demo_encode_path sized_replies demo_file_props
        sized_small demo_decode)
  have big: "readable sized_tree demo_platform (Some (JStr (lit ''acme'')))
      (Some (JStr (lit ''site''))) (Some (JStr (lit ''main''))) (Some (JStr (lit ''ghp'')))
      (Some (JStr (lit ''src/big.bin'')))"
    by (simp add: readable_def contents_reply_def sized_paths sized_replies oversize_file_props
        sized_big)
  show ?thesis
    by (simp add: contents_reply_def sized_paths sized_replies sized_listing_def
        sized_item_props small big)
qed



section \<open>The order of the calls of the second worker\<close>

text \<open>
  A call of \<open>fetch\<close> followed by the test of \<open>ok\<close> keeps the order: the run goes on
  only after a success, and otherwise returns without a further call.
\<close>

lemma steps_done: "steps st (ret x) Opened"
  by (simp add: steps_def ret_def in_order_Opened)

lemma steps_perform:
  assumes ord: "\<And>r rest. in_order st' rest \<or> rest = [] \<Longrightarrow> succeeded r \<or> rest = [] \<Longrightarrow>
             in_order st ((c, r) # rest)"
    and go: "\<And>r. succeeded r \<Longrightarrow> steps st' (f r) Opened"
    and stop: "\<And>r. \<not> succeeded r \<Longrightarrow> stops (f r)"
  shows "steps st (bind (perform R c) f) Opened"
  unfolding steps_def
proof (intro allI impI)
  fix s res s'
  assume run: "bind (perform R c) f s = Some (res, s')"
  obtain w tr where s: "s = (w, tr)" by (cases s)
  obtain r w' where r: "R w c = (r, w')" by (cases "R w c")
  from run s r have cont: "f r (w', tr @ [(c, r)]) = Some (res, s')"
    by (simp add: bind_def perform_def)
  show "\<exists>tr. snd s' = snd s @ tr \<and>
     (\<forall>rest. (case res of Inl e \<Rightarrow> rest = [] | Inr x \<Rightarrow> in_order Opened rest) \<longrightarrow>
        in_order st (tr @ rest))"
  proof (cases "succeeded r")
    case True
    from stepsD [OF go [OF True] cont] obtain tr2
      where tr2: "snd s' = tr @ [(c, r)] @ tr2"
        "\<And>rest. (case res of Inl e \<Rightarrow> rest = [] | Inr x \<Rightarrow> in_order Opened rest) \<Longrightarrow>
           in_order st' (tr2 @ rest)"
      by auto
    have "in_order st (((c, r) # tr2) @ rest)"
      if "case res of Inl e \<Rightarrow> rest = [] | Inr x \<Rightarrow> in_order Opened rest" for rest
      using ord [of "tr2 @ rest" r] tr2(2) [OF that] True by (simp del: in_order.simps)
    with tr2(1) s show ?thesis
      by (intro exI [of _ "(c, r) # tr2"]) (simp del: in_order.simps)
  next
    case False
    from stop [OF False] cont have "s' = (w', tr @ [(c, r)])" unfolding stops_def by blast
    moreover have "in_order st ([(c, r)] @ rest)"
      if "case res of Inl e \<Rightarrow> rest = [] | Inr x \<Rightarrow> in_order Opened rest" for rest
    proof -
      from that have "rest = []" by (cases res) (simp_all add: in_order_Opened)
      with ord [of "[]" r] show ?thesis by (simp del: in_order.simps)
    qed
    ultimately show ?thesis using s
      by (intro exI [of _ "[(c, r)]"]) (simp del: in_order.simps)
  qed
qed

lemma stops_throw: "stops (throw e)"
  by (simp add: stops_def throw_def)

lemma stops_ret: "stops (ret x)"
  by (simp add: stops_def ret_def)

lemma in_order_Opened_rest: "in_order Opened rest \<or> rest = [] \<Longrightarrow> rest = []"
  by (auto simp: in_order_Opened)

lemma steps_fetch_json:
  assumes "\<And>r rest. in_order st' rest \<or> rest = [] \<Longrightarrow> succeeded r \<or> rest = [] \<Longrightarrow>
             in_order st ((c, r) # rest)"
    and "\<And>j. steps st' (k j) Opened"
  shows "steps st
      (bind (perform R c)
         (\<lambda>resp. case resp of
                    Net_failure msg \<Rightarrow> throw (Network_error msg)
                  | Http_error status txt \<Rightarrow> ret (failed status txt)
                  | Http_ok None \<Rightarrow> throw SyntaxError
                  | Http_ok (Some j) \<Rightarrow> k j)) Opened"
proof (rule steps_perform [where st' = st'])
  fix r :: reply
  assume "succeeded r"
  then show "steps st' (case r of
                    Net_failure msg \<Rightarrow> throw (Network_error msg)
                  | Http_error status txt \<Rightarrow> ret (failed status txt)
                  | Http_ok None \<Rightarrow> throw SyntaxError
                  | Http_ok (Some j) \<Rightarrow> k j) Opened"
    using assms(2) by (auto simp: succeeded_def steps_throw split: reply.splits option.splits)
next
  fix r :: reply
  assume "\<not> succeeded r"
  then show "stops (case r of
                    Net_failure msg \<Rightarrow> throw (Network_error msg)
                  | Http_error status txt \<Rightarrow> ret (failed status txt)
                  | Http_ok None \<Rightarrow> throw SyntaxError
                  | Http_ok (Some j) \<Rightarrow> k j)"
    by (auto simp: succeeded_def stops_throw stops_ret split: reply.splits)
qed (rule assms(1))

lemma steps_fetch_ok:
  assumes "\<And>r rest. in_order st' rest \<or> rest = [] \<Longrightarrow> succeeded r \<or> rest = [] \<Longrightarrow>
             in_order st ((c, r) # rest)"
    and "\<And>j. steps st' (k j) Opened"
  shows "steps st
      (bind (perform R c)
         (\<lambda>resp. case resp of
                    Net_failure msg \<Rightarrow> throw (Network_error msg)
                  | Http_error status txt \<Rightarrow> ret (failed status txt)
                  | Http_ok j \<Rightarrow> k j)) Opened"
proof (rule steps_perform [where st' = st'])
  fix r :: reply
  assume "succeeded r"
  then show "steps st' (case r of
                    Net_failure msg \<Rightarrow> throw (Network_error msg)
                  | Http_error status txt \<Rightarrow> ret (failed status txt)
                  | Http_ok j \<Rightarrow> k j) Opened"
    using assms(2) by (auto simp: succeeded_def split: reply.splits)
next
  fix r :: reply
  assume "\<not> succeeded r"
  then show "stops (case r of
                    Net_failure msg \<Rightarrow> throw (Network_error msg)
                  | Http_error status txt \<Rightarrow> ret (failed status txt)
                  | Http_ok j \<Rightarrow> k j)"
    by (auto simp: succeeded_def stops_throw stops_ret split: reply.splits)
qed (rule assms(1))

lemma steps_if: "steps st m st' \<Longrightarrow> steps st n st' \<Longrightarrow> steps st (if b then m else n) st'"
  by simp

lemma order_lookup:
  "in_order Looked_up rest \<or> rest = [] \<Longrightarrow> succeeded r \<or> rest = [] \<Longrightarrow>
   in_order Start ((Call GET (Git_ref ow rp b) tok None, r) # rest)"
  by (auto simp: is_lookup_def)

lemma order_create:
  "in_order Branched rest \<or> rest = [] \<Longrightarrow> succeeded r \<or> rest = [] \<Longrightarrow>
   in_order Looked_up ((Call POST (Git_refs ow rp) tok pl, r) # rest)"
  by (auto simp: is_lookup_def is_branch_create_def)

lemma order_write:
  "in_order Branched rest \<or> rest = [] \<Longrightarrow> succeeded r \<or> rest = [] \<Longrightarrow>
   in_order Branched ((Call PUT (Contents ow rp p rf) tok pl, r) # rest)"
  by (auto simp: is_lookup_def is_branch_create_def is_probe_def is_file_write_def)

lemma order_pull:
  "in_order Opened rest \<or> rest = [] \<Longrightarrow> succeeded r \<or> rest = [] \<Longrightarrow>
   in_order Branched ((Call POST (Pulls ow rp) tok pl, r) # rest)"
  by (auto simp: in_order_Opened is_lookup_def is_branch_create_def is_probe_def
      is_file_write_def is_pr_create_def)

lemma steps_fetch_lookup:
  assumes "\<And>j. steps Looked_up (k j) Opened"
  shows "steps Start
      (bind (perform R (Call GET (Git_ref ow rp b) tok None))
         (\<lambda>resp. case resp of
                    Net_failure msg \<Rightarrow> throw (Network_error msg)
                  | Http_error status txt \<Rightarrow> ret (failed status txt)
                  | Http_ok None \<Rightarrow> throw SyntaxError
                  | Http_ok (Some j) \<Rightarrow> k j)) Opened"
  by (rule steps_fetch_json [OF order_lookup assms])

lemma steps_fetch_create:
  assumes "\<And>j. steps Branched (k j) Opened"
  shows "steps Looked_up
      (bind (perform R (Call POST (Git_refs ow rp) tok pl))
         (\<lambda>resp. case resp of
                    Net_failure msg \<Rightarrow> throw (Network_error msg)
                  | Http_error status txt \<Rightarrow> ret (failed status txt)
                  | Http_ok j \<Rightarrow> k j)) Opened"
  by (rule steps_fetch_ok [OF order_create assms])

lemma steps_fetch_write:
  assumes "\<And>j. steps Branched (k j) Opened"
  shows "steps Branched
      (bind (perform R (Call PUT (Contents ow rp p rf) tok pl))
         (\<lambda>resp. case resp of
                    Net_failure msg \<Rightarrow> throw (Network_error msg)
                  | Http_error status txt \<Rightarrow> ret (failed status txt)
                  | Http_ok j \<Rightarrow> k j)) Opened"
  by (rule steps_fetch_ok [OF order_write assms])

lemma steps_fetch_pull:
  assumes "\<And>j. steps Opened (k j) Opened"
  shows "steps Branched
      (bind (perform R (Call POST (Pulls ow rp) tok pl))
         (\<lambda>resp. case resp of
                    Net_failure msg \<Rightarrow> throw (Network_error msg)
                  | Http_error status txt \<Rightarrow> ret (failed status txt)
                  | Http_ok None \<Rightarrow> throw SyntaxError
                  | Http_ok (Some j) \<Rightarrow> k j)) Opened"
  by (rule steps_fetch_json [OF order_pull assms])

lemma steps_api_harmonize: "steps Start (api_harmonize R now1 now2 isoTime env body) Opened"
  unfolding api_harmonize_def Let_def
  by (intro steps_bind [OF steps_lift] steps_if steps_done
      steps_fetch_lookup steps_fetch_create steps_fetch_write steps_fetch_pull)

lemma returns_reply_ok:
  assumes "\<And>m. returns (f1 m)" and "\<And>st t. returns (f2 st t)" and "\<And>j. returns (f3 j)"
  shows "returns (case res of Net_failure m \<Rightarrow> f1 m | Http_error st t \<Rightarrow> f2 st t
           | Http_ok j \<Rightarrow> f3 j)"
  using assms by (simp split: reply.splits)

lemma returns_option_case:
  assumes "returns a" and "\<And>x. returns (f x)"
  shows "returns (case v of None \<Rightarrow> a | Some x \<Rightarrow> f x)"
  using assms by (simp split: option.splits)

lemma returns_if: "returns m \<Longrightarrow> returns n \<Longrightarrow> returns (if b then m else n)"
  by simp

lemma returns_api_harmonize: "returns (api_harmonize R now1 now2 isoTime env body)"
  unfolding api_harmonize_def Let_def
  by (intro returns_bind returns_lift returns_ret returns_throw returns_perform
      returns_reply_ok returns_option_case returns_if)

lemma ascii_encodes: "\<forall>c \<in> set s. c < 128 \<Longrightarrow> \<exists>u. encodeURIComponent s = Inr u"
proof (induction s)
  case Nil
  show ?case by simp
next
  case (Cons c cs)
  then obtain r where "encodeURIComponent cs = Inr r" by auto
  moreover from Cons.prems have "\<not> is_lead c" "\<not> is_trail c"
    by (simp_all add: is_lead_def is_trail_def)
  ultimately show ?case by simp
qed

lemma utf8_string_ascii: "\<forall>c \<in> set s. c < 128 \<Longrightarrow> utf8_string s = s"
proof (induction s)
  case Nil
  show ?case by simp
next
  case (Cons c cs)
  then have "\<not> is_lead c" "utf8_octets c = [c]" "utf8_string cs = cs"
    by (simp_all add: is_lead_def utf8_octets_def)
  then show ?case by simp
qed

lemma toBase64_ascii:
  assumes "\<forall>c \<in> set s. c < 128"
  shows "toBase64 s = Inr (b64_encode s)"
proof -
  from ascii_encodes [OF assms] obtain u where u: "encodeURIComponent s = Inr u" by blast
  from assms have "list_all (\<lambda>c. c < 65536) s" by (auto simp: list_all_iff)
  from encode_unescape [OF this u] utf8_string_ascii [OF assms] have "unescape u = s" by simp
  moreover from assms have "\<forall>c \<in> set s. c \<le> 255" by auto
  ultimately show ?thesis using u by (simp add: toBase64_def btoa_def)
qed

lemma touch_markdown_value:
  "markdownContent touch_stamp (Some (JStr (lit ''ASA_MATRIX_UI''))) [lit ''- (none)'']
     (Some (JStr (lit ''PR created by ASA CODE-HARMONIZER worker (B layout).''))) =
   touch_markdown"
  by (simp add: markdownContent_def touch_stamp_def touch_markdown_def lit_def)

lemma touch_ascii: "\<forall>c \<in> set touch_markdown. c < 128"
  by (simp add: touch_markdown_def lit_def)

lemma touch_b64: "b64_encode touch_markdown = touch_content"
  by (simp add: touch_markdown_def touch_content_def lit_def b64_char_def)

lemma touch_encoded:
  "toBase64 (markdownContent touch_stamp (Some (JStr (lit ''ASA_MATRIX_UI''))) [lit ''- (none)'']
     (Some (JStr (lit ''PR created by ASA CODE-HARMONIZER worker (B layout).'')))) =
   Inr touch_content"
  by (simp add: touch_markdown_value toBase64_ascii [OF touch_ascii] touch_b64)

lemma touch_path:
  "encodeURIComponent touch_file = Inr (lit ''asa_harmonizer%2FASA_HARMONIZER_0.md'')"
  by (simp add: touch_file_def codec_defs lit_def)

lemma touch_targets: "target_lines (Some (JArr [])) = Inr [lit ''- (none)'']"
  by (simp add: target_lines_def ebind_def lit_def)

lemma touch_env:
  "GITHUB_OWNER demo_env = Some (JStr (lit ''acme''))"
  "GITHUB_REPO demo_env = Some (JStr (lit ''site''))"
  "GITHUB_TOKEN demo_env = Some (JStr (lit ''ghp''))"
  "BASE_BRANCH demo_env = None"
  by (simp_all add: demo_env_def)

lemma touch_truthy: "lit ''acme'' \<noteq> []" "lit ''site'' \<noteq> []" "lit ''ghp'' \<noteq> []"
  by (simp_all add: lit_def)

lemma touch_replies:
  "demo_remote reply () (Call GET (Git_ref a b c) t None) = (snd demo_lookup, ())"
  "demo_remote reply () (Call POST (Git_refs a b) t pl) = (snd demo_create, ())"
  "demo_remote reply () (Call PUT (Contents a b p rf) t pl) = (snd touch_write, ())"
  "demo_remote reply () (Call POST (Pulls a b) t pl) = (snd touch_pull, ())"
  by (simp_all add: demo_remote_def demo_lookup_def demo_create_def touch_write_def
      touch_pull_def)

lemma touch_reply_values:
  "snd demo_lookup = Http_ok (Some (mk_obj
        [(''object'', Some (mk_obj [(''sha'', Some (JStr (lit ''base1'')))]))]))"
  "snd demo_create = Http_ok (Some (mk_obj []))"
  "snd touch_write =
     Http_ok (Some (mk_obj [(''commit'', Some (mk_obj [(''sha'', Some (JStr (lit ''c1'')))]))]))"
  "snd touch_pull = Http_ok (Some (mk_obj
        [(''html_url'', Some (JStr (lit ''https://example.org/pr/7''))),
         (''number'', Some (JNum 7))]))"
  by (simp_all add: demo_lookup_def demo_create_def touch_write_def touch_pull_def)

lemma touch_props:
  "get_prop (Some (mk_obj
        [(''object'', Some (mk_obj [(''sha'', Some (JStr (lit ''base1'')))]))])) (lit ''object'') =
     Inr (Some (mk_obj [(''sha'', Some (JStr (lit ''base1'')))]))"
  "get_prop (Some (mk_obj [(''sha'', Some (JStr (lit ''base1'')))])) (lit ''sha'') =
     Inr (Some (JStr (lit ''base1'')))"
  "get_prop (Some (mk_obj
        [(''html_url'', Some (JStr (lit ''https://example.org/pr/7''))),
         (''number'', Some (JNum 7))])) (lit ''html_url'') =
     Inr (Some (JStr (lit ''https://example.org/pr/7'')))"
  "get_prop (Some (mk_obj
        [(''html_url'', Some (JStr (lit ''https://example.org/pr/7''))),
         (''number'', Some (JNum 7))])) (lit ''number'') = Inr (Some (JNum 7))"
  by (simp_all add: mk_obj_def List.map_filter_simps lit_def)

lemma touch_run:
  "api_harmonize (demo_remote reply) 0 0 touch_stamp demo_env (JObj []) ((), []) =
     Some (Inr touch_response, ((), touch_trace))"
proof -
  have calls:
    "fst demo_lookup = Call GET (Git_ref (lit ''acme'') (lit ''site'') (lit ''main'')) (lit ''ghp'') None"
    "fst demo_create = Call POST (Git_refs (lit ''acme'') (lit ''site'')) (lit ''ghp'')
        (Some (mk_obj [(''ref'', Some (JStr (lit ''refs/heads/'' @ lit ''asa-harmonizer-'' @ show_nat 0))),
                       (''sha'', Some (JStr (lit ''base1'')))]))"
    "fst touch_write = Call PUT (Contents (lit ''acme'') (lit ''site'')
        (lit ''asa_harmonizer%2FASA_HARMONIZER_0.md'') None) (lit ''ghp'')
        (Some (mk_obj
           [(''message'', Some (JStr (lit ''ASA CODE-HARMONIZER touchpoint for ''
               @ lit ''asa-harmonizer-'' @ show_nat 0))),
            (''content'', Some (JStr touch_content)),
            (''branch'', Some (JStr (lit ''asa-harmonizer-'' @ show_nat 0)))]))"
    "fst touch_pull = Call POST (Pulls (lit ''acme'') (lit ''site'')) (lit ''ghp'')
        (Some (mk_obj
           [(''title'', Some (JStr
               (lit ''ASA CODE-HARMONIZER '' @ 8211 # lit '' automatic harmonization''))),
            (''head'', Some (JStr (lit ''asa-harmonizer-'' @ show_nat 0))),
            (''base'', Some (JStr (lit ''main''))),
            (''body'', Some (JStr
               (lit ''PR created by ASA CODE-HARMONIZER worker (B layout).'' @ 10 # 10
                # lit ''> Automatically generated by ASA CODE-HARMONIZER Worker.'' @ [10])))]))"
    by (simp_all add: demo_lookup_def demo_create_def touch_write_def touch_pull_def
        demo_branch_def del: show_nat.simps)
  have step: "perform (demo_remote reply) (fst x) ((), tr) = Some (Inr (snd x), ((), tr @ [x]))"
    if "demo_remote reply () (fst x) = (snd x, ())" for x tr
    using that by (simp add: perform_def)
  have s1: "perform (demo_remote reply) (fst demo_lookup) ((), tr) =
      Some (Inr (snd demo_lookup), ((), tr @ [demo_lookup]))" for tr
    by (rule step) (simp add: calls(1) touch_replies)
  have s2: "perform (demo_remote reply) (fst demo_create) ((), tr) =
      Some (Inr (snd demo_create), ((), tr @ [demo_create]))" for tr
    by (rule step) (simp add: calls(2) touch_replies del: show_nat.simps)
  have s3: "perform (demo_remote reply) (fst touch_write) ((), tr) =
      Some (Inr (snd touch_write), ((), tr @ [touch_write]))" for tr
    by (rule step) (simp add: calls(3) touch_replies del: show_nat.simps)
  have s4: "perform (demo_remote reply) (fst touch_pull) ((), tr) =
      Some (Inr (snd touch_pull), ((), tr @ [touch_pull]))" for tr
    by (rule step) (simp add: calls(4) touch_replies del: show_nat.simps)
  have empty: "get_prop (Some (JObj [])) k = Inr None" for k by simp
  have main: "to_string (js_or None (Some (JStr (lit ''main'')))) = lit ''main''"
    "js_or None x = x" for x
    by (simp_all add: js_or_def)
  show ?thesis
    unfolding api_harmonize_def Let_def
    by (simp add: io_defs empty main touch_env touch_truthy touch_targets touch_encoded
        touch_path s1 [unfolded calls] s2 [unfolded calls] s3 [unfolded calls]
        s4 [unfolded calls] touch_reply_values touch_props touch_response_def touch_trace_def
        demo_branch_def touch_file_def [symmetric]
        del: show_nat.simps)
qed

lemma ordered_run:
  assumes "returns m" and "steps Start m st"
  shows "\<exists>res s' tr. m s = Some (res, s') \<and> snd s' = snd s @ tr \<and> in_order Start tr \<and>
     before is_lookup is_branch_create tr \<and> before is_branch_create is_file_write tr \<and>
     before is_file_write is_pr_create tr"
proof -
  from returnsD [OF assms(1)] obtain res s' where run: "m s = Some (res, s')" by blast
  from stepsD [OF assms(2) run] obtain tr
    where tr: "snd s' = snd s @ tr"
      "\<And>rest. (case res of Inl e \<Rightarrow> rest = [] | Inr x \<Rightarrow> in_order st rest) \<Longrightarrow>
         in_order Start (tr @ rest)"
    by blast
  from tr(2) [of "[]"] have "in_order Start tr" by (simp split: sum.splits)
  with run tr(1) in_order_before [OF this] show ?thesis by blast
qed

section \<open>The claims\<close>

text \<open>
  C3. A request in which the source-control token, the model key, the owner or the
  repository is missing, or whose paths are empty, is answered with a validation error
  and no call is issued: the remote state and the log of calls stay as they were.
\<close>

theorem validation_fails_without_calls:
  assumes "pathname req = lit ''/harmonize''" and "verb req = lit ''POST''"
    and "body_json req = Some body" and "read_body env body = Inr prm"
    and "\<not> truthy (GITHUB_TOKEN env) \<or> \<not> truthy (OPENAI_API_KEY env) \<or>
         \<not> truthy (p_owner prm) \<or> \<not> truthy (p_repo prm) \<or> p_paths prm = Some (JArr [])"
  shows "\<exists>e. fetch R P fuel now env req s = Some (Caught e, s) \<and>
           e \<in> {Missing_GITHUB_TOKEN, Missing_OPENAI_API_KEY, Missing_repo_owner_name,
                No_paths_provided}"
proof -
  from validate_rejects [OF assms(5)] obtain e
    where e: "validate env prm = Inl e"
      "e \<in> {Missing_GITHUB_TOKEN, Missing_OPENAI_API_KEY, Missing_repo_owner_name,
            No_paths_provided}" by blast
  have "harmonize R P fuel now env body s = Some (Inl e, s)"
    using assms(4) e(1) by (simp add: harmonize_def bind_lift_Inr bind_lift_Inl throw_def)
  then have "fetch R P fuel now env req s = Some (Caught e, s)"
    by (simp add: route_harmonize [OF assms(1-3)])
  with e(2) show ?thesis by blast
qed

theorem validation_fails_without_calls_witness:
  "\<exists>e. fetch (demo_remote reply_rewrite) demo_platform (Suc 0) 0
          (demo_env\<lparr>GITHUB_TOKEN := None\<rparr>) (demo_request False) ((), []) =
        Some (Caught e, ((), [])) \<and>
     e \<in> {Missing_GITHUB_TOKEN, Missing_OPENAI_API_KEY, Missing_repo_owner_name,
          No_paths_provided}"
proof -
  have body: "read_body (demo_env\<lparr>GITHUB_TOKEN := None\<rparr>) (demo_body False) = Inr (demo_params False)"
    using demo_read_body [of False] by (simp add: read_body_def demo_env_def)
  have missing: "\<not> truthy (GITHUB_TOKEN (demo_env\<lparr>GITHUB_TOKEN := None\<rparr>)) \<or>
      \<not> truthy (OPENAI_API_KEY (demo_env\<lparr>GITHUB_TOKEN := None\<rparr>)) \<or>
      \<not> truthy (p_owner (demo_params False)) \<or> \<not> truthy (p_repo (demo_params False)) \<or>
      p_paths (demo_params False) = Some (JArr [])"
    by simp
  show ?thesis
    by (rule validation_fails_without_calls [OF demo_route body missing])
qed

text \<open>
  C6. When the given paths resolve to no collected file, the handler answers with the
  "no files found" error (status 400); every call it issued is a read of a content
  path, so the model service was not called and nothing was mutated.
\<close>

theorem no_files_found_before_model:
  assumes "pathname req = lit ''/harmonize''" and "verb req = lit ''POST''"
    and "body_json req = Some body"
    and "read_body env body = Inr prm" and "validate env prm = Inr ()"
    and "collect R P fuel env prm s = Some (Inr [], s1)"
  shows "fetch R P fuel now env req s = Some (no_files_response (p_paths prm), s1) \<and>
         (\<exists>tr. snd s1 = snd s @ tr \<and> list_all contents_read tr)"
proof -
  have "harmonize R P fuel now env body s = Some (Inr (no_files_response (p_paths prm)), s1)"
    using assms(4-6) by (simp add: harmonize_def bind_lift_Inr bind_Some_Inr ret_def)
  then have "fetch R P fuel now env req s = Some (no_files_response (p_paths prm), s1)"
    by (simp add: route_harmonize [OF assms(1-3)])
  with issuesD [OF collect_issues assms(6)] show ?thesis by simp
qed

theorem no_files_found_before_model_witness:
  "fetch absent_remote demo_platform (Suc 0) 0 demo_env (demo_request False) ((), []) =
     Some (no_files_response (p_paths (demo_params False)), ((),
       [(Call GET (Contents (lit ''acme'') (lit ''site'') (lit ''src%2Fa.txt'')
           (Some (lit ''main''))) (lit ''ghp'') None, Http_error 404 (lit ''Not Found''))]))"
  using no_files_found_before_model [OF demo_route demo_read_body demo_validate absent_collect]
  by simp

text \<open>
  C1. A request with \<open>apply\<close> false that reaches the rewrite step and obtains a rewrite
  whose \<open>files\<close> has a non-zero length is answered with the preview outcome
  \<open>{ ok: true, mode: "preview", summary, files }\<close>, and no call of the run is a
  mutating one.
\<close>

theorem preview_returns_without_mutation:
  assumes "pathname req = lit ''/harmonize''" and "verb req = lit ''POST''"
    and "body_json req = Some body"
    and "read_body env body = Inr prm" and "validate env prm = Inr ()"
    and "collect R P fuel env prm s = Some (Inr collected, s1)" and "collected \<noteq> []"
    and "callOpenAIHarmonizer R P (OPENAI_API_KEY env) (p_owner prm) (p_repo prm)
           (p_baseBranch prm) (p_note prm) (take 12 collected) s1 = Some (Inr hr, s2)"
    and "get_prop (Some hr) (lit ''files'') = Inr files"
    and "optional_prop files (lit ''length'') = Inr len" and "truthy len"
    and "\<not> truthy (p_apply prm)"
  shows "\<exists>summary tr.
           get_prop (Some hr) (lit ''summary'') = Inr summary \<and>
           fetch R P fuel now env req s = Some (preview_response summary files, s2) \<and>
           snd s2 = snd s @ tr \<and> list_all (\<lambda>x. \<not> mutating (fst x)) tr"
proof -
  from assms(9) obtain summary
    where summary: "get_prop (Some hr) (lit ''summary'') = Inr summary"
    by (cases hr) auto
  have "harmonize R P fuel now env body s = Some (Inr (preview_response summary files), s2)"
    using assms(4-12) summary
    by (simp add: harmonize_def bind_lift_Inr bind_Some_Inr ret_def)
  then have run: "fetch R P fuel now env req s = Some (preview_response summary files, s2)"
    by (simp add: route_harmonize [OF assms(1-3)])
  from issuesD [OF collect_issues assms(6)] obtain tr1
    where tr1: "snd s1 = snd s @ tr1" "list_all contents_read tr1" by blast
  from issuesD [OF callOpenAIHarmonizer_issues assms(8)] obtain tr2
    where tr2: "snd s2 = snd s1 @ tr2" "list_all model_request tr2" by blast
  from tr1 tr2 have "snd s2 = snd s @ (tr1 @ tr2)"
    and "list_all (\<lambda>x. \<not> mutating (fst x)) (tr1 @ tr2)"
    by (auto simp: list_all_iff dest: contents_read_quiet model_request_quiet)
  with run summary show ?thesis by blast
qed

theorem preview_returns_without_mutation_witness:
  "\<exists>summary tr.
     get_prop (Some demo_rewrite) (lit ''summary'') = Inr summary \<and>
     fetch (demo_remote reply_rewrite) demo_platform (Suc 0) 0 demo_env
         (demo_request False) ((), []) =
       Some (preview_response summary
               (Some (JArr [mk_obj [(''path'', Some (JStr (lit ''src/a.txt''))),
                                    (''content'', Some (JStr (lit ''new'')))]])),
             ((), [demo_listing, demo_listing, demo_chat reply_rewrite])) \<and>
     [demo_listing, demo_listing, demo_chat reply_rewrite] = [] @ tr \<and>
     list_all (\<lambda>x. \<not> mutating (fst x)) tr"
proof -
  have nonempty: "demo_collected \<noteq> []" by (simp add: demo_collected_def)
  have off: "\<not> truthy (p_apply (demo_params False))" by (simp add: demo_params_def)
  have one: "truthy (Some (JNum 1))" by simp
  have model: "callOpenAIHarmonizer (demo_remote reply_rewrite) demo_platform
      (OPENAI_API_KEY demo_env) (p_owner (demo_params False)) (p_repo (demo_params False))
      (p_baseBranch (demo_params False)) (p_note (demo_params False)) (take 12 demo_collected)
      ((), [demo_listing, demo_listing]) =
      Some (Inr demo_rewrite, ((), [demo_listing, demo_listing, demo_chat reply_rewrite]))"
    by (simp add: demo_call_model demo_parse)
  show ?thesis
    using preview_returns_without_mutation [OF demo_route demo_read_body demo_validate
        demo_collect nonempty model demo_rewrite_props(1) length_of_one one off]
    by simp
qed

text \<open>
  C4, as the code has it. If the rewrite request raises (the model call fails, or its
  reply is not JSON), the handler aborts with that error; if the parsed reply's \<open>files\<close>
  is absent, null or has no non-zero length, it aborts with the one error
  "Harmonizer returned no files"; in both cases no mutating call was issued. (A reply
  whose \<open>files\<close> has a non-zero length is not rejected, whatever its shape.)
\<close>

theorem rewrite_failure_aborts_before_mutation:
  assumes "pathname req = lit ''/harmonize''" and "verb req = lit ''POST''"
    and "body_json req = Some body"
    and "read_body env body = Inr prm" and "validate env prm = Inr ()"
    and "collect R P fuel env prm s = Some (Inr collected, s1)" and "collected \<noteq> []"
    and "callOpenAIHarmonizer R P (OPENAI_API_KEY env) (p_owner prm) (p_repo prm)
           (p_baseBranch prm) (p_note prm) (take 12 collected) s1 = Some (res, s2)"
    and "res = Inl e \<or>
         res = Inr hr \<and> get_prop (Some hr) (lit ''files'') = Inr files \<and>
           optional_prop files (lit ''length'') = Inr len \<and> \<not> truthy len"
  shows "fetch R P fuel now env req s =
           Some (case res of Inl e \<Rightarrow> Caught e | Inr hr \<Rightarrow> no_rewrite_response, s2) \<and>
         (\<exists>tr. snd s2 = snd s @ tr \<and> list_all (\<lambda>x. \<not> mutating (fst x)) tr)"
  using assms(9) reach_rewrite [OF assms(1-8)]
  by (auto simp: bind_lift_Inr ret_def)

theorem rewrite_failure_aborts_before_mutation_witness:
  "(fetch (demo_remote reply_prose) demo_platform (Suc 0) 0 demo_env (demo_request True)
      ((), []) =
    Some (Caught SyntaxError, ((), [demo_listing, demo_listing, demo_chat reply_prose])) \<and>
    (\<exists>tr. [demo_listing, demo_listing, demo_chat reply_prose] = tr \<and>
       list_all (\<lambda>x. \<not> mutating (fst x)) tr)) \<and>
   (fetch (demo_remote reply_empty) demo_platform (Suc 0) 0 demo_env (demo_request True)
      ((), []) =
    Some (no_rewrite_response, ((), [demo_listing, demo_listing, demo_chat reply_empty])) \<and>
    (\<exists>tr. [demo_listing, demo_listing, demo_chat reply_empty] = tr \<and>
       list_all (\<lambda>x. \<not> mutating (fst x)) tr))"
proof -
  have unparsed: "callOpenAIHarmonizer (demo_remote reply_prose) demo_platform
      (OPENAI_API_KEY demo_env) (p_owner (demo_params True)) (p_repo (demo_params True))
      (p_baseBranch (demo_params True)) (p_note (demo_params True)) (take 12 demo_collected)
      ((), [demo_listing, demo_listing]) =
      Some (Inl SyntaxError, ((), [demo_listing, demo_listing, demo_chat reply_prose]))"
    by (simp add: demo_model demo_parse)
  have empty: "callOpenAIHarmonizer (demo_remote reply_empty) demo_platform
      (OPENAI_API_KEY demo_env) (p_owner (demo_params True)) (p_repo (demo_params True))
      (p_baseBranch (demo_params True)) (p_note (demo_params True)) (take 12 demo_collected)
      ((), [demo_listing, demo_listing]) =
      Some (Inr (mk_obj [(''files'', Some (JArr []))]),
            ((), [demo_listing, demo_listing, demo_chat reply_empty]))"
    by (simp add: demo_model demo_parse)
  have raised: "Inl SyntaxError = Inl SyntaxError \<or>
      (Inl SyntaxError :: err + json) = Inr JNull \<and> get_prop (Some JNull) (lit ''files'') = Inr None \<and>
      optional_prop None (lit ''length'') = Inr None \<and> \<not> truthy None"
    by simp
  have zero: "Inr (mk_obj [(''files'', Some (JArr []))]) = Inl SyntaxError \<or>
      (Inr (mk_obj [(''files'', Some (JArr []))]) :: err + json) =
        Inr (mk_obj [(''files'', Some (JArr []))]) \<and>
      get_prop (Some (mk_obj [(''files'', Some (JArr []))])) (lit ''files'') = Inr (Some (JArr [])) \<and>
      optional_prop (Some (JArr [])) (lit ''length'') = Inr (Some (JNum 0)) \<and>
      \<not> truthy (Some (JNum 0))"
    by (simp add: demo_empty_props)
  show ?thesis
    using rewrite_failure_aborts_before_mutation [OF demo_route demo_read_body demo_validate
        demo_collect demo_collected_nonempty unparsed raised, of 0]
      rewrite_failure_aborts_before_mutation [OF demo_route demo_read_body demo_validate
        demo_collect demo_collected_nonempty empty zero, of 0]
    by simp
qed

text \<open>
  C4 as stated fails: the reply \<open>{"files":"x"}\<close> has no valid \<open>files\<close>, yet in apply
  mode the run does not abort; it creates the branch, writes a file named
  \<open>undefined\<close> and opens the pull request.
\<close>

theorem misshapen_files_are_applied:
  "fetch (demo_remote reply_misshapen) demo_platform (Suc 0) 0 demo_env (demo_request True)
     ((), []) =
   Some (demo_applied [update_result None (Some (JStr (lit ''blob1''))) (Some (JStr (lit ''c1'')))],
         ((), [demo_listing, demo_listing, demo_chat reply_misshapen, demo_lookup, demo_create,
               demo_probe (lit ''undefined''),
               demo_write (lit ''undefined'') None (lit ''dW5kZWZpbmVk''), demo_pull])) \<and>
   mutating (fst demo_create) \<and>
   mutating (fst (demo_write (lit ''undefined'') None (lit ''dW5kZWZpbmVk''))) \<and>
   mutating (fst demo_pull)"
proof -
  have model: "callOpenAIHarmonizer (demo_remote reply_misshapen) demo_platform
      (OPENAI_API_KEY demo_env) (p_owner (demo_params True)) (p_repo (demo_params True))
      (p_baseBranch (demo_params True)) (p_note (demo_params True)) (take 12 demo_collected)
      ((), [demo_listing, demo_listing]) =
      Some (Inr (mk_obj [(''files'', Some (JStr (lit ''x'')))]),
            ((), [demo_listing, demo_listing, demo_chat reply_misshapen]))"
    by (simp add: demo_model demo_parse)
  have files: "get_prop (Some (mk_obj [(''files'', Some (JStr (lit ''x'')))])) (lit ''files'') =
      Inr (Some (JStr (lit ''x'')))"
    "get_prop (Some (mk_obj [(''files'', Some (JStr (lit ''x'')))])) (lit ''summary'') = Inr None"
    "optional_prop (Some (JStr (lit ''x''))) (lit ''length'') = Inr (Some (JNum 1))"
    "iterate (Some (JStr (lit ''x''))) = Inr [JStr (lit ''x'')]"
    "get_prop (Some (JStr (lit ''x''))) (lit ''content'') = Inr None"
    "get_prop (Some (JStr (lit ''x''))) (lit ''path'') = Inr None"
    "to_string None = lit ''undefined''"
    by (simp_all add: mk_obj_def List.map_filter_simps optional_prop_def lit_def to_string_def)
  have on: "truthy (p_apply (demo_params True))" by (simp add: demo_params_def)
  have run: "apply_changes (demo_remote reply_misshapen) 0 (GITHUB_TOKEN demo_env)
      (p_owner (demo_params True)) (p_repo (demo_params True)) (p_baseBranch (demo_params True))
      (p_note (demo_params True)) (mk_obj [(''files'', Some (JStr (lit ''x'')))])
      ((), [demo_listing, demo_listing, demo_chat reply_misshapen]) =
      Some (Inr (demo_applied
              [update_result None (Some (JStr (lit ''blob1''))) (Some (JStr (lit ''c1'')))]),
            ((), [demo_listing, demo_listing, demo_chat reply_misshapen] @
                 [demo_lookup, demo_create, demo_probe (lit ''undefined''),
                  demo_write (lit ''undefined'') None (lit ''dW5kZWZpbmVk''), demo_pull]))"
    by (rule demo_apply_one [OF files(1) files(4) files(2) files(5) _ files(6)])
      (simp_all add: files(7) demo_undefined)
  have "fetch (demo_remote reply_misshapen) demo_platform (Suc 0) 0 demo_env
      (demo_request True) ((), []) =
    Some (demo_applied [update_result None (Some (JStr (lit ''blob1''))) (Some (JStr (lit ''c1'')))],
         ((), [demo_listing, demo_listing, demo_chat reply_misshapen, demo_lookup, demo_create,
               demo_probe (lit ''undefined''),
               demo_write (lit ''undefined'') None (lit ''dW5kZWZpbmVk''), demo_pull]))"
    using reach_rewrite(1) [OF demo_route demo_read_body demo_validate demo_collect
        demo_collected_nonempty model, of 0]
    by (simp add: files(1,3) bind_lift_Inr on run)
  moreover have "mutating (fst demo_create)"
    "mutating (fst (demo_write (lit ''undefined'') None (lit ''dW5kZWZpbmVk'')))"
    "mutating (fst demo_pull)"
    by (simp_all add: mutating_def demo_create_def demo_write_def demo_pull_def)
  ultimately show ?thesis by simp
qed

text \<open>
  C9, as the code has it. A run fails with "Harmonizer returned no files" whenever the
  parsed reply holds no proposed change (\<open>files\<close> absent or the empty list). The path
  of a proposed change is not examined.
\<close>

theorem run_fails_without_proposed_changes:
  assumes "pathname req = lit ''/harmonize''" and "verb req = lit ''POST''"
    and "body_json req = Some body"
    and "read_body env body = Inr prm" and "validate env prm = Inr ()"
    and "collect R P fuel env prm s = Some (Inr collected, s1)" and "collected \<noteq> []"
    and "callOpenAIHarmonizer R P (OPENAI_API_KEY env) (p_owner prm) (p_repo prm)
           (p_baseBranch prm) (p_note prm) (take 12 collected) s1 = Some (Inr hr, s2)"
    and "get_prop (Some hr) (lit ''files'') = Inr files"
    and "files = None \<or> files = Some (JArr [])"
  shows "fetch R P fuel now env req s = Some (no_rewrite_response, s2)"
  using assms(9,10) reach_rewrite(1) [OF assms(1-8)]
  by (auto simp: bind_lift_Inr ret_def optional_prop_def)


theorem run_fails_without_proposed_changes_witness:
  "fetch (demo_remote reply_empty) demo_platform (Suc 0) 0 demo_env (demo_request True)
      ((), []) =
    Some (no_rewrite_response, ((), [demo_listing, demo_listing, demo_chat reply_empty]))"
proof -
  have empty: "callOpenAIHarmonizer (demo_remote reply_empty) demo_platform
      (OPENAI_API_KEY demo_env) (p_owner (demo_params True)) (p_repo (demo_params True))
      (p_baseBranch (demo_params True)) (p_note (demo_params True)) (take 12 demo_collected)
      ((), [demo_listing, demo_listing]) =
      Some (Inr (mk_obj [(''files'', Some (JArr []))]),
            ((), [demo_listing, demo_listing, demo_chat reply_empty]))"
    by (simp add: demo_model demo_parse)
  have none: "Some (JArr []) = None \<or> Some (JArr []) = Some (JArr [])" by simp
  show ?thesis
    by (rule run_fails_without_proposed_changes [OF demo_route demo_read_body demo_validate
        demo_collect demo_collected_nonempty empty demo_empty_props(1) none])
qed

text \<open>
  C9 as stated fails: the reply \<open>{"files":[{"path":"","content":"new"}]}\<close> proposes a
  change with an empty path; a preview run returns it to the caller, and an apply run
  writes it.
\<close>

theorem empty_path_is_handed_onward:
  "fetch (demo_remote reply_pathless) demo_platform (Suc 0) 0 demo_env (demo_request False)
     ((), []) =
   Some (preview_response None (Some (JArr [pathless_file])),
         ((), [demo_listing, demo_listing, demo_chat reply_pathless])) \<and>
   get_prop (Some pathless_file) (lit ''path'') = Inr (Some (JStr [])) \<and>
   fetch (demo_remote reply_pathless) demo_platform (Suc 0) 0 demo_env (demo_request True)
     ((), []) =
   Some (demo_applied
           [update_result (Some (JStr [])) (Some (JStr (lit ''blob1''))) (Some (JStr (lit ''c1'')))],
         ((), [demo_listing, demo_listing, demo_chat reply_pathless, demo_lookup, demo_create,
               demo_probe [], demo_write [] (Some (JStr [])) (lit ''bmV3''), demo_pull]))"
proof -
  have model: "callOpenAIHarmonizer (demo_remote reply_pathless) demo_platform
      (OPENAI_API_KEY demo_env) (p_owner (demo_params ap)) (p_repo (demo_params ap))
      (p_baseBranch (demo_params ap)) (p_note (demo_params ap)) (take 12 demo_collected)
      ((), [demo_listing, demo_listing]) =
      Some (Inr (mk_obj [(''files'', Some (JArr [pathless_file]))]),
            ((), [demo_listing, demo_listing, demo_chat reply_pathless]))" for ap
    by (simp add: demo_model demo_parse)
  have files:
    "get_prop (Some (mk_obj [(''files'', Some (JArr [pathless_file]))])) (lit ''files'') =
       Inr (Some (JArr [pathless_file]))"
    "get_prop (Some (mk_obj [(''files'', Some (JArr [pathless_file]))])) (lit ''summary'') =
       Inr None"
    "iterate (Some (JArr [pathless_file])) = Inr [pathless_file]"
    "get_prop (Some pathless_file) (lit ''content'') = Inr (Some (JStr (lit ''new'')))"
    "get_prop (Some pathless_file) (lit ''path'') = Inr (Some (JStr []))"
    by (simp_all add: mk_obj_def List.map_filter_simps pathless_file_def lit_def)
  have off: "\<not> truthy (p_apply (demo_params False))" and on: "truthy (p_apply (demo_params True))"
    by (simp_all add: demo_params_def)
  have preview: "fetch (demo_remote reply_pathless) demo_platform (Suc 0) 0 demo_env
      (demo_request False) ((), []) =
    Some (preview_response None (Some (JArr [pathless_file])),
          ((), [demo_listing, demo_listing, demo_chat reply_pathless]))"
    using reach_rewrite(1) [OF demo_route demo_read_body demo_validate demo_collect
        demo_collected_nonempty model, of 0]
    by (simp add: files(1,2) length_of_one bind_lift_Inr off ret_def)
  have run: "apply_changes (demo_remote reply_pathless) 0 (GITHUB_TOKEN demo_env)
      (p_owner (demo_params True)) (p_repo (demo_params True)) (p_baseBranch (demo_params True))
      (p_note (demo_params True)) (mk_obj [(''files'', Some (JArr [pathless_file]))])
      ((), [demo_listing, demo_listing, demo_chat reply_pathless]) =
      Some (Inr (demo_applied
              [update_result (Some (JStr [])) (Some (JStr (lit ''blob1'')))
                 (Some (JStr (lit ''c1'')))]),
            ((), [demo_listing, demo_listing, demo_chat reply_pathless] @
                 [demo_lookup, demo_create, demo_probe [],
                  demo_write [] (Some (JStr [])) (lit ''bmV3''), demo_pull]))"
    by (rule demo_apply_one [OF files(1) files(3) files(2) files(4) _ files(5)])
      (simp_all add: demo_encode demo_undefined)
  have "fetch (demo_remote reply_pathless) demo_platform (Suc 0) 0 demo_env
      (demo_request True) ((), []) =
    Some (demo_applied
           [update_result (Some (JStr [])) (Some (JStr (lit ''blob1''))) (Some (JStr (lit ''c1'')))],
         ((), [demo_listing, demo_listing, demo_chat reply_pathless, demo_lookup, demo_create,
               demo_probe [], demo_write [] (Some (JStr [])) (lit ''bmV3''), demo_pull]))"
    using reach_rewrite(1) [OF demo_route demo_read_body demo_validate demo_collect
        demo_collected_nonempty model, of 0]
    by (simp add: files(1) length_of_one bind_lift_Inr on run)
  with preview files(5) show ?thesis by simp
qed

text \<open>
  C10. The two helpers are inverse on every well-formed string (no surrogate without
  its partner): \<open>base64encode s\<close> returns a text, and \<open>base64decode\<close> of that text
  returns \<open>s\<close>. These are exactly the strings \<open>base64encode\<close> accepts.
\<close>

theorem base64_round_trip:
  assumes "list_all (\<lambda>c. c < 65536) s" and "well_formed s"
  shows "\<exists>e. base64encode s = Inr e \<and> base64decode e = Inr s"
proof -
  from assms obtain e where enc: "base64encode s = Inr e"
    using base64encode_defined by blast
  then obtain u where u: "encodeURIComponent s = Inr u" and e: "btoa (unescape u) = Inr e"
    by (auto simp: base64encode_def split: sum.splits)
  from encode_unescape [OF assms(1) u] have bytes: "unescape u = utf8_string s" .
  from utf8_string_bytes [OF assms(1) u] have small: "\<forall>b \<in> set (utf8_string s). b < 256" .
  then have "\<forall>c \<in> set (utf8_string s). c \<le> 255" by auto
  with e bytes have "e = b64_encode (utf8_string s)" by (simp add: btoa_def)
  with atob_b64_encode [OF small] decode_utf8_string [OF assms(1) u]
  have "base64decode e = Inr s" by (simp add: base64decode_def)
  with enc show ?thesis by blast
qed

theorem base64_round_trip_witness:
  "base64encode [233, 8364, 55357, 56832, 37] =
     Inr [119, 54, 110, 105, 103, 113, 122, 119, 110, 53, 105, 65, 74, 81, 61, 61] \<and>
   base64decode [119, 54, 110, 105, 103, 113, 122, 119, 110, 53, 105, 65, 74, 81, 61, 61] =
     Inr [233, 8364, 55357, 56832, 37]"
proof -
  have units: "list_all (\<lambda>c. c < 65536) [233, 8364, 55357, 56832, 37 :: nat]" by simp
  have pairs: "well_formed [233, 8364, 55357, 56832, 37]"
    by (simp add: is_lead_def is_trail_def)
  have encoded: "base64encode [233, 8364, 55357, 56832, 37] =
      Inr [119, 54, 110, 105, 103, 113, 122, 119, 110, 53, 105, 65, 74, 81, 61, 61]"
    by (simp add: codec_defs pair_code_point_def)
  from base64_round_trip [OF units pairs] encoded show ?thesis by simp
qed

text \<open>
  C7. When a file is collected, the stored content is the decoded content cut to its
  first 7000 code units: exactly 7000 long when the decoded content is longer, and the
  decoded content itself otherwise.
\<close>

theorem collected_content_is_truncated:
  assumes "encodeURIComponent (to_string path) = Inr p"
    and "R w (Call GET (Contents (to_string owner) (to_string repo) p (Some (to_string branch)))
           (to_string token) None) = (Http_ok (Some meta), w1)"
    and "get_prop (Some meta) (lit ''content'') = Inr content" and "truthy content"
    and "get_prop (Some meta) (lit ''size'') = Inr sz" and "\<not> js_gt P sz 120000"
    and "base64decode (to_string content) = Inr decoded"
  shows "\<exists>stored.
           pushFile R P owner repo branch path token out (w, tr) =
             Some (Inr (out @ [Collected_file path stored]),
                   (w1, tr @ [(Call GET (Contents (to_string owner) (to_string repo) p
                                 (Some (to_string branch))) (to_string token) None,
                               Http_ok (Some meta))])) \<and>
           (7000 < length decoded \<longrightarrow> length stored = 7000 \<and> stored = take 7000 decoded) \<and>
           (length decoded \<le> 7000 \<longrightarrow> stored = decoded)"
proof -
  have "pushFile R P owner repo branch path token out (w, tr) =
      Some (Inr (out @ [Collected_file path (take 7000 decoded)]),
            (w1, tr @ [(Call GET (Contents (to_string owner) (to_string repo) p
                          (Some (to_string branch))) (to_string token) None,
                        Http_ok (Some meta))]))"
    using assms by (simp add: pushFile_def io_defs perform_def)
  then show ?thesis by auto
qed

theorem collected_content_is_truncated_witness:
  "\<exists>stored.
     pushFile big_remote demo_platform (Some (JStr (lit ''acme''))) (Some (JStr (lit ''site'')))
       (Some (JStr (lit ''main''))) (Some (JStr (lit ''big.txt''))) (Some (JStr (lit ''ghp'')))
       [] ((), []) =
       Some (Inr ([] @ [Collected_file (Some (JStr (lit ''big.txt''))) stored]),
             ((), [] @ [(Call GET (Contents (lit ''acme'') (lit ''site'') (lit ''big.txt'')
                           (Some (lit ''main''))) (lit ''ghp'') None,
                         Http_ok (Some big_file))])) \<and>
     length stored = 7000 \<and> stored = replicate 7000 97"
proof -
  have path: "encodeURIComponent (to_string (Some (JStr (lit ''big.txt'')))) = Inr (lit ''big.txt'')"
    by (simp add: codec_defs lit_def)
  have reply: "big_remote () (Call GET (Contents (to_string (Some (JStr (lit ''acme''))))
      (to_string (Some (JStr (lit ''site'')))) (lit ''big.txt'')
      (Some (to_string (Some (JStr (lit ''main'')))))) (to_string (Some (JStr (lit ''ghp'')))) None) =
      (Http_ok (Some big_file), ())"
    by (simp add: big_remote_def)
  have props: "get_prop (Some big_file) (lit ''content'') =
      Inr (Some (JStr (b64_encode (replicate 7001 97))))"
    "get_prop (Some big_file) (lit ''size'') = Inr (Some (JNum 7001))"
    by (simp_all add: big_file_def mk_obj_def List.map_filter_simps lit_def)
  have "replicate 7001 (97::nat) = 97 # replicate 7000 97"
    by (simp add: replicate_Suc [symmetric] del: replicate_Suc)
  then have "b64_encode (replicate 7001 97) \<noteq> []"
    by (cases "replicate 7000 (97::nat)" rule: b64_encode.cases) simp_all
  then have full: "truthy (Some (JStr (b64_encode (replicate 7001 97))))" by simp
  have small: "\<not> js_gt demo_platform (Some (JNum 7001)) 120000"
    by (simp add: js_gt_def to_number_def)
  have decoded: "base64decode (to_string (Some (JStr (b64_encode (replicate 7001 97))))) =
      Inr (replicate 7001 97)"
    by (simp add: plain_round_trip ascii_alnum_def)
  from collected_content_is_truncated [where R = big_remote and w = "()" and out = "[]"
      and tr = "[]", OF path reply props(1) full props(2) small decoded]
  show ?thesis by (simp add: min_def)
qed

text \<open>
  C8. Over a repository that does not change during the walk and whose tree under the
  given paths the walk gets through (\<open>walkable\<close>, within the fuel): the collection
  returns a list; a file whose reported size is above 120000 is not in it, and reading
  it leaves the accumulator as it was without raising; every file under one of the
  given paths whose read succeeds, has content and is not above the bound is in it; and
  it holds such files only. A file whose content does not decode is not skipped: the
  walk raises \<open>URIError\<close> and nothing is collected, the files before it included.
\<close>

theorem oversize_files_are_skipped:
  assumes "iterate (p_paths prm) = Inr ps"
    and "\<forall>p \<in> set ps. walkable F P n (p_owner prm) (p_repo prm) (p_baseBranch prm)
           (GITHUB_TOKEN env) (Some p)"
    and "n \<le> fuel"
  shows "\<exists>collected s'.
           collect (static F :: 'w remote) P fuel env prm s = Some (Inr collected, s') \<and>
           (\<forall>q. oversize F P (p_owner prm) (p_repo prm) (p_baseBranch prm) (GITHUB_TOKEN env) q \<longrightarrow>
              q \<notin> file_path ` set collected \<and>
              (\<forall>out s0. \<exists>s1. pushFile (static F :: 'w remote) P (p_owner prm) (p_repo prm)
                 (p_baseBranch prm) q (GITHUB_TOKEN env) out s0 = Some (Inr out, s1))) \<and>
           (\<forall>p \<in> set ps. \<forall>q.
              files_under F (p_owner prm) (p_repo prm) (p_baseBranch prm) (GITHUB_TOKEN env)
                (Some p) q \<and>
              eligible F P (p_owner prm) (p_repo prm) (p_baseBranch prm) (GITHUB_TOKEN env) q \<longrightarrow>
              q \<in> file_path ` set collected) \<and>
           (\<forall>f \<in> set collected.
              eligible F P (p_owner prm) (p_repo prm) (p_baseBranch prm) (GITHUB_TOKEN env)
                (file_path f) \<and>
              (\<exists>p \<in> set ps. files_under F (p_owner prm) (p_repo prm) (p_baseBranch prm)
                 (GITHUB_TOKEN env) (Some p) (file_path f)))"
proof -
  from assms(2,3) have "\<forall>p \<in> set ps. walkable F P fuel (p_owner prm) (p_repo prm)
      (p_baseBranch prm) (GITHUB_TOKEN env) (Some p)"
    by (blast intro: walkable_mono)
  from crawl_paths_returns [OF this] obtain collected s' where
    "crawl_paths (static F :: 'w remote) P fuel (p_owner prm) (p_repo prm) (p_baseBranch prm)
       (GITHUB_TOKEN env) ps [] s = Some (Inr collected, s')"
    by blast
  with assms(1) have run: "collect (static F :: 'w remote) P fuel env prm s =
      Some (Inr collected, s')"
    by (simp add: collect_def bind_def lift_def)
  from collect_gathers [OF run assms(1)] run show ?thesis by blast
qed

theorem oversize_files_are_skipped_witness:
  "collect (static sized_tree) demo_platform (Suc (Suc 0)) demo_env sized_params ((), []) =
     Some (Inr demo_collected, ((), sized_trace)) \<and>
   oversize sized_tree demo_platform (Some (JStr (lit ''acme''))) (Some (JStr (lit ''site'')))
     (Some (JStr (lit ''main''))) (Some (JStr (lit ''ghp''))) (Some (JStr (lit ''src/big.bin''))) \<and>
   Some (JStr (lit ''src/big.bin'')) \<notin> file_path ` set demo_collected \<and>
   files_under sized_tree (Some (JStr (lit ''acme''))) (Some (JStr (lit ''site'')))
     (Some (JStr (lit ''main''))) (Some (JStr (lit ''ghp''))) (Some (JStr (lit ''src'')))
     (Some (JStr (lit ''src/a.txt''))) \<and>
   eligible sized_tree demo_platform (Some (JStr (lit ''acme''))) (Some (JStr (lit ''site'')))
     (Some (JStr (lit ''main''))) (Some (JStr (lit ''ghp''))) (Some (JStr (lit ''src/a.txt''))) \<and>
   Some (JStr (lit ''src/a.txt'')) \<in> file_path ` set demo_collected"
proof -
  have paths: "iterate (p_paths sized_params) = Inr [JStr (lit ''src'')]"
    by (simp add: sized_params_def)
  have prm: "p_owner sized_params = Some (JStr (lit ''acme''))"
    "p_repo sized_params = Some (JStr (lit ''site''))"
    "p_baseBranch sized_params = Some (JStr (lit ''main''))"
    "GITHUB_TOKEN demo_env = Some (JStr (lit ''ghp''))"
    by (simp_all add: sized_params_def demo_env_def)
  have tree: "\<forall>p \<in> set [JStr (lit ''src'')]. walkable sized_tree demo_platform (Suc (Suc 0))
      (p_owner sized_params) (p_repo sized_params) (p_baseBranch sized_params)
      (GITHUB_TOKEN demo_env) (Some p)"
    unfolding prm using sized_walkable by (simp del: walkable.simps)
  have over: "oversize sized_tree demo_platform (Some (JStr (lit ''acme'')))
      (Some (JStr (lit ''site''))) (Some (JStr (lit ''main''))) (Some (JStr (lit ''ghp'')))
      (Some (JStr (lit ''src/big.bin'')))"
    by (simp add: oversize_def contents_reply_def sized_paths sized_replies oversize_file_props
        sized_big)
  have under: "files_under sized_tree (Some (JStr (lit ''acme''))) (Some (JStr (lit ''site'')))
      (Some (JStr (lit ''main''))) (Some (JStr (lit ''ghp''))) (Some (JStr (lit ''src'')))
      (Some (JStr (lit ''src/a.txt'')))"
    by (rule files_under.listed [where items = "[mk_obj [(''type'', Some (JStr (lit ''file''))),
            (''path'', Some (JStr (lit ''src/a.txt'')))],
          mk_obj [(''type'', Some (JStr (lit ''file''))),
            (''path'', Some (JStr (lit ''src/big.bin'')))]]"
        and item = "mk_obj [(''type'', Some (JStr (lit ''file''))),
            (''path'', Some (JStr (lit ''src/a.txt'')))]"])
      (simp_all add: contents_reply_def sized_paths sized_replies sized_listing_def
        sized_item_props)
  have fit: "eligible sized_tree demo_platform (Some (JStr (lit ''acme'')))
      (Some (JStr (lit ''site''))) (Some (JStr (lit ''main''))) (Some (JStr (lit ''ghp'')))
      (Some (JStr (lit ''src/a.txt'')))"
    by (simp add: eligible_def contents_reply_def demo_encode_path sized_replies demo_file_props
        sized_small sized_content)
  from oversize_files_are_skipped [OF paths tree order_refl, of "((), [])"]
  have "Some (JStr (lit ''src/a.txt'')) \<in> file_path ` set demo_collected \<and>
      Some (JStr (lit ''src/big.bin'')) \<notin> file_path ` set demo_collected"
    using over under fit unfolding prm by (simp add: sized_collect)
  with sized_collect over under fit show ?thesis by blast
qed

theorem undecodable_file_fails_collection:
  "collect (static broken_tree) demo_platform (Suc (Suc 0)) demo_env sized_params ((), []) =
     Some (Inl URIError, ((), broken_trace)) \<and>
   files_under broken_tree (Some (JStr (lit ''acme''))) (Some (JStr (lit ''site'')))
     (Some (JStr (lit ''main''))) (Some (JStr (lit ''ghp''))) (Some (JStr (lit ''src'')))
     (Some (JStr (lit ''src/a.txt''))) \<and>
   eligible broken_tree demo_platform (Some (JStr (lit ''acme''))) (Some (JStr (lit ''site'')))
     (Some (JStr (lit ''main''))) (Some (JStr (lit ''ghp''))) (Some (JStr (lit ''src/a.txt''))) \<and>
   \<not> oversize broken_tree demo_platform (Some (JStr (lit ''acme''))) (Some (JStr (lit ''site'')))
     (Some (JStr (lit ''main''))) (Some (JStr (lit ''ghp''))) (Some (JStr (lit ''src/bad.bin'')))"
proof -
  have under: "files_under broken_tree (Some (JStr (lit ''acme''))) (Some (JStr (lit ''site'')))
      (Some (JStr (lit ''main''))) (Some (JStr (lit ''ghp''))) (Some (JStr (lit ''src'')))
      (Some (JStr (lit ''src/a.txt'')))"
    by (rule files_under.listed [where items = "[mk_obj [(''type'', Some (JStr (lit ''file''))),
            (''path'', Some (JStr (lit ''src/a.txt'')))],
          mk_obj [(''type'', Some (JStr (lit ''file''))),
            (''path'', Some (JStr (lit ''src/bad.bin'')))]]"
        and item = "mk_obj [(''type'', Some (JStr (lit ''file''))),
            (''path'', Some (JStr (lit ''src/a.txt'')))]"])
      (simp_all add: contents_reply_def sized_paths broken_replies broken_listing_def
        sized_item_props)
  have fit: "eligible broken_tree demo_platform (Some (JStr (lit ''acme'')))
      (Some (JStr (lit ''site''))) (Some (JStr (lit ''main''))) (Some (JStr (lit ''ghp'')))
      (Some (JStr (lit ''src/a.txt'')))"
    by (simp add: eligible_def contents_reply_def demo_encode_path broken_replies demo_file_props
        sized_small sized_content)
  have small: "\<not> oversize broken_tree demo_platform (Some (JStr (lit ''acme'')))
      (Some (JStr (lit ''site''))) (Some (JStr (lit ''main''))) (Some (JStr (lit ''ghp'')))
      (Some (JStr (lit ''src/bad.bin'')))"
    by (simp add: oversize_def contents_reply_def broken_paths broken_replies
        undecodable_file_props js_gt_def to_number_def)
  from broken_collect under fit small show ?thesis by blast
qed

text \<open>
  C2. For a proposed change whose content and path can be encoded, the run issues the
  probe on the new branch and then the write. If the probe's reply is a success whose
  body has a truthy \<open>sha\<close>, the write payload carries that \<open>sha\<close> and the recorded
  status is \<open>updated\<close>; in every other case (the probe failed, or yielded no \<open>sha\<close>)
  no error is raised by the probe, the payload has no \<open>sha\<close> property and the recorded
  status is \<open>created\<close>.
\<close>

theorem write_follows_probe:
  assumes "get_prop (Some file) (lit ''content'') = Inr content"
    and "base64encode (to_string content) = Inr encoded"
    and "get_prop (Some file) (lit ''path'') = Inr path"
    and "encodeURIComponent (to_string path) = Inr p"
  shows "\<exists>res w' rp pl rw.
     commit_file R token owner repo newBranch file (w, tr) =
       Some (res, (w', tr @
         [(Call GET (Contents (to_string owner) (to_string repo) p (Some newBranch))
             (to_string token) None, rp),
          (Call PUT (Contents (to_string owner) (to_string repo) p None)
             (to_string token) (Some pl), rw)])) \<and>
     ((\<exists>sha. yields_sha rp sha \<and> get_prop (Some pl) (lit ''sha'') = Inr sha \<and>
         (\<forall>u. res = Inr u \<longrightarrow>
            get_prop (Some u) (lit ''status'') = Inr (Some (JStr (lit ''updated''))))) \<or>
      ((\<forall>sha. \<not> yields_sha rp sha) \<and> get_prop (Some pl) (lit ''sha'') = Inr None \<and>
         (\<forall>u. res = Inr u \<longrightarrow>
            get_prop (Some u) (lit ''status'') = Inr (Some (JStr (lit ''created''))))))"
proof -
  let ?get = "Call GET (Contents (to_string owner) (to_string repo) p (Some newBranch))
             (to_string token) None"
  obtain rp w1 where rp: "R w ?get = (rp, w1)" by (cases "R w ?get")
  from probe_run [where R = R and w = w and tr = tr, OF rp] obtain ex
    where probed: "probe R token (Contents (to_string owner) (to_string repo) p (Some newBranch))
        (w, tr) = Some (Inr ex, (w1, tr @ [(?get, rp)]))"
      and yes: "truthy ex \<Longrightarrow> yields_sha rp ex"
      and no: "\<not> truthy ex \<Longrightarrow> \<forall>sha. \<not> yields_sha rp sha"
    by blast
  let ?pl = "write_payload path encoded newBranch ex"
  let ?put = "Call PUT (Contents (to_string owner) (to_string repo) p None) (to_string token)
      (Some ?pl)"
  obtain rw w2 where rw: "R w1 ?put = (rw, w2)" by (cases "R w1 ?put")
  from ghPut_run [where R = R and w = w1 and tr = "tr @ [(?get, rp)]", OF rw] obtain written
    where put: "ghPut R token (Contents (to_string owner) (to_string repo) p None) ?pl
        (w1, tr @ [(?get, rp)]) = Some (written, (w2, tr @ [(?get, rp), (?put, rw)]))"
    by auto
  have "\<exists>res. commit_file R token owner repo newBranch file (w, tr) =
      Some (res, (w2, tr @ [(?get, rp), (?put, rw)])) \<and>
      (\<forall>u. res = Inr u \<longrightarrow> (\<exists>c. u = update_result path ex c))"
    using assms probed put
    by (cases written)
      (auto simp: commit_file_def io_defs split: sum.splits)
  then obtain res where run: "commit_file R token owner repo newBranch file (w, tr) =
      Some (res, (w2, tr @ [(?get, rp), (?put, rw)]))"
    and outcome: "\<And>u. res = Inr u \<Longrightarrow> \<exists>c. u = update_result path ex c"
    by blast
  show ?thesis
  proof (cases "truthy ex")
    case True
    from outcome have "\<forall>u. res = Inr u \<longrightarrow>
        get_prop (Some u) (lit ''status'') = Inr (Some (JStr (lit ''updated'')))"
      using True by (auto simp: update_result_status)
    with run yes [OF True] True show ?thesis
      by (intro exI [of _ res] exI [of _ w2] exI [of _ rp] exI [of _ ?pl] exI [of _ rw])
        (auto simp: write_payload_sha)
  next
    case False
    from outcome have "\<forall>u. res = Inr u \<longrightarrow>
        get_prop (Some u) (lit ''status'') = Inr (Some (JStr (lit ''created'')))"
      using False by (auto simp: update_result_status)
    with run no [OF False] False show ?thesis
      by (intro exI [of _ res] exI [of _ w2] exI [of _ rp] exI [of _ ?pl] exI [of _ rw])
        (auto simp: write_payload_sha)
  qed
qed

theorem write_follows_probe_witness:
  "(\<exists>res w' rp pl rw.
     commit_file (demo_remote reply_rewrite) (Some (JStr (lit ''ghp''))) (Some (JStr (lit ''acme'')))
       (Some (JStr (lit ''site''))) demo_branch demo_change ((), []) =
       Some (res, (w', [] @
         [(Call GET (Contents (to_string (Some (JStr (lit ''acme''))))
              (to_string (Some (JStr (lit ''site'')))) (lit ''src%2Fa.txt'') (Some demo_branch))
             (to_string (Some (JStr (lit ''ghp'')))) None, rp),
          (Call PUT (Contents (to_string (Some (JStr (lit ''acme''))))
              (to_string (Some (JStr (lit ''site'')))) (lit ''src%2Fa.txt'') None)
             (to_string (Some (JStr (lit ''ghp'')))) (Some pl), rw)])) \<and>
     ((\<exists>sha. yields_sha rp sha \<and> get_prop (Some pl) (lit ''sha'') = Inr sha \<and>
         (\<forall>u. res = Inr u \<longrightarrow>
            get_prop (Some u) (lit ''status'') = Inr (Some (JStr (lit ''updated''))))) \<or>
      ((\<forall>sha. \<not> yields_sha rp sha) \<and> get_prop (Some pl) (lit ''sha'') = Inr None \<and>
         (\<forall>u. res = Inr u \<longrightarrow>
            get_prop (Some u) (lit ''status'') = Inr (Some (JStr (lit ''created''))))))) \<and>
   (\<exists>res w' rp pl rw.
     commit_file fresh_remote (Some (JStr (lit ''ghp''))) (Some (JStr (lit ''acme'')))
       (Some (JStr (lit ''site''))) demo_branch demo_change ((), []) =
       Some (res, (w', [] @
         [(Call GET (Contents (to_string (Some (JStr (lit ''acme''))))
              (to_string (Some (JStr (lit ''site'')))) (lit ''src%2Fa.txt'') (Some demo_branch))
             (to_string (Some (JStr (lit ''ghp'')))) None, rp),
          (Call PUT (Contents (to_string (Some (JStr (lit ''acme''))))
              (to_string (Some (JStr (lit ''site'')))) (lit ''src%2Fa.txt'') None)
             (to_string (Some (JStr (lit ''ghp'')))) (Some pl), rw)])) \<and>
     ((\<exists>sha. yields_sha rp sha \<and> get_prop (Some pl) (lit ''sha'') = Inr sha \<and>
         (\<forall>u. res = Inr u \<longrightarrow>
            get_prop (Some u) (lit ''status'') = Inr (Some (JStr (lit ''updated''))))) \<or>
      ((\<forall>sha. \<not> yields_sha rp sha) \<and> get_prop (Some pl) (lit ''sha'') = Inr None \<and>
         (\<forall>u. res = Inr u \<longrightarrow>
            get_prop (Some u) (lit ''status'') = Inr (Some (JStr (lit ''created'')))))))"
proof -
  have encoded: "base64encode (to_string (Some (JStr (lit ''new'')))) = Inr (lit ''bmV3'')"
    and p: "encodeURIComponent (to_string (Some (JStr (lit ''src/a.txt'')))) = Inr (lit ''src%2Fa.txt'')"
    by (simp_all add: demo_encode demo_encode_path)
  show ?thesis
    by (intro conjI write_follows_probe [OF demo_change_props(1) encoded demo_change_props(2) p])
qed

text \<open>
  C5. Every apply run returns, and the calls it issued are in order: the lookup of the
  base reference stands before the creation of the branch, that before every file
  write, and every file write before the opening of the pull request; each step is
  taken only if the step before it succeeded. This holds of the apply step of the
  harmonizer and of the touchpoint run of the second worker.
\<close>

theorem apply_calls_in_order:
  "(\<exists>res s' tr.
      apply_changes R now token owner repo baseBranch note hr s = Some (res, s') \<and>
      snd s' = snd s @ tr \<and> in_order Start tr \<and>
      before is_lookup is_branch_create tr \<and> before is_branch_create is_file_write tr \<and>
      before is_file_write is_pr_create tr) \<and>
   (\<exists>res s' tr.
      api_harmonize R now1 now2 isoTime env body s = Some (res, s') \<and>
      snd s' = snd s @ tr \<and> in_order Start tr \<and>
      before is_lookup is_branch_create tr \<and> before is_branch_create is_file_write tr \<and>
      before is_file_write is_pr_create tr)"
  by (intro conjI ordered_run [OF returns_apply_changes steps_apply_changes]
      ordered_run [OF returns_api_harmonize steps_api_harmonize])

theorem apply_calls_in_order_witness:
  "in_order Start demo_trace \<and> before is_lookup is_branch_create demo_trace \<and>
   before is_branch_create is_file_write demo_trace \<and>
   before is_file_write is_pr_create demo_trace \<and>
   in_order Start touch_trace \<and> before is_lookup is_branch_create touch_trace \<and>
   before is_branch_create is_file_write touch_trace \<and>
   before is_file_write is_pr_create touch_trace"
proof -
  from apply_calls_in_order [of "demo_remote reply_rewrite" 0 "GITHUB_TOKEN demo_env"
      "p_owner (demo_params True)" "p_repo (demo_params True)" "p_baseBranch (demo_params True)"
      "p_note (demo_params True)" demo_rewrite "((), [])" 0 0 touch_stamp demo_env "JObj []"]
  show ?thesis by (simp add: demo_apply_run touch_run)
qed
end
